theory Spec2Isabelle
  imports Main
begin

section \<open>Data model\<close>

text \<open>
  The service \<open>app/service/KeychainService.js\<close> works on documents of the persistence layer
  (KeyBlock, Key, Link, Membership, TrustedKey, PublicKey). Their schemas are not part of the
  source at hand; the records below carry the fields the service reads and writes.
  A fingerprint is a string of 40 hexadecimal characters.
\<close>

type_synonym fpr = string

text \<open>The inline membership of a keychange: \<open>kc.membership.membership\<close> and
  \<open>kc.membership.signature\<close>.\<close>

record inline_ms =
  im_membership :: string
  im_signature :: string

text \<open>A keychange. \<open>kc_type\<close> is the one-letter type (N, U, L, B); an absent \<open>membership\<close>
  is \<open>None\<close>; absent packets are the empty string (falsy in the source).\<close>

record keychange =
  kc_type :: string
  kc_fingerprint :: fpr
  kc_keypackets :: string
  kc_certpackets :: string
  kc_membership :: "inline_ms option"

text \<open>Modelled from the spec: the KeyBlock schema is missing from the source; section 3 of the
  specification gives \<open>number\<close> as a non-negative integer and \<open>membersCount\<close> as a count.\<close>

record keyblock =
  number :: nat
  currency :: string
  previousHash :: string
  previousIssuer :: string
  timestamp :: int
  nonce :: int
  issuer :: fpr
  membersRoot :: string
  membersCount :: nat
  membersChanges :: "string list"
  keysChanges :: "keychange list"
  signature :: string
  hash :: string

text \<open>A row of the Key collection.\<close>

record key_row =
  k_fingerprint :: fpr
  k_member :: bool
  k_kick :: bool
  k_distanced :: "fpr list"

record link =
  l_source :: fpr
  l_target :: fpr
  l_timestamp :: int
  l_obsolete :: bool

record trusted_key =
  tk_fingerprint :: fpr
  tk_keyID :: string
  tk_uid :: string
  tk_packets :: string

record membership =
  ms_issuer :: fpr
  ms_userid :: string
  ms_membership :: string
  ms_date :: int
  ms_hash :: string
  ms_signature :: string
  ms_eligible :: bool
  ms_currency :: string

record pubkey =
  pk_fingerprint :: fpr
  pk_raw :: string
  pk_keychain :: bool

text \<open>The configuration entries the service reads.\<close>

record conf =
  sigQty :: nat
  sigValidity :: int
  powZeroMin :: nat
  powPeriod :: nat
  powPeriodC :: bool
  tsInterval :: int
  conf_currency :: string

text \<open>The persisted state: one list per collection.\<close>

record storage =
  blocks :: "keyblock list"
  keys :: "key_row list"
  links :: "link list"
  trustedKeys :: "trusted_key list"
  memberships :: "membership list"
  pubkeys :: "pubkey list"

section \<open>Errors\<close>

text \<open>
  One constructor per error message of the service. \<open>Exception\<close> is an exception that
  a \<open>try\<close> of the service catches and hands to the callback as an error; so is the error
  of a parser. \<open>TypeError\<close> is a JavaScript exception thrown outside any \<open>try\<close> (reading
  a property of \<open>null\<close> or \<open>undefined\<close>) and \<open>UncaughtException\<close> any other exception
  thrown outside any \<open>try\<close>: the operation stops there and its callback is never called.
  \<open>NoCallback\<close> is a path on which the source calls no callback at all. \<open>NotFound\<close> is
  the error of a \<open>getTheOne\<close> lookup that finds no document. \<open>thrown\<close> tells the errors
  that no callback receives from the others.
\<close>

datatype jsnum = Num int | PosInf | NegInf | NaN

datatype error =
    AlreadyReceivedMembership
  | MemberCannotJoin
  | NonMemberCannotLeave
  | NeedsEligiblePubkey
  | RequiresRootBlockFirst
  | TooLate
  | TooEarly
  | BadPreviousHash
  | BadPreviousIssuer
  | BadTimestamp
  | NotAProofOfWork
  | WrongProofOfWorkLevel nat jsnum
  | NotSignedByRootMembers
  | NotSignedByMember
  | OnlyNewcomerAndUpdate
  | CertpacketsRequired
  | MembershipRequired
  | MembershipMustBeIN
  | KeyMustHaveUdid2
  | MembershipUserIDMismatch
  | ForbiddenPackets
  | BadMembershipSignature string
  | MembershipForbiddenForUpdate
  | EmptyUpdate
  | NotOnlySubkeys
  | NotOnlyCertifications
  | LeaverNotManaged
  | BackNotManaged
  | UnknownKeychangeType string
  | SignatureFromNonMember fpr
  | WrongSignature
  | NewcomerNotRecognized fpr
  | NewcomerCannotRecognize fpr fpr
  | NotEnoughLinks fpr nat nat
  | HasToLoseMemberStatus fpr
  | NoMoreOutdistanced fpr
  | WrongMembersChanges
  | NewBlockReceived
  | NotFound string
  | TypeError
  | Exception
  | UncaughtException
  | NoCallback

fun thrown :: "error \<Rightarrow> bool" where
  "thrown TypeError = True"
| "thrown UncaughtException = True"
| "thrown NoCallback = True"
| "thrown err = False"

text \<open>\<open>async.waterfall\<close>: the next step runs on the result of the previous one, an error
  goes straight to the final callback.\<close>

definition andThen :: "error + 'a \<Rightarrow> ('a \<Rightarrow> error + 'b) \<Rightarrow> error + 'b" where
  "andThen m f = (case m of Inl e \<Rightarrow> Inl e | Inr x \<Rightarrow> f x)"

text \<open>\<open>async.forEachSeries\<close> (and \<open>async.forEach\<close> over read-only steps, whose first
  error is the result): the steps run in order and stop at the first error.\<close>

fun forEachSeries :: "('a \<Rightarrow> error + unit) \<Rightarrow> 'a list \<Rightarrow> error + unit" where
  "forEachSeries f [] = Inr ()"
| "forEachSeries f (x # xs) = (case f x of Inl e \<Rightarrow> Inl e | Inr u \<Rightarrow> forEachSeries f xs)"

section \<open>Numbers of the proof-of-work rule\<close>

text \<open>The number of leading \<open>0\<close> characters: the length of the match of \<open>/^0+/\<close>, and 0
  where that expression does not match.\<close>

definition leadingZeros :: "string \<Rightarrow> nat" where
  "leadingZeros s = length (takeWhile (\<lambda>c. c = CHR ''0'') s)"

text \<open>Decimal rendering of a natural number, as string concatenation with a number does.\<close>

fun decimal :: "nat \<Rightarrow> string" where
  "decimal n =
     (if n < 10 then [''0123456789'' ! n] else decimal (n div 10) @ [''0123456789'' ! (n mod 10)])"

declare decimal.simps [simp del]

fun show_jsnum :: "jsnum \<Rightarrow> string" where
  "show_jsnum (Num i) = (if 0 \<le> i then decimal (nat i) else CHR ''-'' # decimal (nat (- i)))"
| "show_jsnum PosInf = ''Infinity''"
| "show_jsnum NegInf = ''-Infinity''"
| "show_jsnum NaN = ''NaN''"

text \<open>
  \<open>new RegExp('^0{' + n + ',}')\<close> tested on \<open>s\<close>. For a non-negative integer \<open>n\<close> this is a
  quantifier: at least \<open>n\<close> leading zeros. For any other value of \<open>n\<close> the braces are no
  quantifier and the pattern is the literal text after one \<open>0\<close>.
\<close>

definition matchAtLeast :: "jsnum \<Rightarrow> string \<Rightarrow> bool" where
  "matchAtLeast n s =
     (case n of
        Num i \<Rightarrow> if 0 \<le> i then nat i \<le> leadingZeros s
                 else take (length (''0{'' @ show_jsnum n @ '',}'')) s = ''0{'' @ show_jsnum n @ '',}''
      | _ \<Rightarrow> take (length (''0{'' @ show_jsnum n @ '',}'')) s = ''0{'' @ show_jsnum n @ '',}'')"

text \<open>\<open>new RegExp('^0{' + n + '}')\<close> for a natural number \<open>n\<close>: the text starts with
  \<open>n\<close> zeros.\<close>

definition matchZeros :: "nat \<Rightarrow> string \<Rightarrow> bool" where
  "matchZeros n s = (take n s = replicate n (CHR ''0''))"

subsection \<open>Double-precision arithmetic\<close>

text \<open>
  JavaScript numbers are IEEE 754 doubles. Block numbers, timestamps, nonces and counts
  are modelled as integers; every sum, difference, product and quotient of the source is
  rounded to the nearest double, ties to even. A positive double is modelled as a pair
  \<open>(m, e)\<close> of value \<open>m * 2^e\<close> with a significand of 53 bits. The exponent is unbounded
  (no overflow, no subnormal numbers), which is exact for magnitudes below \<open>2^1023\<close>.
  Lengths of strings and arrays are below \<open>2^32\<close> and their sums are exact.
\<close>

fun bit_length :: "nat \<Rightarrow> nat" where
  "bit_length n = (if n = 0 then 0 else Suc (bit_length (n div 2)))"

declare bit_length.simps [simp del]

definition round_half_even :: "nat \<Rightarrow> nat \<Rightarrow> nat" where
  "round_half_even n d =
     (let q = n div d; r = n mod d
      in if 2 * r < d then q else if d < 2 * r then q + 1 else if even q then q else q + 1)"

text \<open>\<open>fl_ratio n d\<close> is the double nearest to the rational \<open>n / d\<close> (for \<open>d > 0\<close>).\<close>

definition fl_ratio :: "nat \<Rightarrow> nat \<Rightarrow> nat \<times> int" where
  "fl_ratio n d =
     (if n = 0 then (0, 0)
      else
        let e0 = int (bit_length n) - int (bit_length d);
            e = (if (if 0 \<le> e0 then d * 2 ^ nat e0 \<le> n else d \<le> n * 2 ^ nat (- e0))
                 then e0 else e0 - 1);
            s = 52 - e
        in if 0 \<le> s then (round_half_even (n * 2 ^ nat s) d, - s)
           else (round_half_even n (d * 2 ^ nat (- s)), - s))"

text \<open>\<open>x / y\<close> and \<open>x * y\<close> on doubles, for a natural divisor and a natural factor.\<close>

definition js_div :: "nat \<Rightarrow> nat \<Rightarrow> nat \<times> int" where
  "js_div x y = fl_ratio x y"

definition js_mul :: "nat \<times> int \<Rightarrow> nat \<Rightarrow> nat \<times> int" where
  "js_mul x c =
     (case x of (m, e) \<Rightarrow>
        if 0 \<le> e then fl_ratio (m * c * 2 ^ nat e) 1 else fl_ratio (m * c) (2 ^ nat (- e)))"

text \<open>\<open>Math.floor\<close> of a non-negative double.\<close>

definition js_floor :: "nat \<times> int \<Rightarrow> nat" where
  "js_floor x = (case x of (m, e) \<Rightarrow> if 0 \<le> e then m * 2 ^ nat e else m div 2 ^ nat (- e))"

text \<open>\<open>Math.ceil\<close> of a non-negative double.\<close>

definition js_ceil :: "nat \<times> int \<Rightarrow> nat" where
  "js_ceil x =
     (case x of (m, e) \<Rightarrow>
        if 0 \<le> e then m * 2 ^ nat e else (m + 2 ^ nat (- e) - 1) div 2 ^ nat (- e))"

text \<open>The double nearest to an integer: the value of a sum, a difference or a product
  whose exact result is that integer. Up to \<open>2^53\<close> in magnitude it is the integer
  itself; \<open>2^53 + 3\<close> becomes \<open>2^53 + 4\<close>.\<close>

definition fl_nat :: "nat \<Rightarrow> nat" where
  "fl_nat n = js_floor (fl_ratio n 1)"

definition fl_int :: "int \<Rightarrow> int" where
  "fl_int i = (if 0 \<le> i then int (fl_nat (nat i)) else - int (fl_nat (nat (- i))))"

text \<open>
  \<open>Math.floor(a / b)\<close> for an integer \<open>a\<close> and a natural number \<open>b\<close>: a division by zero
  gives an infinity or \<open>NaN\<close>, which \<open>Math.floor\<close> returns unchanged; otherwise the
  quotient is rounded to a double before the floor is taken.
\<close>

definition js_floor_div :: "int \<Rightarrow> nat \<Rightarrow> jsnum" where
  "js_floor_div a b =
     (if b = 0 then (if 0 < a then PosInf else if a < 0 then NegInf else NaN)
      else if 0 \<le> a then Num (int (js_floor (fl_ratio (nat a) b)))
      else Num (- int (js_ceil (fl_ratio (nat (- a)) b))))"

text \<open>\<open>x - y\<close> for an integer \<open>x\<close>.\<close>

fun js_sub :: "int \<Rightarrow> jsnum \<Rightarrow> jsnum" where
  "js_sub x (Num y) = Num (fl_int (x - y))"
| "js_sub x PosInf = NegInf"
| "js_sub x NegInf = PosInf"
| "js_sub x NaN = NaN"

text \<open>\<open>Math.max(x, y)\<close> for an integer \<open>x\<close>.\<close>

fun js_max :: "int \<Rightarrow> jsnum \<Rightarrow> jsnum" where
  "js_max x (Num y) = Num (max x y)"
| "js_max x PosInf = PosInf"
| "js_max x NegInf = Num x"
| "js_max x NaN = NaN"

section \<open>Queries of the persistence layer\<close>

text \<open>Modelled from the spec: \<open>KeyBlock.current\<close> is missing from the source; section 6 of the
  specification names it as the query for the current tip, the stored block with the highest
  number (none on an empty store).\<close>

fun current :: "keyblock list \<Rightarrow> keyblock option" where
  "current [] = None"
| "current (b # bs) =
     (case current bs of
        None \<Rightarrow> Some b
      | Some c \<Rightarrow> if number c < number b then Some b else Some c)"

text \<open>Modelled from the spec: \<open>KeyBlock.lastOfIssuer\<close> is missing from the source; it is the
  \<open>lastBlockOf(issuer)\<close> of section 4.4, the highest stored block of that issuer.\<close>

definition lastOfIssuer :: "keyblock list \<Rightarrow> fpr \<Rightarrow> keyblock option" where
  "lastOfIssuer bs i = current (filter (\<lambda>b. issuer b = i) bs)"

text \<open>Modelled from the spec: the Key queries are missing from the source; key rows carry the
  flags of section 3, \<open>isMember\<close> and \<open>getMembers\<close> read the \<open>member\<close> flag and
  \<open>getToBeKicked\<close> gives the members flagged \<open>kick\<close> or with a non-empty
  \<open>distanced\<close> set (section 4.4, step 7).\<close>

definition isMember :: "key_row list \<Rightarrow> fpr \<Rightarrow> bool" where
  "isMember ks f = (\<exists>k \<in> set ks. k_fingerprint k = f \<and> k_member k)"

definition getMembers :: "key_row list \<Rightarrow> key_row list" where
  "getMembers ks = filter k_member ks"

definition getToBeKicked :: "key_row list \<Rightarrow> key_row list" where
  "getToBeKicked ks = filter (\<lambda>k. k_member k \<and> (k_kick k \<or> k_distanced k \<noteq> [])) ks"

text \<open>Modelled from the spec: \<open>Link.currentValidLinks\<close> is missing from the source; it is the
  \<open>linksTo(target)\<close> of section 4.2, the stored links to the target that are not
  obsolete.\<close>

definition currentValidLinks :: "link list \<Rightarrow> fpr \<Rightarrow> link list" where
  "currentValidLinks ls t = filter (\<lambda>l. l_target l = t \<and> \<not> l_obsolete l) ls"

text \<open>
  The new links of a block: the JavaScript object \<open>{target: [sources]}\<close>, as an association
  list in insertion order. \<open>assign\<close> is \<open>obj[k] = v\<close>. While the keychanges are checked a
  target may hold \<open>undefined\<close> (\<open>None\<close>) in place of its array of sources.
\<close>

type_synonym newlinks = "(fpr \<times> fpr list) list"

type_synonym rawlinks = "(fpr \<times> fpr list option) list"

fun assign :: "'k \<Rightarrow> 'v \<Rightarrow> ('k \<times> 'v) list \<Rightarrow> ('k \<times> 'v) list" where
  "assign k v [] = [(k, v)]"
| "assign k v ((k', v') # kvs) = (if k = k' then (k, v) # kvs else (k', v') # assign k v kvs)"

section \<open>Collaborators taken as parameters\<close>

text \<open>A decoded OpenPGP key, with what the service reads from the \<open>keyhelper\<close> wrapper:
  \<open>getUserID()\<close>, \<open>hasValidUdid2()\<close>, \<open>getFingerprint()\<close>, \<open>getArmored()\<close>, the base64
  encoding of \<open>getNewcomerPackets()\<close> and \<open>getEncodedPacketList()\<close>.\<close>

record pgpkey =
  key_fingerprint :: fpr
  key_userid :: string
  key_validUdid2 :: bool
  key_armored :: string
  key_newcomerPackets :: string
  key_encodedPacketList :: string

text \<open>A certification packet: the key id of its issuer (16 hexadecimal characters, upper
  case) and the packet itself.\<close>

record certif =
  issuerKeyId :: string
  cert_packet :: string

text \<open>
  The OpenPGP library, the parsers, the distance queries of the Link model, the
  PublicKeyService and the methods of the KeyBlock document are missing from the source and
  are parameters of the model. A lookup or a parser that can fail returns \<open>None\<close>.
  \<open>isOver3StepsOfAMember\<close> gives the members that do not reach the key within three steps
  of stored links, \<open>isStillOver3Steps\<close> those of the given keys that still do not once the
  new links are added; both read the stored links. The functions of the PublicKeyService
  work on the PublicKey collection. \<open>checkWithLocalTimestamp\<close> is the flag of the service
  and \<open>now\<close> the clock of the node, in seconds, when a block is submitted. \<open>getRaw\<close> is
  the unsigned text of a keyblock and \<open>hashOf\<close> the \<open>hash()\<close> of a string.
\<close>

record env =
  cfg :: conf
  checkWithLocalTimestamp :: bool
  now :: int
  isOver3StepsOfAMember :: "link list \<Rightarrow> fpr \<Rightarrow> fpr list \<Rightarrow> fpr list"
  isStillOver3Steps :: "link list \<Rightarrow> fpr \<Rightarrow> fpr list \<Rightarrow> newlinks \<Rightarrow> fpr list"
  fromEncodedPackets :: "string \<Rightarrow> pgpkey option"
  fromArmored :: "string \<Rightarrow> pgpkey option"
  fromInline :: "string \<Rightarrow> string \<Rightarrow> membership"
  membershipRaw :: "membership \<Rightarrow> string"
  toPacketlist :: "string \<Rightarrow> certif list"
  hasOnlySubkeyMaterial :: "string \<Rightarrow> bool"
  hasOnlyCertificationMaterial :: "string \<Rightarrow> bool"
  unix2dos :: "string \<Rightarrow> string"
  parsePubkey :: "string \<Rightarrow> pubkey option"
  verifySignature :: "string \<Rightarrow> string \<Rightarrow> string \<Rightarrow> bool"
  verifyCertification :: "certif \<Rightarrow> pubkey \<Rightarrow> pubkey \<Rightarrow> bool"
  getNewPubkeys :: "keyblock \<Rightarrow> pgpkey list"
  getKeyUpdates :: "keyblock \<Rightarrow> (fpr \<times> string \<times> string) list"
  packetsOf :: "string \<Rightarrow> string list"
  encodePackets :: "string option list \<Rightarrow> string"
  submitPubkey :: "pubkey list \<Rightarrow> pubkey \<Rightarrow> error + pubkey list"
  updateAvailableKeyMaterial :: "pubkey list \<Rightarrow> fpr \<Rightarrow> error + pubkey list"
  getRaw :: "keyblock \<Rightarrow> string"
  hashOf :: "string \<Rightarrow> string"

section \<open>Proof of work\<close>

text \<open>Line 549: the number of blocks of one period.\<close>

definition nbPeriodsToWait :: "conf \<Rightarrow> nat \<Rightarrow> nat" where
  "nbPeriodsToWait c currentWoTsize =
     (if powPeriodC c then powPeriod c
      else js_floor (js_mul (js_div (powPeriod c) 100) currentWoTsize))"

text \<open>\<open>getTrialLevel\<close>. \<open>last.hash.match(/^0+/)[0]\<close> throws where the hash of the last
  block has no leading zero, the match being \<open>null\<close>.\<close>

definition getTrialLevel :: "conf \<Rightarrow> storage \<Rightarrow> fpr \<Rightarrow> nat \<Rightarrow> nat \<Rightarrow> error + jsnum" where
  "getTrialLevel c st iss nextBlockNumber currentWoTsize =
     (case lastOfIssuer (blocks st) iss of
        None \<Rightarrow>
          Inr (js_max (int (powZeroMin c)) (js_sub (fl_int (int (powZeroMin c) + 0)) (Num 0)))
      | Some lastBlock \<Rightarrow>
          if leadingZeros (hash lastBlock) = 0 then Inl TypeError
          else
            let lastBlockPenality =
                  fl_int (fl_int (int (leadingZeros (hash lastBlock)) - int (powZeroMin c)) + 1);
                nbWaitedPeriods =
                  js_floor_div (fl_int (int nextBlockNumber - int (number lastBlock)))
                    (nbPeriodsToWait c currentWoTsize)
            in Inr (js_max (int (powZeroMin c))
                     (js_sub (fl_int (int (powZeroMin c) + lastBlockPenality)) nbWaitedPeriods)))"

text \<open>\<open>checkProofOfWork\<close>. The error message of the second test reads
  \<open>block.hash.match(/^0+/)[0]\<close>, which throws where the hash has no leading zero.\<close>

definition checkProofOfWork :: "conf \<Rightarrow> storage \<Rightarrow> keyblock option \<Rightarrow> keyblock \<Rightarrow> error + unit" where
  "checkProofOfWork c st cur block =
     (if \<not> matchZeros (powZeroMin c) (hash block) then Inl NotAProofOfWork
      else
        andThen
          (getTrialLevel c st (issuer block) (number block)
             (case cur of None \<Rightarrow> 0 | Some t \<Rightarrow> membersCount t))
          (\<lambda>nbZeros.
             if \<not> matchAtLeast nbZeros (hash block)
             then (if leadingZeros (hash block) = 0 then Inl TypeError
                   else Inl (WrongProofOfWorkLevel (leadingZeros (hash block)) nbZeros))
             else Inr ()))"

text \<open>
  The proof-of-work rule in the words of the specification (section 4.4, step 3), with exact
  integer arithmetic and the floor of the integer quotient.
\<close>

definition spec_period :: "conf \<Rightarrow> nat \<Rightarrow> int" where
  "spec_period c currentMembersCount =
     (if powPeriodC c then int (powPeriod c)
      else (int (powPeriod c) * int currentMembersCount) div 100)"

definition spec_requiredZeros :: "conf \<Rightarrow> storage \<Rightarrow> keyblock option \<Rightarrow> keyblock \<Rightarrow> int" where
  "spec_requiredZeros c st cur block =
     (case lastOfIssuer (blocks st) (issuer block) of
        None \<Rightarrow> max (int (powZeroMin c)) (int (powZeroMin c) + 0 - 0)
      | Some lastBlock \<Rightarrow>
          let lastIssuerPenalty = int (leadingZeros (hash lastBlock)) - int (powZeroMin c) + 1;
              periodsWaited =
                (int (number block) - int (number lastBlock))
                  div spec_period c (case cur of None \<Rightarrow> 0 | Some t \<Rightarrow> membersCount t)
          in max (int (powZeroMin c)) (int (powZeroMin c) + lastIssuerPenalty - periodsWaited))"

section \<open>Validation of a keyblock\<close>

text \<open>\<open>checkIssuer\<close>: the issuer is a member, or the block is the root block and adds its
  issuer.\<close>

definition checkIssuer :: "storage \<Rightarrow> keyblock \<Rightarrow> error + unit" where
  "checkIssuer st block =
     (if isMember (keys st) (issuer block) then Inr ()
      else if number block = 0 then
        (if (CHR ''+'' # issuer block) \<in> set (membersChanges block) then Inr ()
         else Inl NotSignedByRootMembers)
      else Inl NotSignedByMember)"

text \<open>\<open>checkHaveEnoughLinks\<close>: the stored valid links to the target plus the new links to
  it, against \<open>conf.sigQty\<close>.\<close>

definition linkCount :: "storage \<Rightarrow> fpr \<Rightarrow> newlinks \<Rightarrow> nat" where
  "linkCount st target newLinks =
     length (currentValidLinks (links st) target)
       + (case map_of newLinks target of None \<Rightarrow> 0 | Some sources \<Rightarrow> length sources)"

definition checkHaveEnoughLinks :: "env \<Rightarrow> storage \<Rightarrow> fpr \<Rightarrow> newlinks \<Rightarrow> error + unit" where
  "checkHaveEnoughLinks e st target newLinks =
     (let count = linkCount st target newLinks
      in if count < sigQty (cfg e) then Inl (NotEnoughLinks target count (sigQty (cfg e)))
         else Inr ())"

text \<open>The fingerprints of the changes that start with \<open>+\<close>.\<close>

definition newcomersOf :: "string list \<Rightarrow> fpr list" where
  "newcomersOf changes = map tl (filter (\<lambda>change. take 1 change = ''+'') changes)"

text \<open>\<open>checkWoTStability\<close>. The source has no branch for a negative number: no callback
  is called there.\<close>

definition checkNewcomer :: "env \<Rightarrow> storage \<Rightarrow> keyblock \<Rightarrow> newlinks \<Rightarrow> fpr list \<Rightarrow> fpr \<Rightarrow> error + unit" where
  "checkNewcomer e st block newLinks members newcomer =
     andThen (if 0 < number block then checkHaveEnoughLinks e st newcomer newLinks else Inr ())
       (\<lambda>_. andThen
          (let firstCheck = isOver3StepsOfAMember e (links st) newcomer members
           in if firstCheck \<noteq> [] then
                (let secondCheck = isStillOver3Steps e (links st) newcomer firstCheck newLinks
                 in if secondCheck \<noteq> [] then Inl (NewcomerNotRecognized newcomer) else Inr ())
              else Inr ())
          (\<lambda>_. forEachSeries
             (\<lambda>member.
                if isStillOver3Steps e (links st) member [newcomer] newLinks \<noteq> []
                then Inl (NewcomerCannotRecognize newcomer member) else Inr ())
             members))"

definition checkWoTStability :: "env \<Rightarrow> storage \<Rightarrow> keyblock \<Rightarrow> newlinks \<Rightarrow> error + unit" where
  "checkWoTStability e st block newLinks =
     (if 0 \<le> number block then
        (let newcomers = newcomersOf (membersChanges block);
             members = map k_fingerprint (getMembers (keys st)) @ newcomers
         in forEachSeries (checkNewcomer e st block newLinks members) newcomers)
      else Inl NoCallback)"

text \<open>
  \<open>checkKicked\<close>. The second step of the inner waterfall (lines 583 to 602) reads
  \<open>res.outdistanced\<close> and \<open>res.enoughLinks\<close>; a property that \<open>res\<close> does not have is
  \<open>undefined\<close>, here \<open>None\<close>, and \<open>outdistanced.length\<close> then throws.
\<close>

definition checkKickedDecision ::
  "string list \<Rightarrow> key_row \<Rightarrow> fpr list option \<Rightarrow> error option \<Rightarrow> error + unit" where
  "checkKickedDecision changes key outdistanced enoughLinksErr =
     (case outdistanced of
        None \<Rightarrow> Inl TypeError
      | Some distances \<Rightarrow>
          let isStill = (distances \<noteq> []);
              isBeingKicked = ((CHR ''-'' # k_fingerprint key) \<in> set changes)
          in if isStill \<and> \<not> isBeingKicked then Inl (HasToLoseMemberStatus (k_fingerprint key))
             else if \<not> isStill \<and> isBeingKicked then Inl (NoMoreOutdistanced (k_fingerprint key))
             else (case enoughLinksErr of
                     Some err \<Rightarrow> if \<not> isBeingKicked then Inl err else Inr ()
                   | None \<Rightarrow> Inr ()))"

text \<open>
  The first step (lines 567 to 582) hands \<open>Link.isStillOver3Steps\<close> the callback \<open>next\<close>
  of the waterfall, not the \<open>callback\<close> of the parallel task: the second step runs with
  \<open>res\<close> the array of distanced keys, which has neither an \<open>outdistanced\<close> nor an
  \<open>enoughLinks\<close> property, and the result of \<open>checkHaveEnoughLinks\<close> is dropped.
\<close>

definition checkKickedKey :: "env \<Rightarrow> storage \<Rightarrow> keyblock \<Rightarrow> newlinks \<Rightarrow> key_row \<Rightarrow> error + unit" where
  "checkKickedKey e st block newLinks key =
     (let remainingKeys = k_distanced key;
          res = isStillOver3Steps e (links st) (k_fingerprint key) remainingKeys newLinks;
          dropped = checkHaveEnoughLinks e st (k_fingerprint key) newLinks
      in checkKickedDecision (membersChanges block) key None None)"

definition checkKicked :: "env \<Rightarrow> storage \<Rightarrow> keyblock \<Rightarrow> newlinks \<Rightarrow> error + unit" where
  "checkKicked e st block newLinks =
     forEachSeries (checkKickedKey e st block newLinks) (getToBeKicked (keys st))"

text \<open>
  The rule for the members to be kicked in the words of the specification (section 4.4,
  step 7): a member to be kicked still fails when, with the new links, it is still
  out-distanced or has fewer than \<open>sigQty\<close> links; the block passes when the members that
  still fail are exactly those with their \<open>-\<close> entry in \<open>membersChanges\<close>.
\<close>

definition spec_stillFailing :: "env \<Rightarrow> storage \<Rightarrow> newlinks \<Rightarrow> key_row \<Rightarrow> bool" where
  "spec_stillFailing e st newLinks m =
     (linkCount st (k_fingerprint m) newLinks < sigQty (cfg e)
      \<or> isStillOver3Steps e (links st) (k_fingerprint m) (k_distanced m) newLinks \<noteq> [])"

definition spec_checkKicked :: "env \<Rightarrow> storage \<Rightarrow> keyblock \<Rightarrow> newlinks \<Rightarrow> bool" where
  "spec_checkKicked e st block newLinks =
     list_all
       (\<lambda>m. spec_stillFailing e st newLinks m
              = ((CHR ''-'' # k_fingerprint m) \<in> set (membersChanges block)))
       (getToBeKicked (keys st))"

text \<open>Modelled from the spec: \<open>KeyBlock.getMemberships\<close> is missing from the source; by
  section 4.4, step 8, the memberships of a block are the declarations embedded in its
  keychanges, each read with \<open>Membership.fromInline\<close> and paired with the fingerprint of
  its keychange.\<close>

definition getMemberships :: "env \<Rightarrow> keyblock \<Rightarrow> (string \<times> fpr) list" where
  "getMemberships e block =
     concat (map (\<lambda>kc. case kc_membership kc of
                          None \<Rightarrow> []
                        | Some m \<Rightarrow>
                            [(ms_membership (fromInline e (im_membership m) (im_signature m)),
                              kc_fingerprint kc)])
                 (keysChanges block))"

text \<open>\<open>checkCommunityChanges\<close>: every membership of the block has its entry in
  \<open>membersChanges\<close>.\<close>

definition changeOf :: "string \<times> fpr \<Rightarrow> string" where
  "changeOf ms = (if fst ms = ''IN'' then ''+'' else ''-'') @ snd ms"

definition checkCommunityChanges :: "env \<Rightarrow> keyblock \<Rightarrow> error + unit" where
  "checkCommunityChanges e block =
     (if \<exists>ms \<in> set (getMemberships e block). changeOf ms \<notin> set (membersChanges block)
      then Inl WrongMembersChanges else Inr ())"

section \<open>Validation of the keychanges\<close>

text \<open>Modelled from the spec: \<open>PublicKey.getTheOne\<close> and \<open>TrustedKey.getTheOne\<close> are missing
  from the source; by section 6 they give the one document of a fingerprint (for a trusted
  key: of a fingerprint or a key id) and fail where there is none.\<close>

definition getTheOnePubkey :: "pubkey list \<Rightarrow> fpr \<Rightarrow> error + pubkey" where
  "getTheOnePubkey pks f =
     (case find (\<lambda>p. pk_fingerprint p = f) pks of None \<Rightarrow> Inl (NotFound f) | Some p \<Rightarrow> Inr p)"

definition getTheOneTrusted :: "trusted_key list \<Rightarrow> string \<Rightarrow> error + trusted_key" where
  "getTheOneTrusted tks k =
     (case find (\<lambda>t. tk_fingerprint t = k \<or> tk_keyID t = k) tks of
        None \<Rightarrow> Inl (NotFound k) | Some t \<Rightarrow> Inr t)"

text \<open>\<open>fpr.match(new RegExp(keyID + '$'))\<close> for a hexadecimal key id.\<close>

definition endsWith :: "string \<Rightarrow> string \<Rightarrow> bool" where
  "endsWith s suf = (length suf \<le> length s \<and> drop (length s - length suf) s = suf)"

text \<open>The local newcomer whose fingerprint ends with the key id: the last one, each match of
  the loop overwriting \<open>found\<close>.\<close>

definition findNewKey :: "(fpr \<times> pgpkey) list \<Rightarrow> string \<Rightarrow> fpr option" where
  "findNewKey newKeys keyID =
     (case filter (\<lambda>f. endsWith f keyID) (map fst newKeys) of [] \<Rightarrow> None | fs \<Rightarrow> Some (last fs))"

text \<open>\<open>checkCertificationOfKey\<close>: the certifier is a newcomer of the block or a trusted key
  of a member, and the certification verifies. The result is the fingerprint of the
  certifier.\<close>

definition checkCertificationOfKey ::
  "env \<Rightarrow> storage \<Rightarrow> certif \<Rightarrow> fpr \<Rightarrow> (fpr \<times> pgpkey) list \<Rightarrow> error + fpr" where
  "checkCertificationOfKey e st cert certifiedFPR newKeys =
     (let keyID = issuerKeyId cert; found = findNewKey newKeys keyID
      in andThen
           (case map_of newKeys certifiedFPR of
              Some key \<Rightarrow>
                (case parsePubkey e (unix2dos e (key_armored key)) of
                   None \<Rightarrow> Inl Exception | Some obj \<Rightarrow> Inr obj)
            | None \<Rightarrow> getTheOnePubkey (pubkeys st) certifiedFPR)
           (\<lambda>pubkeyCertified. andThen
              (case found of
                 Some f \<Rightarrow> Inr f
               | None \<Rightarrow> andThen (getTheOneTrusted (trustedKeys st) keyID)
                           (\<lambda>t. Inr (tk_fingerprint t)))
              (\<lambda>certifierFPR. andThen (getTheOnePubkey (pubkeys st) certifierFPR)
                 (\<lambda>pubkeyCertifier.
                    if found = None \<and> \<not> isMember (keys st) certifierFPR
                    then Inl (SignatureFromNonMember certifierFPR)
                    else if verifyCertification e cert pubkeyCertifier pubkeyCertified
                    then Inr (pk_fingerprint pubkeyCertifier)
                    else Inl WrongSignature))))"

text \<open>The certifiers of a list of certifications, pushed to \<open>kc.certifiers\<close>.\<close>

fun certifiersOf :: "(certif \<Rightarrow> error + fpr) \<Rightarrow> certif list \<Rightarrow> error + fpr list" where
  "certifiersOf f [] = Inr []"
| "certifiersOf f (c # cs) =
     (case f c of
        Inl err \<Rightarrow> Inl err
      | Inr certifier \<Rightarrow>
          (case certifiersOf f cs of Inl err \<Rightarrow> Inl err | Inr rest \<Rightarrow> Inr (certifier # rest)))"

text \<open>\<open>s.replace(/\n$/, '')\<close>.\<close>

definition stripNewline :: "string \<Rightarrow> string" where
  "stripNewline s = (if s \<noteq> [] \<and> last s = CHR 0x0A then butlast s else s)"

text \<open>
  \<open>checkKeychange\<close>. An exception of the synchronous part is caught and given to the
  callback: decoding the key packets, and reading \<open>kc.membership.membership\<close> of an absent
  membership, which is read before the test of line 303. The two parallel checks of a
  newcomer are taken in the order certifications, membership. The result is
  \<open>kc.certifiers\<close> after the check. For a newcomer it is set to the empty array before
  the certifications are read (line 332). For an update it is set inside the loop over the
  certifications (line 396), once per certification and before any certifier is pushed, the
  steps of a waterfall being deferred: with no certification it stays \<open>undefined\<close>.
\<close>

definition checkKeychange ::
  "env \<Rightarrow> storage \<Rightarrow> keyblock \<Rightarrow> keychange \<Rightarrow> (fpr \<times> pgpkey) list \<Rightarrow> error + fpr list option" where
  "checkKeychange e st block kc newKeys =
     (if kc_type kc = ''N'' then
        (case fromEncodedPackets e (kc_keypackets kc) of
           None \<Rightarrow> Inl Exception
         | Some key \<Rightarrow>
            (case kc_membership kc of
               None \<Rightarrow> Inl Exception
             | Some m \<Rightarrow>
                 let ms = fromInline e (im_membership m) (im_signature m)
                 in if kc_certpackets kc = [] then Inl CertpacketsRequired
                    else if ms_membership ms \<noteq> ''IN'' then Inl MembershipMustBeIN
                    else if \<not> key_validUdid2 key then Inl KeyMustHaveUdid2
                    else if ms_userid ms \<noteq> key_userid key then Inl MembershipUserIDMismatch
                    else if unix2dos e (stripNewline (key_newcomerPackets key))
                              \<noteq> unix2dos e (stripNewline (kc_keypackets kc))
                    then Inl ForbiddenPackets
                    else andThen
                      (certifiersOf
                         (\<lambda>cert. checkCertificationOfKey e st cert (kc_fingerprint kc) newKeys)
                         (toPacketlist e (kc_certpackets kc)))
                      (\<lambda>certifiers.
                         let entity = ms\<lparr>ms_currency := conf_currency (cfg e),
                                         ms_userid := key_userid key\<rparr>
                         in if verifySignature e (key_armored key) (membershipRaw e entity)
                                 (ms_signature ms)
                            then Inr (Some certifiers)
                            else Inl (BadMembershipSignature (ms_userid entity)))))
      else if kc_type kc = ''U'' then
        (if kc_membership kc \<noteq> None then Inl MembershipForbiddenForUpdate
         else if kc_keypackets kc = [] \<and> kc_certpackets kc = [] then Inl EmptyUpdate
         else if kc_keypackets kc \<noteq> [] \<and> \<not> hasOnlySubkeyMaterial e (kc_keypackets kc)
         then Inl NotOnlySubkeys
         else if kc_certpackets kc \<noteq> [] \<and> \<not> hasOnlyCertificationMaterial e (kc_certpackets kc)
         then Inl NotOnlyCertifications
         else if toPacketlist e (kc_certpackets kc) = [] then Inr None
         else andThen
                (certifiersOf
                   (\<lambda>cert. checkCertificationOfKey e st cert (kc_fingerprint kc) newKeys)
                   (toPacketlist e (kc_certpackets kc)))
                (\<lambda>certifiers. Inr (Some certifiers)))
      else if kc_type kc = ''L'' then Inl LeaverNotManaged
      else if kc_type kc = ''B'' then Inl BackNotManaged
      else Inl (UnknownKeychangeType (kc_type kc)))"

text \<open>\<open>checkKeychanges\<close>, first step: the keys of the newcomers. Decoding is outside any
  \<open>try\<close> here: a key that does not decode stops the operation.\<close>

fun memorizeNewKeys :: "env \<Rightarrow> keychange list \<Rightarrow> (fpr \<times> pgpkey) list \<Rightarrow> error + (fpr \<times> pgpkey) list" where
  "memorizeNewKeys e [] newKeys = Inr newKeys"
| "memorizeNewKeys e (kc # kcs) newKeys =
     (if kc_type kc = ''N'' then
        (case fromEncodedPackets e (kc_keypackets kc) of
           None \<Rightarrow> Inl UncaughtException
         | Some key \<Rightarrow> memorizeNewKeys e kcs (assign (kc_fingerprint kc) key newKeys))
      else memorizeNewKeys e kcs newKeys)"

text \<open>Second step, for one of the two types: the keychanges of another type are skipped, a
  type other than N and U stops the check.\<close>

fun checkKeychangesOfType ::
  "env \<Rightarrow> storage \<Rightarrow> keyblock \<Rightarrow> (fpr \<times> pgpkey) list \<Rightarrow> string \<Rightarrow> keychange list \<Rightarrow> rawlinks
     \<Rightarrow> error + rawlinks" where
  "checkKeychangesOfType e st block newKeys currentType [] newLinks = Inr newLinks"
| "checkKeychangesOfType e st block newKeys currentType (kc # kcs) newLinks =
     (if kc_type kc \<noteq> ''U'' \<and> kc_type kc \<noteq> ''N'' then Inl OnlyNewcomerAndUpdate
      else if kc_type kc \<noteq> currentType
      then checkKeychangesOfType e st block newKeys currentType kcs newLinks
      else (case checkKeychange e st block kc newKeys of
              Inl err \<Rightarrow> Inl err
            | Inr certifiers \<Rightarrow>
                checkKeychangesOfType e st block newKeys currentType kcs
                  (assign (kc_fingerprint kc) certifiers newLinks)))"

definition checkKeychanges :: "env \<Rightarrow> storage \<Rightarrow> keyblock \<Rightarrow> error + rawlinks" where
  "checkKeychanges e st block =
     andThen (memorizeNewKeys e (keysChanges block) [])
       (\<lambda>newKeys. andThen
          (checkKeychangesOfType e st block newKeys ''N'' (keysChanges block) [])
          (\<lambda>newLinks. checkKeychangesOfType e st block newKeys ''U'' (keysChanges block) newLinks))"

text \<open>Lines 223 to 227: the new links are logged, target by target. \<open>forEach\<close> of a
  target that holds \<open>undefined\<close> throws; otherwise every target has its array of
  sources.\<close>

fun logLinks :: "rawlinks \<Rightarrow> error + newlinks" where
  "logLinks [] = Inr []"
| "logLinks ((target, None) # rest) = Inl TypeError"
| "logLinks ((target, Some sources) # rest) =
     (case logLinks rest of Inl err \<Rightarrow> Inl err | Inr ls \<Rightarrow> Inr ((target, sources) # ls))"

text \<open>\<open>checkCoherence\<close>: the keychanges, the stability of the web of trust, the kicked
  members and the changes of members, in this order.\<close>

definition checkCoherence :: "env \<Rightarrow> storage \<Rightarrow> keyblock \<Rightarrow> error + newlinks" where
  "checkCoherence e st block =
     andThen (checkKeychanges e st block)
       (\<lambda>theNewLinks. andThen (logLinks theNewLinks)
          (\<lambda>newLinks. andThen (checkWoTStability e st block newLinks)
             (\<lambda>_. andThen (checkKicked e st block newLinks)
                (\<lambda>_. andThen (checkCommunityChanges e block)
                   (\<lambda>_. Inr newLinks)))))"

section \<open>Applying a keyblock\<close>

text \<open>A step that writes: the result and the state after it. A step after an error does not
  run.\<close>

definition thenS ::
  "(error + 'a) \<times> storage \<Rightarrow> ('a \<Rightarrow> storage \<Rightarrow> (error + 'b) \<times> storage) \<Rightarrow> (error + 'b) \<times> storage" where
  "thenS m f = (case m of (Inl err, st) \<Rightarrow> (Inl err, st) | (Inr x, st) \<Rightarrow> f x st)"

fun forEachS :: "('a \<Rightarrow> storage \<Rightarrow> (error + unit) \<times> storage) \<Rightarrow> 'a list \<Rightarrow> storage
    \<Rightarrow> (error + unit) \<times> storage" where
  "forEachS f [] st = (Inr (), st)"
| "forEachS f (x # xs) st =
     (case f x st of (Inl err, st') \<Rightarrow> (Inl err, st') | (Inr u, st') \<Rightarrow> forEachS f xs st')"

text \<open>Modelled from the spec: the writes of the Key model are missing from the source; by
  section 4.5, step 2, a \<open>+\<close> change sets \<open>member\<close> and clears \<open>kick\<close> and \<open>distanced\<close>, a
  \<open>-\<close> change clears \<open>member\<close> and \<open>kick\<close>; by section 4.6 \<open>setKicked\<close> stores the
  distanced keys and sets \<open>kick\<close> where there are some or where links are missing. A key
  without a row gets one.\<close>

definition updateKey :: "fpr \<Rightarrow> (key_row \<Rightarrow> key_row) \<Rightarrow> key_row list \<Rightarrow> key_row list" where
  "updateKey f upd ks =
     (if \<exists>k \<in> set ks. k_fingerprint k = f
      then map (\<lambda>k. if k_fingerprint k = f then upd k else k) ks
      else ks @ [upd \<lparr>k_fingerprint = f, k_member = False, k_kick = False, k_distanced = []\<rparr>])"

definition addMember :: "fpr \<Rightarrow> key_row list \<Rightarrow> key_row list" where
  "addMember f = updateKey f (\<lambda>k. k\<lparr>k_member := True, k_distanced := []\<rparr>)"

definition removeMember :: "fpr \<Rightarrow> key_row list \<Rightarrow> key_row list" where
  "removeMember f = updateKey f (\<lambda>k. k\<lparr>k_member := False\<rparr>)"

definition unsetKicked :: "fpr \<Rightarrow> key_row list \<Rightarrow> key_row list" where
  "unsetKicked f = updateKey f (\<lambda>k. k\<lparr>k_kick := False\<rparr>)"

definition setKicked :: "fpr \<Rightarrow> fpr list \<Rightarrow> bool \<Rightarrow> key_row list \<Rightarrow> key_row list" where
  "setKicked f distancedKeys notEnoughLinks =
     updateKey f (\<lambda>k. k\<lparr>k_distanced := distancedKeys,
                        k_kick := (distancedKeys \<noteq> [] \<or> notEnoughLinks)\<rparr>)"

text \<open>\<open>updateMembers\<close>.\<close>

definition updateMembers :: "keyblock \<Rightarrow> storage \<Rightarrow> (error + unit) \<times> storage" where
  "updateMembers block st =
     forEachS
       (\<lambda>mc st'.
          let isPlus = (take 1 mc = ''+''); f = drop 1 mc
          in (Inr (),
              st'\<lparr>keys := unsetKicked f ((if isPlus then addMember f else removeMember f) (keys st'))\<rparr>))
       (membersChanges block) st"

text \<open>Lines 656 to 689: a trusted key and a public key for each newcomer.\<close>

definition saveNewPubkeys :: "env \<Rightarrow> keyblock \<Rightarrow> storage \<Rightarrow> (error + unit) \<times> storage" where
  "saveNewPubkeys e block st =
     forEachS
       (\<lambda>key st'.
          let f = key_fingerprint key;
              trusted = \<lparr>tk_fingerprint = f, tk_keyID = drop 24 f, tk_uid = key_userid key,
                         tk_packets = key_encodedPacketList key\<rparr>;
              st'' = st'\<lparr>trustedKeys := trustedKeys st' @ [trusted]\<rparr>
          in case parsePubkey e (unix2dos e (key_armored key)) of
               None \<Rightarrow> (Inl Exception, st'')
             | Some obj \<Rightarrow>
                 (case submitPubkey e (pubkeys st'') obj of
                    Inl err \<Rightarrow> (Inl err, st'')
                  | Inr pks \<Rightarrow> (Inr (), st''\<lparr>pubkeys := pks\<rparr>)))
       (getNewPubkeys e block) st"

text \<open>Lines 690 to 723: the new certifications go behind the first three packets of the
  trusted key, the new subkeys at the end. \<open>oldList[i]\<close> beyond the list is
  \<open>undefined\<close>.\<close>

definition mergedPackets :: "env \<Rightarrow> string \<Rightarrow> string \<Rightarrow> string \<Rightarrow> string option list" where
  "mergedPackets e packets certifs subkeys =
     (let oldList = packetsOf e packets;
          newList =
            (if certifs \<noteq> [] then
               map (\<lambda>i. if i < length oldList then Some (oldList ! i) else None) [0, 1, 2]
                 @ map Some (packetsOf e certifs) @ map Some (drop 3 oldList)
             else map Some oldList)
      in if subkeys \<noteq> [] then newList @ map Some (packetsOf e subkeys) else newList)"

definition saveKeyUpdates :: "env \<Rightarrow> keyblock \<Rightarrow> storage \<Rightarrow> (error + unit) \<times> storage" where
  "saveKeyUpdates e block st =
     forEachS
       (\<lambda>u st'.
          case u of (f, certifs, subkeys) \<Rightarrow>
            (case getTheOneTrusted (trustedKeys st') f of
               Inl err \<Rightarrow> (Inl err, st')
             | Inr trusted \<Rightarrow>
                 (Inr (),
                  st'\<lparr>trustedKeys :=
                        map (\<lambda>t. if tk_fingerprint t = tk_fingerprint trusted
                                  then t\<lparr>tk_packets :=
                                          encodePackets e (mergedPackets e (tk_packets trusted) certifs subkeys)\<rparr>
                                  else t)
                            (trustedKeys st')\<rparr>)))
       (getKeyUpdates e block) st"

text \<open>Lines 724 to 738: one link for each new certification, dated by the block.\<close>

definition saveLinks :: "keyblock \<Rightarrow> newlinks \<Rightarrow> storage \<Rightarrow> storage" where
  "saveLinks block newLinks st =
     st\<lparr>links := links st @
          concat (map (\<lambda>(target, sources).
                         map (\<lambda>source. \<lparr>l_source = source, l_target = target,
                                         l_timestamp = timestamp block, l_obsolete = False\<rparr>)
                             sources)
                      newLinks)\<rparr>"

text \<open>Lines 739 to 745, with \<open>Membership.removeFor\<close> modelled from the spec (section 6): the
  pending memberships of the fingerprint leave the pool.\<close>

definition removeMemberships :: "env \<Rightarrow> keyblock \<Rightarrow> storage \<Rightarrow> storage" where
  "removeMemberships e block st =
     st\<lparr>memberships :=
          filter (\<lambda>m. ms_issuer m \<notin> snd ` set (getMemberships e block)) (memberships st)\<rparr>"

text \<open>\<open>computeObsoleteLinks\<close>, with \<open>Link.obsoletes\<close> modelled from the spec (section 4.6):
  the links older than the validity are marked obsolete; then every member gets its
  distanced keys and its \<open>kick\<close> flag.\<close>

definition obsoletes :: "int \<Rightarrow> link list \<Rightarrow> link list" where
  "obsoletes cutoff ls = map (\<lambda>l. if l_timestamp l < cutoff then l\<lparr>l_obsolete := True\<rparr> else l) ls"

definition computeObsoleteLinks :: "env \<Rightarrow> keyblock \<Rightarrow> storage \<Rightarrow> (error + unit) \<times> storage" where
  "computeObsoleteLinks e block st =
     (let st1 = st\<lparr>links := obsoletes (fl_int (timestamp block - sigValidity (cfg e))) (links st)\<rparr>;
          members = getMembers (keys st1)
      in forEachS
           (\<lambda>key st'.
              let distancedKeys =
                    isOver3StepsOfAMember e (links st') (k_fingerprint key) (map k_fingerprint members);
                  notEnoughLinks = checkHaveEnoughLinks e st' (k_fingerprint key) []
              in (Inr (),
                  st'\<lparr>keys := setKicked (k_fingerprint key) distancedKeys
                                 (case notEnoughLinks of Inl err \<Rightarrow> True | Inr u \<Rightarrow> False)
                                 (keys st')\<rparr>))
           members st1)"

text \<open>\<open>updateAvailableKeyMaterial\<close>.\<close>

definition updateAvailableKeyMaterials :: "env \<Rightarrow> keyblock \<Rightarrow> storage \<Rightarrow> (error + unit) \<times> storage" where
  "updateAvailableKeyMaterials e block st =
     forEachS
       (\<lambda>kc st'.
          if kc_type kc \<noteq> ''L'' then
            (case updateAvailableKeyMaterial e (pubkeys st') (kc_fingerprint kc) of
               Inl err \<Rightarrow> (Inl err, st')
             | Inr pks \<Rightarrow> (Inr (), st'\<lparr>pubkeys := pks\<rparr>))
          else (Inr (), st'))
       (keysChanges block) st"

text \<open>\<open>saveBlockData\<close>: the block is stored first, then the derived state is updated.\<close>

definition saveBlockData :: "env \<Rightarrow> keyblock \<Rightarrow> newlinks \<Rightarrow> storage \<Rightarrow> (error + keyblock) \<times> storage" where
  "saveBlockData e block newLinks st =
     thenS (Inr (), st\<lparr>blocks := blocks st @ [block]\<rparr>)
       (\<lambda>_ st1. thenS (updateMembers block st1)
          (\<lambda>_ st2. thenS (saveNewPubkeys e block st2)
             (\<lambda>_ st3. thenS (saveKeyUpdates e block st3)
                (\<lambda>_ st4. thenS (Inr (), removeMemberships e block (saveLinks block newLinks st4))
                   (\<lambda>_ st5. thenS (computeObsoleteLinks e block st5)
                      (\<lambda>_ st6. thenS (updateAvailableKeyMaterials e block st6)
                         (\<lambda>_ st7. (Inr block, st7))))))))"

section \<open>Submission of a keyblock\<close>

text \<open>
  \<open>submitKeyBlock\<close>. The block comes with its issuer set to the fingerprint of the signing
  key (line 116). The result is what the final callback gets, with the state after the
  call. Between the checks and \<open>saveBlockData\<close> the source may wait for the proof-of-work
  loop to stop (lines 163 to 173); the wait changes nothing of the persisted state and is
  not modelled. The chaining test adds 1 to the number of the tip (lines 135, 139 and
  143), a sum of doubles.
\<close>

definition checkChaining :: "keyblock option \<Rightarrow> keyblock \<Rightarrow> error + unit" where
  "checkChaining cur block =
     (case cur of
        None \<Rightarrow> if 0 < number block then Inl RequiresRootBlockFirst else Inr ()
      | Some t \<Rightarrow>
          if number block \<le> number t then Inl TooLate
          else if fl_nat (number t + 1) < number block then Inl TooEarly
          else if number block = fl_nat (number t + 1) \<and> previousHash block \<noteq> hash t
          then Inl BadPreviousHash
          else if number block = fl_nat (number t + 1) \<and> previousIssuer block \<noteq> issuer t
          then Inl BadPreviousIssuer
          else Inr ())"

text \<open>What the chaining test asks of a block (section 4.4, step 1), and the errors of the
  test.\<close>

definition linked :: "keyblock option \<Rightarrow> keyblock \<Rightarrow> bool" where
  "linked cur block =
     (case cur of
        None \<Rightarrow> number block = 0
      | Some t \<Rightarrow> number block = number t + 1 \<and> previousHash block = hash t
                  \<and> previousIssuer block = issuer t)"

definition chainingErrors :: "error set" where
  "chainingErrors = {RequiresRootBlockFirst, TooLate, TooEarly, BadPreviousHash, BadPreviousIssuer}"

definition checkTimestamp :: "env \<Rightarrow> keyblock \<Rightarrow> error + unit" where
  "checkTimestamp e block =
     (if checkWithLocalTimestamp e \<and> tsInterval (cfg e) < \<bar>fl_int (timestamp block - now e)\<bar>
      then Inl BadTimestamp else Inr ())"

definition validateKeyBlock :: "env \<Rightarrow> storage \<Rightarrow> keyblock \<Rightarrow> error + newlinks" where
  "validateKeyBlock e st block =
     (let cur = current (blocks st)
      in andThen (checkChaining cur block)
           (\<lambda>_. andThen (checkTimestamp e block)
              (\<lambda>_. andThen (checkProofOfWork (cfg e) st cur block)
                 (\<lambda>_. andThen (checkIssuer st block)
                    (\<lambda>_. checkCoherence e st block)))))"

definition submitKeyBlock :: "env \<Rightarrow> storage \<Rightarrow> keyblock \<Rightarrow> (error + keyblock) \<times> storage" where
  "submitKeyBlock e st block =
     (case validateKeyBlock e st block of
        Inl err \<Rightarrow> (Inl err, st)
      | Inr newLinks \<Rightarrow> saveBlockData e block newLinks st)"

text \<open>One of the checks of a submission gives an error or throws: the chaining test, the
  timestamp test, \<open>checkProofOfWork\<close>, \<open>checkIssuer\<close>, \<open>checkKeychanges\<close> with the reading
  of its new links, and, on these new links, \<open>checkWoTStability\<close>, \<open>checkKicked\<close> and
  \<open>checkCommunityChanges\<close>.\<close>

definition failed :: "error + 'a \<Rightarrow> bool" where
  "failed r = (case r of Inl err \<Rightarrow> True | Inr x \<Rightarrow> False)"

definition someCheckFails :: "env \<Rightarrow> storage \<Rightarrow> keyblock \<Rightarrow> bool" where
  "someCheckFails e st block =
     (failed (checkChaining (current (blocks st)) block)
      \<or> failed (checkTimestamp e block)
      \<or> failed (checkProofOfWork (cfg e) st (current (blocks st)) block)
      \<or> failed (checkIssuer st block)
      \<or> (case andThen (checkKeychanges e st block) logLinks of
            Inl err \<Rightarrow> True
          | Inr newLinks \<Rightarrow>
              failed (checkWoTStability e st block newLinks)
              \<or> failed (checkKicked e st block newLinks))
      \<or> failed (checkCommunityChanges e block))"

section \<open>Error kinds of the specification\<close>

text \<open>
  The error kinds of section 7 of the specification, and the kind of each error of the
  service in the words of sections 4.1, 4.3, 4.4 and 4.7: the five chaining errors are
  \<open>BadChaining\<close> (the specification lists them as its subtypes), and so on. The
  specification names no kind for the errors of a membership submission nor for a thrown
  \<open>TypeError\<close>.
\<close>

datatype error_kind =
    BadChaining | BadTimestampKind | BadPoW | BadIssuer | BadKeychange | NotImplementedKeychange
  | BadCrypto | WoTUnstable | BadKickSet | BadMembersChanges | AlreadySeen | PowCancelled
  | StorageError

fun errorKind :: "error \<Rightarrow> error_kind option" where
  "errorKind RequiresRootBlockFirst = Some BadChaining"
| "errorKind TooLate = Some BadChaining"
| "errorKind TooEarly = Some BadChaining"
| "errorKind BadPreviousHash = Some BadChaining"
| "errorKind BadPreviousIssuer = Some BadChaining"
| "errorKind BadTimestamp = Some BadTimestampKind"
| "errorKind NotAProofOfWork = Some BadPoW"
| "errorKind (WrongProofOfWorkLevel given required) = Some BadPoW"
| "errorKind NotSignedByRootMembers = Some BadIssuer"
| "errorKind NotSignedByMember = Some BadIssuer"
| "errorKind OnlyNewcomerAndUpdate = Some NotImplementedKeychange"
| "errorKind LeaverNotManaged = Some NotImplementedKeychange"
| "errorKind BackNotManaged = Some NotImplementedKeychange"
| "errorKind CertpacketsRequired = Some BadKeychange"
| "errorKind MembershipRequired = Some BadKeychange"
| "errorKind MembershipMustBeIN = Some BadKeychange"
| "errorKind KeyMustHaveUdid2 = Some BadKeychange"
| "errorKind MembershipUserIDMismatch = Some BadKeychange"
| "errorKind ForbiddenPackets = Some BadKeychange"
| "errorKind (BadMembershipSignature uid) = Some BadKeychange"
| "errorKind MembershipForbiddenForUpdate = Some BadKeychange"
| "errorKind EmptyUpdate = Some BadKeychange"
| "errorKind NotOnlySubkeys = Some BadKeychange"
| "errorKind NotOnlyCertifications = Some BadKeychange"
| "errorKind (UnknownKeychangeType ty) = Some BadKeychange"
| "errorKind (SignatureFromNonMember f) = Some BadKeychange"
| "errorKind WrongSignature = Some BadKeychange"
| "errorKind Exception = Some BadCrypto"
| "errorKind (NewcomerNotRecognized f) = Some WoTUnstable"
| "errorKind (NewcomerCannotRecognize f g) = Some WoTUnstable"
| "errorKind (NotEnoughLinks f count qty) = Some WoTUnstable"
| "errorKind (HasToLoseMemberStatus f) = Some BadKickSet"
| "errorKind (NoMoreOutdistanced f) = Some BadKickSet"
| "errorKind WrongMembersChanges = Some BadMembersChanges"
| "errorKind NewBlockReceived = Some PowCancelled"
| "errorKind (NotFound k) = Some StorageError"
| "errorKind AlreadyReceivedMembership = None"
| "errorKind MemberCannotJoin = None"
| "errorKind NonMemberCannotLeave = None"
| "errorKind NeedsEligiblePubkey = None"
| "errorKind TypeError = None"
| "errorKind UncaughtException = None"
| "errorKind NoCallback = None"

section \<open>Submission of a membership\<close>





section \<open>The proof-of-work search\<close>

text \<open>
  \<open>prove\<close> runs \<open>async.whilst\<close> on a block that it changes in place. What the loop reads
  from outside is given per iteration: the clock, and whether a received keyblock waits
  (\<open>newKeyblockCallback\<close> is set). \<open>sigFunc\<close> signs the raw text.
\<close>

record pow_run =
  clockAt :: "nat \<Rightarrow> int"
  newKeyblockAt :: "nat \<Rightarrow> bool"
  sigFunc :: "string \<Rightarrow> string"

record prove_state =
  p_block :: keyblock
  p_pow :: string
  p_sig :: string
  p_raw :: string
  p_testsCount :: nat

datatype prove_event = Cancelled error | Proved keyblock

text \<open>The body of the loop, lines 1422 to 1445: the state after iteration \<open>i\<close>, and
  whether it reports a received block.\<close>

definition proveIteration :: "env \<Rightarrow> pow_run \<Rightarrow> nat \<Rightarrow> prove_state \<Rightarrow> prove_state \<times> bool" where
  "proveIteration e r i s =
     (let newTS = clockAt r i;
          block = (if newTS = timestamp (p_block s)
                   then (p_block s)\<lparr>nonce := fl_int (nonce (p_block s) + 1)\<rparr>
                   else (p_block s)\<lparr>nonce := 0, timestamp := newTS\<rparr>);
          raw = getRaw e block;
          sig = unix2dos e (sigFunc r raw);
          pow = hashOf e (raw @ sig);
          testsCount = fl_nat (p_testsCount s + 1)
      in (\<lparr>p_block = block, p_pow = pow, p_sig = sig, p_raw = raw, p_testsCount = testsCount\<rparr>,
          testsCount mod 100 \<noteq> 0 \<and> testsCount mod 50 = 0 \<and> newKeyblockAt r i))"

text \<open>
  The calls of \<open>done\<close> within the given number of loop tests, in order. After
  \<open>next('New block received')\<close> the body goes on to \<open>next()\<close> (line 1444), so the loop
  continues after it has reported the cancellation. The loop may never end: more tests
  give a longer list.
\<close>

fun proveLoop :: "env \<Rightarrow> pow_run \<Rightarrow> nat \<Rightarrow> nat \<Rightarrow> nat \<Rightarrow> prove_state \<Rightarrow> prove_event list" where
  "proveLoop e r nbZeros 0 i s = []"
| "proveLoop e r nbZeros (Suc fuel) i s =
     (if matchZeros nbZeros (p_pow s) then [Proved ((p_block s)\<lparr>signature := p_sig s\<rparr>)]
      else (case proveIteration e r i s of
              (s', cancel) \<Rightarrow>
                (if cancel then [Cancelled NewBlockReceived] else [])
                  @ proveLoop e r nbZeros fuel (Suc i) s'))"

definition prove :: "env \<Rightarrow> pow_run \<Rightarrow> keyblock \<Rightarrow> nat \<Rightarrow> nat \<Rightarrow> prove_event list" where
  "prove e r block nbZeros fuel =
     proveLoop e r nbZeros fuel 0
       \<lparr>p_block = block, p_pow = [], p_sig = [], p_raw = [], p_testsCount = 0\<rparr>"

section \<open>Sample data\<close>

text \<open>
  A small world on which the theorems below are run: four keys A, B, C and D, a
  configuration with \<open>sigQty = 2\<close> and \<open>powZeroMin = 1\<close>, and collaborators that answer for
  these keys. The distance queries of the sample follow section 4.2 of the specification:
  a search of at most three steps over the stored links that are not obsolete and the new
  links.
\<close>

definition fprA :: fpr where
  "fprA = ''AAAAAAAAAAAAAAAAAAAAAAAAAAAAAAAAAAAAAAAA''"

definition fprB :: fpr where
  "fprB = ''BBBBBBBBBBBBBBBBBBBBBBBBBBBBBBBBBBBBBBBB''"

definition fprC :: fpr where
  "fprC = ''CCCCCCCCCCCCCCCCCCCCCCCCCCCCCCCCCCCCCCCC''"

definition fprD :: fpr where
  "fprD = ''DDDDDDDDDDDDDDDDDDDDDDDDDDDDDDDDDDDDDDDD''"

definition sample_fpr :: "char \<Rightarrow> fpr" where
  "sample_fpr c =
     (if c = CHR ''A'' then fprA else if c = CHR ''B'' then fprB
      else if c = CHR ''C'' then fprC else fprD)"

definition sample_key :: "char \<Rightarrow> pgpkey" where
  "sample_key c =
     \<lparr>key_fingerprint = sample_fpr c, key_userid = ''udid2;c;'' @ [c], key_validUdid2 = True,
      key_armored = ''ARMOR-'' @ [c], key_newcomerPackets = ''KEY-'' @ [c],
      key_encodedPacketList = ''PKT-'' @ [c]\<rparr>"

definition sample_pubkey :: "char \<Rightarrow> pubkey" where
  "sample_pubkey c = \<lparr>pk_fingerprint = sample_fpr c, pk_raw = ''ARMOR-'' @ [c], pk_keychain = False\<rparr>"

definition sample_conf :: conf where
  "sample_conf =
     \<lparr>sigQty = 2, sigValidity = 2629800, powZeroMin = 1, powPeriod = 1, powPeriodC = True,
      tsInterval = 30, conf_currency = ''beta_brousouf''\<rparr>"

definition linkPairs :: "link list \<Rightarrow> newlinks \<Rightarrow> (fpr \<times> fpr) list" where
  "linkPairs ls newLinks =
     map (\<lambda>l. (l_source l, l_target l)) (filter (\<lambda>l. \<not> l_obsolete l) ls)
       @ concat (map (\<lambda>(target, sources). map (\<lambda>source. (source, target)) sources) newLinks)"

fun occursIn :: "fpr \<Rightarrow> fpr list \<Rightarrow> bool" where
  "occursIn x [] = False"
| "occursIn x (y # ys) = (x = y \<or> occursIn x ys)"

definition stepFrom :: "(fpr \<times> fpr) list \<Rightarrow> fpr list \<Rightarrow> fpr list" where
  "stepFrom pairs reached = reached @ map snd (filter (\<lambda>p. occursIn (fst p) reached) pairs)"

definition within3 :: "(fpr \<times> fpr) list \<Rightarrow> fpr \<Rightarrow> fpr \<Rightarrow> bool" where
  "within3 pairs src dst =
     occursIn dst (stepFrom pairs (stepFrom pairs (stepFrom pairs [src])))"

fun unreached :: "(fpr \<times> fpr) list \<Rightarrow> fpr \<Rightarrow> fpr list \<Rightarrow> fpr list" where
  "unreached pairs f [] = []"
| "unreached pairs f (k # ks) =
     (if within3 pairs k f then unreached pairs f ks else k # unreached pairs f ks)"

definition sample_env :: env where
  "sample_env =
     \<lparr>cfg = sample_conf,
      checkWithLocalTimestamp = True,
      now = 1400000010,
      isOver3StepsOfAMember = (\<lambda>ls f members. unreached (linkPairs ls []) f members),
      isStillOver3Steps = (\<lambda>ls f ks newLinks. unreached (linkPairs ls newLinks) f ks),
      fromEncodedPackets =
        (\<lambda>s. if take 4 s = ''KEY-'' \<and> length s = 5 then Some (sample_key (s ! 4)) else None),
      fromArmored =
        (\<lambda>s. if take 6 s = ''ARMOR-'' \<and> length s = 7 then Some (sample_key (s ! 6)) else None),
      fromInline =
        (\<lambda>v sg. \<lparr>ms_issuer = sample_fpr (last v), ms_userid = ''udid2;c;'' @ [last v],
                  ms_membership = takeWhile (\<lambda>c. c \<noteq> CHR '':'') v, ms_date = 0, ms_hash = v,
                  ms_signature = sg, ms_eligible = True, ms_currency = []\<rparr>),
      membershipRaw = (\<lambda>m. ms_membership m @ '':'' @ ms_userid m @ '':'' @ ms_currency m),
      toPacketlist = map (\<lambda>c. \<lparr>issuerKeyId = drop 24 (sample_fpr c), cert_packet = [c]\<rparr>),
      hasOnlySubkeyMaterial = (\<lambda>s. True),
      hasOnlyCertificationMaterial = (\<lambda>s. True),
      unix2dos = (\<lambda>s. s),
      parsePubkey =
        (\<lambda>s. if take 6 s = ''ARMOR-'' \<and> length s = 7 then Some (sample_pubkey (s ! 6)) else None),
      verifySignature = (\<lambda>armored raw sg. sg = ''signed-by-'' @ armored),
      verifyCertification = (\<lambda>cert certifier certified. issuerKeyId cert = drop 24 (pk_fingerprint certifier)),
      getNewPubkeys =
        (\<lambda>b. map (\<lambda>kc. sample_key (last (kc_keypackets kc)))
               (filter (\<lambda>kc. kc_type kc = ''N'') (keysChanges b))),
      getKeyUpdates =
        (\<lambda>b. map (\<lambda>kc. (kc_fingerprint kc, kc_certpackets kc, kc_keypackets kc))
               (filter (\<lambda>kc. kc_type kc = ''U'') (keysChanges b))),
      packetsOf = map (\<lambda>c. [c]),
      encodePackets = (\<lambda>ps. concat (map (\<lambda>p. case p of None \<Rightarrow> ''?'' | Some x \<Rightarrow> x) ps)),
      submitPubkey = (\<lambda>pks p. Inr (if p \<in> set pks then pks else pks @ [p])),
      updateAvailableKeyMaterial = (\<lambda>pks f. Inr pks),
      getRaw = (\<lambda>b. issuer b @ ''::'' @ replicate (nat (nonce b)) (CHR ''n'')),
      hashOf = (\<lambda>s. if even (length s) then ''00A1'' else ''F0B2'')\<rparr>"

definition sample_store0 :: storage where
  "sample_store0 =
     \<lparr>blocks = [], keys = [], links = [], trustedKeys = [], memberships = [],
      pubkeys = [sample_pubkey (CHR ''A''), sample_pubkey (CHR ''B''), sample_pubkey (CHR ''C''),
                 sample_pubkey (CHR ''D'')]\<rparr>"

text \<open>A newcomer keychange of the key \<open>c\<close>, with one certification from each key of
  \<open>certs\<close>, and an update of the key \<open>c\<close> with such certifications.\<close>

definition sample_newcomer :: "char \<Rightarrow> string \<Rightarrow> keychange" where
  "sample_newcomer c certs =
     \<lparr>kc_type = ''N'', kc_fingerprint = sample_fpr c, kc_keypackets = ''KEY-'' @ [c],
      kc_certpackets = certs,
      kc_membership = Some \<lparr>im_membership = ''IN:'' @ [c], im_signature = ''signed-by-ARMOR-'' @ [c]\<rparr>\<rparr>"

definition sample_update :: "char \<Rightarrow> string \<Rightarrow> keychange" where
  "sample_update c certs =
     \<lparr>kc_type = ''U'', kc_fingerprint = sample_fpr c, kc_keypackets = [],
      kc_certpackets = certs, kc_membership = None\<rparr>"

text \<open>A root block of the two founders A and B, each certified by the other only.\<close>

definition sample_root2 :: keyblock where
  "sample_root2 =
     \<lparr>number = 0, currency = ''beta_brousouf'', previousHash = [], previousIssuer = [],
      timestamp = 1400000000, nonce = 0, issuer = fprA, membersRoot = ''ROOT'', membersCount = 2,
      membersChanges = [CHR ''+'' # fprA, CHR ''+'' # fprB],
      keysChanges = [sample_newcomer (CHR ''A'') ''B'', sample_newcomer (CHR ''B'') ''A''],
      signature = ''SIG'', hash = ''0C5A9E''\<rparr>"

text \<open>A root block of the three founders A, B and C, each certified by the two others.\<close>

definition sample_root3 :: keyblock where
  "sample_root3 =
     \<lparr>number = 0, currency = ''beta_brousouf'', previousHash = [], previousIssuer = [],
      timestamp = 1400000000, nonce = 0, issuer = fprA, membersRoot = ''ROOT'', membersCount = 3,
      membersChanges = [CHR ''+'' # fprA, CHR ''+'' # fprB, CHR ''+'' # fprC],
      keysChanges = [sample_newcomer (CHR ''A'') ''BC'', sample_newcomer (CHR ''B'') ''AC'',
                     sample_newcomer (CHR ''C'') ''AB''],
      signature = ''SIG'', hash = ''0C5A9E''\<rparr>"

text \<open>A block on top of a root block: its number is 1 and it is issued by A.\<close>

definition sample_next :: "keyblock \<Rightarrow> string list \<Rightarrow> keychange list \<Rightarrow> keyblock" where
  "sample_next prev changes kcs =
     \<lparr>number = number prev + 1, currency = ''beta_brousouf'', previousHash = hash prev,
      previousIssuer = issuer prev, timestamp = 1400000005, nonce = 0, issuer = fprA,
      membersRoot = ''ROOT'', membersCount = 0, membersChanges = changes, keysChanges = kcs,
      signature = ''SIG'', hash = ''0D77F1''\<rparr>"

text \<open>A store whose only block is the root block of A and B.\<close>

definition sample_store_tip :: storage where
  "sample_store_tip = sample_store0\<lparr>blocks := [sample_root2]\<rparr>"

text \<open>
  For the proof-of-work rule: the period is 29 percent of the members. The store holds the
  blocks 0 to 32, each with 100 members; block 5 is the only one of A, its hash has two
  leading zeros, and the others are of B. The candidate is block 33 of A.
\<close>

definition pow_conf :: conf where
  "pow_conf = sample_conf\<lparr>powPeriod := 29, powPeriodC := False\<rparr>"

definition pow_block :: "nat \<Rightarrow> keyblock" where
  "pow_block n =
     \<lparr>number = n, currency = ''beta_brousouf'',
      previousHash = (if n = 0 then [] else if n = 6 then ''00C1F4'' else ''0D27AA''),
      previousIssuer = (if n = 0 then [] else if n = 6 then fprA else fprB),
      timestamp = 1400000000 + int n, nonce = 0,
      issuer = (if n = 5 then fprA else fprB), membersRoot = ''ROOT'', membersCount = 100,
      membersChanges = [], keysChanges = [], signature = ''SIG'',
      hash = (if n = 5 then ''00C1F4'' else ''0D27AA'')\<rparr>"

definition pow_store :: storage where
  "pow_store = sample_store0\<lparr>blocks := map pow_block [0..<33]\<rparr>"

definition pow_candidate :: "string \<Rightarrow> keyblock" where
  "pow_candidate h = (sample_next (pow_block 32) [] [])\<lparr>hash := h\<rparr>"

text \<open>A configuration that asks for no zero, and a store whose only block is a root block
  of A with a hash that starts with no zero.\<close>

definition free_conf :: conf where
  "free_conf = sample_conf\<lparr>powZeroMin := 0\<rparr>"

definition free_store :: storage where
  "free_store = sample_store0\<lparr>blocks := [sample_root2\<lparr>hash := ''ABC''\<rparr>]\<rparr>"

text \<open>The store after the root block of A and B: each founder has one link only and is
  flagged to be kicked.\<close>

definition sample_trusted :: "char \<Rightarrow> trusted_key" where
  "sample_trusted c =
     \<lparr>tk_fingerprint = sample_fpr c, tk_keyID = drop 24 (sample_fpr c),
      tk_uid = ''udid2;c;'' @ [c], tk_packets = ''PKT-'' @ [c]\<rparr>"

definition sample_link :: "char \<Rightarrow> char \<Rightarrow> int \<Rightarrow> link" where
  "sample_link src dst ts =
     \<lparr>l_source = sample_fpr src, l_target = sample_fpr dst, l_timestamp = ts, l_obsolete = False\<rparr>"

definition sample_store_kick :: storage where
  "sample_store_kick =
     \<lparr>blocks = [sample_root2],
      keys = [\<lparr>k_fingerprint = fprA, k_member = True, k_kick = True, k_distanced = []\<rparr>,
              \<lparr>k_fingerprint = fprB, k_member = True, k_kick = True, k_distanced = []\<rparr>],
      links = [sample_link (CHR ''B'') (CHR ''A'') 1400000000,
               sample_link (CHR ''A'') (CHR ''B'') 1400000000],
      trustedKeys = [sample_trusted (CHR ''A''), sample_trusted (CHR ''B'')],
      memberships = [],
      pubkeys = [sample_pubkey (CHR ''A''), sample_pubkey (CHR ''B''), sample_pubkey (CHR ''C''),
                 sample_pubkey (CHR ''D'')]\<rparr>"

text \<open>The store after the root block of A, B and C: six links, nobody to be kicked.\<close>

definition sample_store_root3 :: storage where
  "sample_store_root3 =
     \<lparr>blocks = [sample_root3],
      keys = [\<lparr>k_fingerprint = fprA, k_member = True, k_kick = False, k_distanced = []\<rparr>,
              \<lparr>k_fingerprint = fprB, k_member = True, k_kick = False, k_distanced = []\<rparr>,
              \<lparr>k_fingerprint = fprC, k_member = True, k_kick = False, k_distanced = []\<rparr>],
      links = [sample_link (CHR ''B'') (CHR ''A'') 1400000000,
               sample_link (CHR ''C'') (CHR ''A'') 1400000000,
               sample_link (CHR ''A'') (CHR ''B'') 1400000000,
               sample_link (CHR ''C'') (CHR ''B'') 1400000000,
               sample_link (CHR ''A'') (CHR ''C'') 1400000000,
               sample_link (CHR ''B'') (CHR ''C'') 1400000000],
      trustedKeys = [sample_trusted (CHR ''A''), sample_trusted (CHR ''B''), sample_trusted (CHR ''C'')],
      memberships = [],
      pubkeys = [sample_pubkey (CHR ''A''), sample_pubkey (CHR ''B''), sample_pubkey (CHR ''C''),
                 sample_pubkey (CHR ''D'')]\<rparr>"

text \<open>The root block of A and B with a wrong count and a wrong root of members.\<close>

definition sample_wrong_root :: keyblock where
  "sample_wrong_root = sample_root2\<lparr>membersRoot := ''WRONG'', membersCount := 7\<rparr>"

text \<open>On the root block of A and B: a block that kicks both founders.\<close>

definition sample_kick_block :: keyblock where
  "sample_kick_block = sample_next sample_root2 [CHR ''-'' # fprA, CHR ''-'' # fprB] []"

text \<open>On the root block of A, B and C: a block that removes C, and on top of it a block
  that adds C again with no keychange. The store between the two has C as a former member
  whose links are still stored.\<close>

definition sample_leave :: keyblock where
  "sample_leave = sample_next sample_root3 [CHR ''-'' # fprC] []"

definition sample_rejoin :: keyblock where
  "sample_rejoin = sample_next sample_leave [CHR ''+'' # fprC] []"

definition sample_store_exC :: storage where
  "sample_store_exC =
     sample_store_root3
       \<lparr>blocks := [sample_root3, sample_leave],
        keys := [\<lparr>k_fingerprint = fprA, k_member = True, k_kick = False, k_distanced = []\<rparr>,
                 \<lparr>k_fingerprint = fprB, k_member = True, k_kick = False, k_distanced = []\<rparr>,
                 \<lparr>k_fingerprint = fprC, k_member = False, k_kick = False, k_distanced = []\<rparr>]\<rparr>"

text \<open>The block that adds C again, dated one validity of a certification after the root
  block, and the clock of a node that receives it then. When it is validated the links to C
  are stored and not obsolete; applying it makes them obsolete.\<close>

definition sample_late_rejoin :: keyblock where
  "sample_late_rejoin = sample_rejoin\<lparr>timestamp := 1402629805\<rparr>"

definition sample_late_env :: env where
  "sample_late_env = sample_env\<lparr>now := 1402629810\<rparr>"

text \<open>The store after that block: every link is obsolete and every member is to be
  kicked.\<close>

definition sample_store_late :: storage where
  "sample_store_late =
     sample_store_root3
       \<lparr>blocks := [sample_root3, sample_leave, sample_late_rejoin],
        keys := [\<lparr>k_fingerprint = fprA, k_member = True, k_kick = True, k_distanced = [fprB, fprC]\<rparr>,
                 \<lparr>k_fingerprint = fprB, k_member = True, k_kick = True, k_distanced = [fprA, fprC]\<rparr>,
                 \<lparr>k_fingerprint = fprC, k_member = True, k_kick = True, k_distanced = [fprA, fprB]\<rparr>],
        links := map (\<lambda>l. l\<lparr>l_obsolete := True\<rparr>) (links sample_store_root3)\<rparr>"

text \<open>On the root block of A, B and C: a block in which D joins, certified by A and B and
  certifying A; and the same block with the certification of A only.\<close>

definition sample_join :: keyblock where
  "sample_join =
     sample_next sample_root3 [CHR ''+'' # fprD]
       [sample_newcomer (CHR ''D'') ''AB'', sample_update (CHR ''A'') ''D'']"

definition sample_join_short :: keyblock where
  "sample_join_short =
     sample_next sample_root3 [CHR ''+'' # fprD]
       [sample_newcomer (CHR ''D'') ''A'', sample_update (CHR ''A'') ''D'']"

text \<open>A search for a proof of work: the clock stands still, no keyblock arrives, and every
  signature is the same text.\<close>

definition sample_run :: pow_run where
  "sample_run = \<lparr>clockAt = (\<lambda>i. 1400000020), newKeyblockAt = (\<lambda>i. False), sigFunc = (\<lambda>raw. ''SIG'')\<rparr>"


section \<open>Basic facts\<close>

lemma andThen_Inl [simp]: "andThen (Inl err) f = Inl err"
  by (simp add: andThen_def)

lemma andThen_Inr [simp]: "andThen (Inr x) f = f x"
  by (simp add: andThen_def)

lemma andThen_eq_Inr:
  "andThen m f = Inr y \<longleftrightarrow> (\<exists>x. m = Inr x \<and> f x = Inr y)"
  by (cases m) simp_all

lemma matchZeros_iff: "matchZeros n s \<longleftrightarrow> n \<le> leadingZeros s"
proof (induction n arbitrary: s)
  case 0
  show ?case by (simp add: matchZeros_def)
next
  case (Suc n)
  show ?case
  proof (cases s)
    case Nil
    then show ?thesis by (simp add: matchZeros_def leadingZeros_def)
  next
    case (Cons c cs)
    have "matchZeros (Suc n) (c # cs) \<longleftrightarrow> c = CHR ''0'' \<and> matchZeros n cs"
      by (auto simp: matchZeros_def)
    moreover have "Suc n \<le> leadingZeros (c # cs) \<longleftrightarrow> c = CHR ''0'' \<and> n \<le> leadingZeros cs"
      by (simp add: leadingZeros_def)
    ultimately show ?thesis using Suc.IH [of cs] Cons by simp
  qed
qed

lemma thenS_Inl [simp]: "thenS (Inl err, st) f = (Inl err, st)"
  by (simp add: thenS_def)

lemma thenS_Inr [simp]: "thenS (Inr x, st) f = f x st"
  by (simp add: thenS_def)

subsection \<open>The current block\<close>

lemma current_None_iff: "current bs = None \<longleftrightarrow> bs = []"
  by (induction bs) (auto split: option.splits)

lemma current_max: "current bs = Some c \<Longrightarrow> b \<in> set bs \<Longrightarrow> number b \<le> number c"
proof (induction bs arbitrary: c)
  case Nil
  then show ?case by simp
next
  case (Cons a bs)
  show ?case
  proof (cases "current bs")
    case None
    then have "bs = []" by (simp add: current_None_iff)
    with Cons.prems None show ?thesis by simp
  next
    case (Some d)
    note ih = Cons.IH [OF Some]
    from Cons.prems Some show ?thesis
      by (auto split: if_splits dest: ih)
  qed
qed

lemma current_snoc:
  "(\<And>b. b \<in> set bs \<Longrightarrow> number b < number n) \<Longrightarrow> current (bs @ [n]) = Some n"
proof (induction bs)
  case Nil
  show ?case by simp
next
  case (Cons a bs)
  have "current (bs @ [n]) = Some n" using Cons by simp
  moreover have "number a < number n" using Cons.prems by simp
  ultimately show ?case by simp
qed

subsection \<open>Rounding to a double\<close>

text \<open>An integer of at most 53 bits, and \<open>2^53\<close> itself, is a double: rounding leaves it
  as it is.\<close>

lemma bit_length_0 [simp]: "bit_length 0 = 0"
  by (simp add: bit_length.simps)

lemma bit_length_pos: "0 < n \<Longrightarrow> bit_length n = Suc (bit_length (n div 2))"
  by (subst bit_length.simps) simp

lemma bit_length_bounds: "0 < n \<Longrightarrow> 2 ^ (bit_length n - 1) \<le> n \<and> n < 2 ^ bit_length n"
proof (induction n rule: less_induct)
  case (less n)
  show ?case
  proof (cases "n div 2 = 0")
    case True
    with less.prems have "n = 1" by (simp add: div_eq_0_iff) 
    then show ?thesis by (simp add: bit_length_pos)
  next
    case False
    then have p: "0 < n div 2" by simp
    have "n div 2 < n" using less.prems by simp
    from less.IH [OF this p] have
      lo: "2 ^ (bit_length (n div 2) - 1) \<le> n div 2" and hi: "n div 2 < 2 ^ bit_length (n div 2)"
      by simp_all
    have k: "0 < bit_length (n div 2)" using p by (simp add: bit_length_pos)
    have bl: "bit_length n = Suc (bit_length (n div 2))" using less.prems by (rule bit_length_pos)
    from lo have "2 * 2 ^ (bit_length (n div 2) - 1) \<le> n" by simp
    then have l2: "2 ^ (bit_length n - 1) \<le> n"
      using k by (simp add: bl power_Suc [symmetric] del: power_Suc)
    from hi have "n < 2 * 2 ^ bit_length (n div 2)" by simp
    then have "n < 2 ^ bit_length n" by (simp add: bl)
    with l2 show ?thesis by simp
  qed
qed

lemma bit_length_1: "bit_length (Suc 0) = Suc 0"
  by (simp add: bit_length_pos)

lemma fl_nat_small:
  assumes "n \<le> 2 ^ 53"
  shows "fl_nat n = n"
proof (cases "n = 0")
  case True
  then show ?thesis by (simp add: fl_nat_def fl_ratio_def js_floor_def)
next
  case False
  then have pos: "0 < n" by simp
  define k where "k = bit_length n"
  from bit_length_bounds [OF pos] have lo: "2 ^ (k - 1) \<le> n" and hi: "n < 2 ^ k"
    by (simp_all add: k_def)
  have kpos: "0 < k" using pos by (simp add: k_def bit_length_pos)
  have "(2::nat) ^ (k - 1) \<le> 2 ^ 53" using lo assms by (rule order_trans)
  with power_le_imp_le_exp [of "2::nat" "k - 1" 53] have k54: "k - 1 \<le> 53" by linarith
  have fr: "fl_ratio n 1 =
      (if k \<le> 53 then (round_half_even (n * 2 ^ (53 - k)) 1, int k - 53)
       else (round_half_even n (2 ^ (k - 53)), int k - 53))"
    using pos kpos lo
    by (auto simp: fl_ratio_def Let_def k_def [symmetric] bit_length_1 nat_diff_distrib
        nat_add_distrib)
  show ?thesis
  proof (cases "k \<le> 53")
    case True
    then show ?thesis
      using fr by (auto simp: fl_nat_def js_floor_def round_half_even_def nat_diff_distrib)
  next
    case False
    with k54 have k: "k = 54" by simp
    with lo assms have n: "n = 2 ^ 53" by simp
    show ?thesis
      using fr by (simp add: k n fl_nat_def js_floor_def round_half_even_def)
  qed
qed

lemma fl_int_small: "\<bar>i\<bar> \<le> 2 ^ 53 \<Longrightarrow> fl_int i = i"
  by (cases "0 \<le> i") (simp_all add: fl_int_def fl_nat_small nat_le_iff)

lemma js_floor_div_by_one: "0 \<le> a \<Longrightarrow> a \<le> 2 ^ 53 \<Longrightarrow> js_floor_div a (Suc 0) = Num a"
  using fl_nat_small [of "nat a"] by (simp add: js_floor_div_def fl_nat_def nat_le_iff)

subsection \<open>Evaluation\<close>

text \<open>Congruence rules for evaluation: a continuation is simplified once its argument is
  known, not before.\<close>

lemma andThen_weak_cong: "m = m' \<Longrightarrow> andThen m f = andThen m' f"
  by simp

lemma thenS_weak_cong: "m = m' \<Longrightarrow> thenS m f = thenS m' f"
  by simp

lemmas eval_congs = andThen_weak_cong thenS_weak_cong prod.case_cong_weak sum.case_cong_weak
  option.case_cong_weak list.case_cong_weak let_weak_cong if_weak_cong

section \<open>Facts of the sample data\<close>

text \<open>The fingerprints of the sample are told apart by these facts; the evaluations below
  keep them folded.\<close>

lemma fpr_distinct:
  "fprA \<noteq> fprB" "fprA \<noteq> fprC" "fprA \<noteq> fprD" "fprB \<noteq> fprA"
  "fprB \<noteq> fprC" "fprB \<noteq> fprD" "fprC \<noteq> fprA" "fprC \<noteq> fprB"
  "fprC \<noteq> fprD" "fprD \<noteq> fprA" "fprD \<noteq> fprB" "fprD \<noteq> fprC"
  by (simp_all add: fprA_def fprB_def fprC_def fprD_def)

lemma keyid_distinct:
  "drop 24 fprA \<noteq> drop 24 fprB" "drop 24 fprA \<noteq> drop 24 fprC"
  "drop 24 fprA \<noteq> drop 24 fprD" "drop 24 fprB \<noteq> drop 24 fprA"
  "drop 24 fprB \<noteq> drop 24 fprC" "drop 24 fprB \<noteq> drop 24 fprD"
  "drop 24 fprC \<noteq> drop 24 fprA" "drop 24 fprC \<noteq> drop 24 fprB"
  "drop 24 fprC \<noteq> drop 24 fprD" "drop 24 fprD \<noteq> drop 24 fprA"
  "drop 24 fprD \<noteq> drop 24 fprB" "drop 24 fprD \<noteq> drop 24 fprC"
  by (simp_all add: fprA_def fprB_def fprC_def fprD_def)

lemma fpr_not_keyid:
  "fprA \<noteq> drop 24 fprA" "fprA \<noteq> drop 24 fprB" "fprA \<noteq> drop 24 fprC"
  "fprA \<noteq> drop 24 fprD" "fprB \<noteq> drop 24 fprA" "fprB \<noteq> drop 24 fprB"
  "fprB \<noteq> drop 24 fprC" "fprB \<noteq> drop 24 fprD" "fprC \<noteq> drop 24 fprA"
  "fprC \<noteq> drop 24 fprB" "fprC \<noteq> drop 24 fprC" "fprC \<noteq> drop 24 fprD"
  "fprD \<noteq> drop 24 fprA" "fprD \<noteq> drop 24 fprB" "fprD \<noteq> drop 24 fprC"
  "fprD \<noteq> drop 24 fprD"
  by (simp_all add: fprA_def fprB_def fprC_def fprD_def)

lemma endsWith_keyid:
  "endsWith fprA (drop 24 fprA) = (True)" "endsWith fprA (drop 24 fprB) = (False)"
  "endsWith fprA (drop 24 fprC) = (False)" "endsWith fprA (drop 24 fprD) = (False)"
  "endsWith fprB (drop 24 fprA) = (False)" "endsWith fprB (drop 24 fprB) = (True)"
  "endsWith fprB (drop 24 fprC) = (False)" "endsWith fprB (drop 24 fprD) = (False)"
  "endsWith fprC (drop 24 fprA) = (False)" "endsWith fprC (drop 24 fprB) = (False)"
  "endsWith fprC (drop 24 fprC) = (True)" "endsWith fprC (drop 24 fprD) = (False)"
  "endsWith fprD (drop 24 fprA) = (False)" "endsWith fprD (drop 24 fprB) = (False)"
  "endsWith fprD (drop 24 fprC) = (False)" "endsWith fprD (drop 24 fprD) = (True)"
  by (simp_all add: endsWith_def fprA_def fprB_def fprC_def fprD_def)

lemma sample_fpr_simps:
  "sample_fpr (CHR ''A'') = fprA" "sample_fpr (CHR ''B'') = fprB" "sample_fpr (CHR ''C'') = fprC"
  "sample_fpr (CHR ''D'') = fprD"
  by (simp_all add: sample_fpr_def)

lemmas fpr_facts = fpr_distinct keyid_distinct fpr_not_keyid fpr_not_keyid [symmetric]
  endsWith_keyid sample_fpr_simps

text \<open>The fields of the sample records, so that an evaluation reads one field without
  unfolding the record.\<close>

lemma sample_env_fields:
  "cfg sample_env = sample_conf"
  "checkWithLocalTimestamp sample_env = True"
  "now sample_env = 1400000010"
  "isOver3StepsOfAMember sample_env ls f ks = unreached (linkPairs ls []) f ks"
  "isStillOver3Steps sample_env ls f ks newLinks = unreached (linkPairs ls newLinks) f ks"
  "fromEncodedPackets sample_env s =
     (if take 4 s = ''KEY-'' \<and> length s = 5 then Some (sample_key (s ! 4)) else None)"
  "fromArmored sample_env s =
     (if take 6 s = ''ARMOR-'' \<and> length s = 7 then Some (sample_key (s ! 6)) else None)"
  "fromInline sample_env v sg =
     \<lparr>ms_issuer = sample_fpr (last v), ms_userid = ''udid2;c;'' @ [last v],
      ms_membership = takeWhile (\<lambda>c. c \<noteq> CHR '':'') v, ms_date = 0, ms_hash = v,
      ms_signature = sg, ms_eligible = True, ms_currency = []\<rparr>"
  "membershipRaw sample_env m = ms_membership m @ '':'' @ ms_userid m @ '':'' @ ms_currency m"
  "toPacketlist sample_env s =
     map (\<lambda>c. \<lparr>issuerKeyId = drop 24 (sample_fpr c), cert_packet = [c]\<rparr>) s"
  "hasOnlySubkeyMaterial sample_env s = True"
  "hasOnlyCertificationMaterial sample_env s = True"
  "unix2dos sample_env s = s"
  "parsePubkey sample_env s =
     (if take 6 s = ''ARMOR-'' \<and> length s = 7 then Some (sample_pubkey (s ! 6)) else None)"
  "verifySignature sample_env armored raw sg = (sg = ''signed-by-'' @ armored)"
  "verifyCertification sample_env cert certifier certified =
     (issuerKeyId cert = drop 24 (pk_fingerprint certifier))"
  "getNewPubkeys sample_env b =
     map (\<lambda>kc. sample_key (last (kc_keypackets kc)))
       (filter (\<lambda>kc. kc_type kc = ''N'') (keysChanges b))"
  "getKeyUpdates sample_env b =
     map (\<lambda>kc. (kc_fingerprint kc, kc_certpackets kc, kc_keypackets kc))
       (filter (\<lambda>kc. kc_type kc = ''U'') (keysChanges b))"
  "packetsOf sample_env s = map (\<lambda>c. [c]) s"
  "encodePackets sample_env ps = concat (map (\<lambda>p. case p of None \<Rightarrow> ''?'' | Some x \<Rightarrow> x) ps)"
  "submitPubkey sample_env pks p = Inr (if p \<in> set pks then pks else pks @ [p])"
  "updateAvailableKeyMaterial sample_env pks f = Inr pks"
  "getRaw sample_env b = issuer b @ ''::'' @ replicate (nat (nonce b)) (CHR ''n'')"
  "hashOf sample_env s = (if even (length s) then ''00A1'' else ''F0B2'')"
  by (simp_all add: sample_env_def)

lemma sample_conf_fields:
  "sigQty sample_conf = 2" "sigValidity sample_conf = 2629800" "powZeroMin sample_conf = 1"
  "powPeriod sample_conf = 1" "powPeriodC sample_conf = True" "tsInterval sample_conf = 30"
  "conf_currency sample_conf = ''beta_brousouf''"
  by (simp_all add: sample_conf_def)

lemma sample_store0_fields:
  "blocks sample_store0 = []" "keys sample_store0 = []" "links sample_store0 = []"
  "trustedKeys sample_store0 = []" "memberships sample_store0 = []"
  "pubkeys sample_store0 =
     [sample_pubkey (CHR ''A''), sample_pubkey (CHR ''B''), sample_pubkey (CHR ''C''),
      sample_pubkey (CHR ''D'')]"
  by (simp_all add: sample_store0_def)

lemma sample_root2_fields:
  "number sample_root2 = 0" "previousHash sample_root2 = []" "previousIssuer sample_root2 = []"
  "timestamp sample_root2 = 1400000000" "issuer sample_root2 = fprA"
  "membersCount sample_root2 = 2" "hash sample_root2 = ''0C5A9E''"
  "membersChanges sample_root2 = [CHR ''+'' # fprA, CHR ''+'' # fprB]"
  "keysChanges sample_root2 = [sample_newcomer (CHR ''A'') ''B'', sample_newcomer (CHR ''B'') ''A'']"
  by (simp_all add: sample_root2_def)

lemma sample_root3_fields:
  "number sample_root3 = 0" "previousHash sample_root3 = []" "previousIssuer sample_root3 = []"
  "timestamp sample_root3 = 1400000000" "issuer sample_root3 = fprA"
  "membersCount sample_root3 = 3" "hash sample_root3 = ''0C5A9E''"
  "membersChanges sample_root3 = [CHR ''+'' # fprA, CHR ''+'' # fprB, CHR ''+'' # fprC]"
  "keysChanges sample_root3 =
     [sample_newcomer (CHR ''A'') ''BC'', sample_newcomer (CHR ''B'') ''AC'',
      sample_newcomer (CHR ''C'') ''AB'']"
  by (simp_all add: sample_root3_def)

lemma sample_next_fields:
  "number (sample_next prev changes kcs) = number prev + 1"
  "previousHash (sample_next prev changes kcs) = hash prev"
  "previousIssuer (sample_next prev changes kcs) = issuer prev"
  "timestamp (sample_next prev changes kcs) = 1400000005"
  "issuer (sample_next prev changes kcs) = fprA"
  "hash (sample_next prev changes kcs) = ''0D77F1''"
  "membersChanges (sample_next prev changes kcs) = changes"
  "keysChanges (sample_next prev changes kcs) = kcs"
  by (simp_all add: sample_next_def)

lemma sample_newcomer_fields:
  "kc_type (sample_newcomer c certs) = ''N''"
  "kc_fingerprint (sample_newcomer c certs) = sample_fpr c"
  "kc_keypackets (sample_newcomer c certs) = ''KEY-'' @ [c]"
  "kc_certpackets (sample_newcomer c certs) = certs"
  "kc_membership (sample_newcomer c certs) =
     Some \<lparr>im_membership = ''IN:'' @ [c], im_signature = ''signed-by-ARMOR-'' @ [c]\<rparr>"
  by (simp_all add: sample_newcomer_def)

lemma sample_update_fields:
  "kc_type (sample_update c certs) = ''U''"
  "kc_fingerprint (sample_update c certs) = sample_fpr c"
  "kc_keypackets (sample_update c certs) = []"
  "kc_certpackets (sample_update c certs) = certs"
  "kc_membership (sample_update c certs) = None"
  by (simp_all add: sample_update_def)

lemma sample_key_fields:
  "key_fingerprint (sample_key c) = sample_fpr c" "key_userid (sample_key c) = ''udid2;c;'' @ [c]"
  "key_validUdid2 (sample_key c) = True" "key_armored (sample_key c) = ''ARMOR-'' @ [c]"
  "key_newcomerPackets (sample_key c) = ''KEY-'' @ [c]"
  "key_encodedPacketList (sample_key c) = ''PKT-'' @ [c]"
  by (simp_all add: sample_key_def)

lemma sample_pubkey_fields:
  "pk_fingerprint (sample_pubkey c) = sample_fpr c" "pk_raw (sample_pubkey c) = ''ARMOR-'' @ [c]"
  "pk_keychain (sample_pubkey c) = False"
  by (simp_all add: sample_pubkey_def)

lemmas sample_fields = sample_env_fields sample_conf_fields sample_store0_fields
  sample_root2_fields sample_root3_fields sample_next_fields sample_newcomer_fields
  sample_update_fields sample_key_fields sample_pubkey_fields

lemmas check_defs = checkChaining_def checkTimestamp_def checkProofOfWork_def getTrialLevel_def
  nbPeriodsToWait_def fl_int_small fl_nat_small js_floor_div_by_one
  lastOfIssuer_def matchZeros_def matchAtLeast_def leadingZeros_def checkIssuer_def isMember_def
  checkCoherence_def checkKeychanges_def checkKeychange_def checkCertificationOfKey_def
  findNewKey_def getTheOnePubkey_def getTheOneTrusted_def stripNewline_def
  checkWoTStability_def checkNewcomer_def checkHaveEnoughLinks_def linkCount_def
  currentValidLinks_def newcomersOf_def getMembers_def checkKicked_def checkKickedKey_def
  checkKickedDecision_def getToBeKicked_def checkCommunityChanges_def getMemberships_def
  changeOf_def linkPairs_def stepFrom_def within3_def Let_def

lemmas save_defs = saveBlockData_def updateMembers_def addMember_def removeMember_def
  unsetKicked_def setKicked_def updateKey_def saveNewPubkeys_def saveKeyUpdates_def
  mergedPackets_def saveLinks_def removeMemberships_def computeObsoleteLinks_def obsoletes_def
  updateAvailableKeyMaterials_def checkHaveEnoughLinks_def linkCount_def currentValidLinks_def
  fl_int_small
  getMembers_def getMemberships_def linkPairs_def stepFrom_def within3_def getTheOneTrusted_def
  Let_def

section \<open>Chain linkage (C1)\<close>

lemma submit_chaining_error:
  "checkChaining (current (blocks st)) block = Inl err \<Longrightarrow> submitKeyBlock e st block = (Inl err, st)"
  by (simp add: submitKeyBlock_def validateKeyBlock_def)

text \<open>The sum the chaining test computes is exact for a tip below \<open>2^53\<close>. Beyond, it is
  rounded: on a tip numbered \<open>2^53 + 2\<close> the test lets block \<open>2^53 + 4\<close> pass.\<close>

lemma chaining_sum_exact: "n < 2 ^ 53 \<Longrightarrow> fl_nat (n + 1) = n + 1"
  by (rule fl_nat_small) simp

lemma chaining_sum_rounded:
  "checkChaining (Some (sample_root2\<lparr>number := 9007199254740994\<rparr>))
     ((sample_next (sample_root2\<lparr>number := 9007199254740994\<rparr>) [] [])\<lparr>number := 9007199254740996\<rparr>)
     = Inr ()"
  by (simp add: checkChaining_def sample_next_def fl_nat_def fl_ratio_def js_floor_def
      round_half_even_def bit_length.simps)

text \<open>
  C1. A keyblock submitted against the current tip, the number of the tip being below
  \<open>2^53\<close> (the integers that a JavaScript number counts exactly): without a tip it is
  rejected unless its number is 0; with a tip \<open>t\<close> it is rejected when its number is at
  most that of \<open>t\<close>, when it is above the number of \<open>t\<close> plus one, and when it is the number
  of \<open>t\<close> plus one but the previous hash or the previous issuer is not that of \<open>t\<close>. Each
  rejection leaves the state as it was. The chaining test passes exactly for a linked
  block, and only then does the submission go on to the timestamp, the proof of work, the
  issuer and the coherence checks.
\<close>

theorem submitKeyBlock_chain_linkage:
  assumes safe: "\<forall>t. current (blocks st) = Some t \<longrightarrow> number t < 2 ^ 53"
  shows "(current (blocks st) = None \<and> number block \<noteq> 0 \<longrightarrow>
      submitKeyBlock e st block = (Inl RequiresRootBlockFirst, st))
   \<and> (\<forall>t. current (blocks st) = Some t \<longrightarrow>
        (number block \<le> number t \<longrightarrow> submitKeyBlock e st block = (Inl TooLate, st))
      \<and> (number t + 1 < number block \<longrightarrow> submitKeyBlock e st block = (Inl TooEarly, st))
      \<and> (number block = number t + 1 \<and> previousHash block \<noteq> hash t \<longrightarrow>
            submitKeyBlock e st block = (Inl BadPreviousHash, st))
      \<and> (number block = number t + 1 \<and> previousHash block = hash t
            \<and> previousIssuer block \<noteq> issuer t \<longrightarrow>
            submitKeyBlock e st block = (Inl BadPreviousIssuer, st)))
   \<and> (checkChaining (current (blocks st)) block = Inr () \<longleftrightarrow> linked (current (blocks st)) block)
   \<and> (\<not> linked (current (blocks st)) block \<longrightarrow>
        (\<exists>err \<in> chainingErrors. submitKeyBlock e st block = (Inl err, st)))
   \<and> (linked (current (blocks st)) block \<longrightarrow>
        validateKeyBlock e st block =
          andThen (checkTimestamp e block)
            (\<lambda>_. andThen (checkProofOfWork (cfg e) st (current (blocks st)) block)
               (\<lambda>_. andThen (checkIssuer st block) (\<lambda>_. checkCoherence e st block))))"
proof -
  have sum: "fl_nat (Suc (number t)) = Suc (number t)" if "current (blocks st) = Some t" for t
  proof -
    from safe that have "number t < 2 ^ 53" by blast
    then have "fl_nat (number t + 1) = number t + 1" by (rule chaining_sum_exact)
    then show ?thesis by simp
  qed
  show ?thesis
  proof (intro conjI allI impI)
    assume "current (blocks st) = None \<and> number block \<noteq> 0"
    then have "checkChaining (current (blocks st)) block = Inl RequiresRootBlockFirst"
      by (simp add: checkChaining_def)
    then show "submitKeyBlock e st block = (Inl RequiresRootBlockFirst, st)"
      by (rule submit_chaining_error)
  next
    fix t assume "current (blocks st) = Some t" "number block \<le> number t"
    then have "checkChaining (current (blocks st)) block = Inl TooLate"
      by (simp add: checkChaining_def)
    then show "submitKeyBlock e st block = (Inl TooLate, st)"
      by (rule submit_chaining_error)
  next
    fix t assume t: "current (blocks st) = Some t" and "number t + 1 < number block"
    then have "checkChaining (current (blocks st)) block = Inl TooEarly"
      by (simp add: checkChaining_def sum [OF t])
    then show "submitKeyBlock e st block = (Inl TooEarly, st)"
      by (rule submit_chaining_error)
  next
    fix t assume t: "current (blocks st) = Some t"
      and "number block = number t + 1 \<and> previousHash block \<noteq> hash t"
    then have "checkChaining (current (blocks st)) block = Inl BadPreviousHash"
      by (simp add: checkChaining_def sum [OF t])
    then show "submitKeyBlock e st block = (Inl BadPreviousHash, st)"
      by (rule submit_chaining_error)
  next
    fix t assume t: "current (blocks st) = Some t"
      and "number block = number t + 1 \<and> previousHash block = hash t
        \<and> previousIssuer block \<noteq> issuer t"
    then have "checkChaining (current (blocks st)) block = Inl BadPreviousIssuer"
      by (simp add: checkChaining_def sum [OF t])
    then show "submitKeyBlock e st block = (Inl BadPreviousIssuer, st)"
      by (rule submit_chaining_error)
  next
    show "checkChaining (current (blocks st)) block = Inr () \<longleftrightarrow> linked (current (blocks st)) block"
      by (cases "current (blocks st)") (auto simp: checkChaining_def linked_def sum)
  next
    assume nl: "\<not> linked (current (blocks st)) block"
    have "\<exists>err \<in> chainingErrors. checkChaining (current (blocks st)) block = Inl err"
      using nl
      by (cases "current (blocks st)") (auto simp: checkChaining_def linked_def chainingErrors_def sum)
    then show "\<exists>err \<in> chainingErrors. submitKeyBlock e st block = (Inl err, st)"
      using submit_chaining_error by blast
  next
    assume "linked (current (blocks st)) block"
    then have "checkChaining (current (blocks st)) block = Inr ()"
      by (cases "current (blocks st)") (auto simp: checkChaining_def linked_def sum)
    then show "validateKeyBlock e st block =
          andThen (checkTimestamp e block)
            (\<lambda>_. andThen (checkProofOfWork (cfg e) st (current (blocks st)) block)
               (\<lambda>_. andThen (checkIssuer st block) (\<lambda>_. checkCoherence e st block)))"
      by (simp add: validateKeyBlock_def)
  qed
qed

lemma sample_tip_current: "current (blocks sample_store_tip) = Some sample_root2"
  by (simp add: sample_store_tip_def)

theorem submitKeyBlock_chain_linkage_witness:
  "number sample_root2 < 2 ^ 53
   \<and> submitKeyBlock sample_env sample_store0 (sample_next sample_root2 [] [])
     = (Inl RequiresRootBlockFirst, sample_store0)
   \<and> submitKeyBlock sample_env sample_store_tip sample_root2 = (Inl TooLate, sample_store_tip)
   \<and> submitKeyBlock sample_env sample_store_tip ((sample_next sample_root2 [] [])\<lparr>number := 5\<rparr>)
       = (Inl TooEarly, sample_store_tip)
   \<and> submitKeyBlock sample_env sample_store_tip ((sample_next sample_root2 [] [])\<lparr>previousHash := ''0BAD''\<rparr>)
       = (Inl BadPreviousHash, sample_store_tip)
   \<and> submitKeyBlock sample_env sample_store_tip ((sample_next sample_root2 [] [])\<lparr>previousIssuer := fprB\<rparr>)
       = (Inl BadPreviousIssuer, sample_store_tip)
   \<and> linked (current (blocks sample_store_tip)) (sample_next sample_root2 [] [])
   \<and> checkChaining (current (blocks sample_store_tip)) (sample_next sample_root2 [] []) = Inr ()"
proof -
  have a: "current (blocks sample_store0) = None
      \<and> number (sample_next sample_root2 [] []) \<noteq> 0"
    by (simp add: sample_store0_def sample_next_def)
  have b: "number sample_root2 \<le> number sample_root2" by simp
  have c: "number sample_root2 + 1 < number ((sample_next sample_root2 [] [])\<lparr>number := 5\<rparr>)"
    by (simp add: sample_root2_def)
  have d: "number ((sample_next sample_root2 [] [])\<lparr>previousHash := ''0BAD''\<rparr>) = number sample_root2 + 1
      \<and> previousHash ((sample_next sample_root2 [] [])\<lparr>previousHash := ''0BAD''\<rparr>) \<noteq> hash sample_root2"
    by (simp add: sample_next_def sample_root2_def)
  have f: "number ((sample_next sample_root2 [] [])\<lparr>previousIssuer := fprB\<rparr>) = number sample_root2 + 1
      \<and> previousHash ((sample_next sample_root2 [] [])\<lparr>previousIssuer := fprB\<rparr>) = hash sample_root2
      \<and> previousIssuer ((sample_next sample_root2 [] [])\<lparr>previousIssuer := fprB\<rparr>) \<noteq> issuer sample_root2"
    by (simp add: sample_next_def sample_root2_def fprA_def fprB_def)
  have g: "linked (current (blocks sample_store_tip)) (sample_next sample_root2 [] [])"
    by (simp add: sample_tip_current linked_def sample_next_def)
  have s0: "\<forall>t. current (blocks sample_store0) = Some t \<longrightarrow> number t < 2 ^ 53"
    by (simp add: sample_store0_def)
  have s1: "\<forall>t. current (blocks sample_store_tip) = Some t \<longrightarrow> number t < 2 ^ 53"
    by (simp add: sample_tip_current sample_root2_def)
  have small: "number sample_root2 < 2 ^ 53" by (simp add: sample_root2_def)
  note tip = submitKeyBlock_chain_linkage [OF s1, THEN conjunct2, THEN conjunct1, THEN spec,
      THEN mp, OF sample_tip_current]
  have r1: "submitKeyBlock sample_env sample_store0 (sample_next sample_root2 [] [])
      = (Inl RequiresRootBlockFirst, sample_store0)"
    by (rule submitKeyBlock_chain_linkage [OF s0, THEN conjunct1, THEN mp, OF a])
  have r2: "submitKeyBlock sample_env sample_store_tip sample_root2 = (Inl TooLate, sample_store_tip)"
    by (rule tip [THEN conjunct1, THEN mp, OF b])
  have r3: "submitKeyBlock sample_env sample_store_tip ((sample_next sample_root2 [] [])\<lparr>number := 5\<rparr>)
      = (Inl TooEarly, sample_store_tip)"
    by (rule tip [THEN conjunct2, THEN conjunct1, THEN mp, OF c])
  have r4: "submitKeyBlock sample_env sample_store_tip
      ((sample_next sample_root2 [] [])\<lparr>previousHash := ''0BAD''\<rparr>)
      = (Inl BadPreviousHash, sample_store_tip)"
    by (rule tip [THEN conjunct2, THEN conjunct2, THEN conjunct1, THEN mp, OF d])
  have r5: "submitKeyBlock sample_env sample_store_tip
      ((sample_next sample_root2 [] [])\<lparr>previousIssuer := fprB\<rparr>)
      = (Inl BadPreviousIssuer, sample_store_tip)"
    by (rule tip [THEN conjunct2, THEN conjunct2, THEN conjunct2, THEN mp, OF f])
  have r6: "checkChaining (current (blocks sample_store_tip)) (sample_next sample_root2 [] []) = Inr ()"
    by (rule submitKeyBlock_chain_linkage [OF s1, THEN conjunct2, THEN conjunct2, THEN conjunct1,
          THEN iffD2, OF g])
  from small r1 r2 r3 r4 r5 g r6 show ?thesis by (intro conjI)
qed

section \<open>Proof of work (C3)\<close>

lemma period_29_percent_of_100: "js_floor (js_mul (js_div 29 100) 100) = 28"
  by (simp add: js_floor_def js_mul_def js_div_def fl_ratio_def round_half_even_def
      bit_length.simps)

lemma quotient_28_by_28: "js_floor_div 28 28 = Num 1"
  by (simp add: js_floor_div_def js_floor_def fl_ratio_def round_half_even_def bit_length.simps)

lemma pow_block_fields:
  "number (pow_block n) = n" "issuer (pow_block n) = (if n = 5 then fprA else fprB)"
  "membersCount (pow_block n) = 100"
  "hash (pow_block n) = (if n = 5 then ''00C1F4'' else ''0D27AA'')"
  by (simp_all add: pow_block_def)

lemma pow_blocks: "blocks pow_store = map pow_block [0..<33]"
  by (simp add: pow_store_def)

lemma current_pow_block:
  "current (map pow_block [0..<Suc n]) = Some (pow_block n)"
proof (induction n)
  case 0
  show ?case by simp
next
  case (Suc n)
  have "current (map pow_block [0..<Suc n] @ [pow_block (Suc n)]) = Some (pow_block (Suc n))"
    by (rule current_snoc) (auto simp: pow_block_fields)
  then show ?case by simp
qed

lemma pow_current: "current (blocks pow_store) = Some (pow_block 32)"
  using current_pow_block [of 32] by (simp add: pow_blocks)

lemma pow_lastOfIssuer: "lastOfIssuer (blocks pow_store) fprA = Some (pow_block 5)"
proof -
  have "filter (\<lambda>b. issuer b = fprA) (map pow_block [0..<n])
      = (if 5 < n then [pow_block 5] else [])" for n
    by (induction n) (auto simp: pow_block_fields fpr_distinct less_Suc_eq)
  from this [of 33] show ?thesis by (simp add: lastOfIssuer_def pow_blocks)
qed

lemma pow_candidate_fields:
  "issuer (pow_candidate h) = fprA" "number (pow_candidate h) = 33" "hash (pow_candidate h) = h"
  by (simp_all add: pow_candidate_def sample_next_def pow_block_fields)

lemma pow_conf_fields: "powZeroMin pow_conf = 1" "powPeriod pow_conf = 29" "\<not> powPeriodC pow_conf"
  by (simp_all add: pow_conf_def sample_conf_def)

lemma pow_period: "nbPeriodsToWait pow_conf 100 = 28"
  by (simp add: nbPeriodsToWait_def pow_conf_fields period_29_percent_of_100)

lemma pow_trial_level: "getTrialLevel pow_conf pow_store fprA 33 100 = Inr (Num 2)"
  by (simp add: getTrialLevel_def pow_lastOfIssuer pow_block_fields pow_conf_fields pow_period
      leadingZeros_def fl_int_small quotient_28_by_28)

text \<open>A further way in which the code leaves the rule: where the hash of the last block of
  the issuer starts with no zero, which a configuration with \<open>powZeroMin = 0\<close> allows,
  \<open>getTrialLevel\<close> throws (line 546) and the check gives no answer.\<close>

lemma getTrialLevel_throws:
  "lastOfIssuer (blocks st) iss = Some lb \<Longrightarrow> leadingZeros (hash lb) = 0 \<Longrightarrow>
     getTrialLevel c st iss n w = Inl TypeError"
  by (simp add: getTrialLevel_def)

lemma free_root_passes:
  "checkProofOfWork free_conf sample_store0 None (sample_root2\<lparr>hash := ''ABC''\<rparr>) = Inr ()"
  by (simp add: checkProofOfWork_def free_conf_def sample_store0_def sample_root2_def
      sample_conf_def matchZeros_def matchAtLeast_def getTrialLevel_def lastOfIssuer_def
      fl_int_small)

lemma checkProofOfWork_throws:
  "checkProofOfWork free_conf free_store (current (blocks free_store))
     ((sample_next (sample_root2\<lparr>hash := ''ABC''\<rparr>) [] [])\<lparr>hash := ''ABD''\<rparr>) = Inl TypeError"
  by (simp add: checkProofOfWork_def free_conf_def free_store_def sample_store0_def
      sample_root2_def sample_next_def sample_conf_def matchZeros_def getTrialLevel_def
      lastOfIssuer_def leadingZeros_def)

text \<open>
  C3 fails on the code, at this input: the period is 29 percent of the members, the tip is
  block 32 and counts 100 members, the last block of A is block 5, whose hash has two
  leading zeros, and A submits block 33 with a hash of two leading zeros. By the rule the
  period is \<open>floor(29 * 100 / 100) = 29\<close> blocks, A has waited \<open>floor(28 / 29) = 0\<close> periods
  and three zeros are required: the block is to be rejected. The code computes the period
  as \<open>Math.floor(29 / 100 * 100)\<close> in double precision, which is 28 (line 549), counts one
  period waited, requires two zeros and accepts the block.
\<close>

theorem checkProofOfWork_period_divergence:
  "checkProofOfWork pow_conf pow_store (current (blocks pow_store)) (pow_candidate ''00E31B'')
     = Inr ()
   \<and> current (blocks pow_store) = Some (pow_block 32)
   \<and> lastOfIssuer (blocks pow_store) (issuer (pow_candidate ''00E31B'')) = Some (pow_block 5)
   \<and> leadingZeros (hash (pow_block 5)) = 2
   \<and> leadingZeros (hash (pow_candidate ''00E31B'')) = 2
   \<and> spec_period pow_conf (membersCount (pow_block 32)) = 29
   \<and> spec_requiredZeros pow_conf pow_store (current (blocks pow_store)) (pow_candidate ''00E31B'') = 3
   \<and> nbPeriodsToWait pow_conf (membersCount (pow_block 32)) = 28
   \<and> getTrialLevel pow_conf pow_store (issuer (pow_candidate ''00E31B''))
        (number (pow_candidate ''00E31B'')) (membersCount (pow_block 32)) = Inr (Num 2)"
proof -
  have ok: "checkProofOfWork pow_conf pow_store (current (blocks pow_store))
      (pow_candidate ''00E31B'') = Inr ()"
    by (simp add: checkProofOfWork_def pow_current pow_candidate_fields pow_block_fields
        pow_trial_level pow_conf_fields matchZeros_def matchAtLeast_def leadingZeros_def)
  have sp: "spec_period pow_conf 100 = 29"
    by (simp add: spec_period_def pow_conf_fields)
  have sz: "spec_requiredZeros pow_conf pow_store (current (blocks pow_store))
      (pow_candidate ''00E31B'') = 3"
    by (simp add: spec_requiredZeros_def sp pow_current pow_lastOfIssuer pow_candidate_fields
        pow_block_fields pow_conf_fields leadingZeros_def)
  show ?thesis
    using ok sp sz
    by (simp add: pow_current pow_lastOfIssuer pow_candidate_fields pow_block_fields pow_period
        pow_trial_level leadingZeros_def)
qed

section \<open>The block store after a save\<close>

lemma thenS_blocks:
  assumes "thenS m f = (r, st')" "blocks (snd m) = bs"
    and "\<And>x s r' s'. f x s = (r', s') \<Longrightarrow> blocks s = bs \<Longrightarrow> blocks s' = bs"
  shows "blocks st' = bs"
proof (cases m)
  case (Pair res s)
  show ?thesis
  proof (cases res)
    case (Inl err)
    with Pair assms(1,2) show ?thesis by auto
  next
    case (Inr x)
    with Pair assms(1) have "f x s = (r, st')" by simp
    moreover from Pair assms(2) have "blocks s = bs" by simp
    ultimately show ?thesis by (rule assms(3))
  qed
qed

lemma forEachS_blocks:
  assumes "\<And>x s r s'. f x s = (r, s') \<Longrightarrow> blocks s' = blocks s"
  shows "forEachS f xs st = (r, st') \<Longrightarrow> blocks st' = blocks st"
proof (induction xs arbitrary: st)
  case Nil
  then show ?case by simp
next
  case (Cons x xs)
  obtain res s1 where fx: "f x st = (res, s1)" by (cases "f x st")
  then have b1: "blocks s1 = blocks st" by (rule assms)
  show ?case
  proof (cases res)
    case (Inl err)
    with Cons.prems fx b1 show ?thesis by simp
  next
    case (Inr u)
    with Cons.prems fx have "forEachS f xs s1 = (r, st')" by simp
    then have "blocks st' = blocks s1" by (rule Cons.IH)
    with b1 show ?thesis by simp
  qed
qed

lemma updateMembers_blocks: "updateMembers block st = (r, st') \<Longrightarrow> blocks st' = blocks st"
  unfolding updateMembers_def
  by (erule forEachS_blocks [rotated]) (auto simp: Let_def)

lemma saveNewPubkeys_blocks: "saveNewPubkeys e block st = (r, st') \<Longrightarrow> blocks st' = blocks st"
  unfolding saveNewPubkeys_def
  by (erule forEachS_blocks [rotated]) (auto simp: Let_def split: option.splits sum.splits)

lemma saveKeyUpdates_blocks: "saveKeyUpdates e block st = (r, st') \<Longrightarrow> blocks st' = blocks st"
  unfolding saveKeyUpdates_def
  by (erule forEachS_blocks [rotated]) (auto split: sum.splits)

lemma computeObsoleteLinks_blocks:
  "computeObsoleteLinks e block st = (r, st') \<Longrightarrow> blocks st' = blocks st"
proof -
  assume a: "computeObsoleteLinks e block st = (r, st')"
  define st1 where
    "st1 = st\<lparr>links := obsoletes (fl_int (timestamp block - sigValidity (cfg e))) (links st)\<rparr>"
  from a have "blocks st' = blocks st1"
    unfolding computeObsoleteLinks_def Let_def st1_def [symmetric]
    by (erule_tac forEachS_blocks [rotated]) (auto simp: Let_def)
  then show ?thesis by (simp add: st1_def)
qed

lemma updateAvailableKeyMaterials_blocks:
  "updateAvailableKeyMaterials e block st = (r, st') \<Longrightarrow> blocks st' = blocks st"
  unfolding updateAvailableKeyMaterials_def
  by (erule forEachS_blocks [rotated]) (auto split: sum.splits if_splits)

lemma saveBlockData_blocks:
  assumes "saveBlockData e block newLinks st = (r, st')"
  shows "blocks st' = blocks st @ [block]"
proof -
  let ?bs = "blocks st @ [block]"
  note s = assms [unfolded saveBlockData_def]
  show ?thesis
  proof (rule thenS_blocks [OF s])
    show "blocks (snd (Inr (), st\<lparr>blocks := blocks st @ [block]\<rparr>)) = ?bs" by simp
  next
    fix x1 s1 r1 s1'
    assume b1: "blocks s1 = ?bs"
      and t1: "thenS (updateMembers block s1)
        (\<lambda>_ st2. thenS (saveNewPubkeys e block st2)
           (\<lambda>_ st3. thenS (saveKeyUpdates e block st3)
              (\<lambda>_ st4. thenS (Inr (), removeMemberships e block (saveLinks block newLinks st4))
                 (\<lambda>_ st5. thenS (computeObsoleteLinks e block st5)
                    (\<lambda>_ st6. thenS (updateAvailableKeyMaterials e block st6)
                       (\<lambda>_ st7. (Inr block, st7))))))) = (r1, s1')"
    show "blocks s1' = ?bs"
    proof (rule thenS_blocks [OF t1])
      show "blocks (snd (updateMembers block s1)) = ?bs"
        using updateMembers_blocks [of block s1] b1 by (cases "updateMembers block s1") auto
    next
      fix x2 s2 r2 s2'
      assume b2: "blocks s2 = ?bs"
        and t2: "thenS (saveNewPubkeys e block s2)
           (\<lambda>_ st3. thenS (saveKeyUpdates e block st3)
              (\<lambda>_ st4. thenS (Inr (), removeMemberships e block (saveLinks block newLinks st4))
                 (\<lambda>_ st5. thenS (computeObsoleteLinks e block st5)
                    (\<lambda>_ st6. thenS (updateAvailableKeyMaterials e block st6)
                       (\<lambda>_ st7. (Inr block, st7)))))) = (r2, s2')"
      show "blocks s2' = ?bs"
      proof (rule thenS_blocks [OF t2])
        show "blocks (snd (saveNewPubkeys e block s2)) = ?bs"
          using saveNewPubkeys_blocks [of e block s2] b2 by (cases "saveNewPubkeys e block s2") auto
      next
        fix x3 s3 r3 s3'
        assume b3: "blocks s3 = ?bs"
          and t3: "thenS (saveKeyUpdates e block s3)
              (\<lambda>_ st4. thenS (Inr (), removeMemberships e block (saveLinks block newLinks st4))
                 (\<lambda>_ st5. thenS (computeObsoleteLinks e block st5)
                    (\<lambda>_ st6. thenS (updateAvailableKeyMaterials e block st6)
                       (\<lambda>_ st7. (Inr block, st7))))) = (r3, s3')"
        show "blocks s3' = ?bs"
        proof (rule thenS_blocks [OF t3])
          show "blocks (snd (saveKeyUpdates e block s3)) = ?bs"
            using saveKeyUpdates_blocks [of e block s3] b3 by (cases "saveKeyUpdates e block s3") auto
        next
          fix x4 s4 r4 s4'
          assume b4: "blocks s4 = ?bs"
            and t4: "thenS (Inr (), removeMemberships e block (saveLinks block newLinks s4))
                 (\<lambda>_ st5. thenS (computeObsoleteLinks e block st5)
                    (\<lambda>_ st6. thenS (updateAvailableKeyMaterials e block st6)
                       (\<lambda>_ st7. (Inr block, st7)))) = (r4, s4')"
          show "blocks s4' = ?bs"
          proof (rule thenS_blocks [OF t4])
            show "blocks (snd (Inr (), removeMemberships e block (saveLinks block newLinks s4))) = ?bs"
              using b4 by (simp add: removeMemberships_def saveLinks_def)
          next
            fix x5 s5 r5 s5'
            assume b5: "blocks s5 = ?bs"
              and t5: "thenS (computeObsoleteLinks e block s5)
                    (\<lambda>_ st6. thenS (updateAvailableKeyMaterials e block st6)
                       (\<lambda>_ st7. (Inr block, st7))) = (r5, s5')"
            show "blocks s5' = ?bs"
            proof (rule thenS_blocks [OF t5])
              show "blocks (snd (computeObsoleteLinks e block s5)) = ?bs"
                using computeObsoleteLinks_blocks [of e block s5] b5
                by (cases "computeObsoleteLinks e block s5") auto
            next
              fix x6 s6 r6 s6'
              assume b6: "blocks s6 = ?bs"
                and t6: "thenS (updateAvailableKeyMaterials e block s6)
                       (\<lambda>_ st7. (Inr block, st7)) = (r6, s6')"
              show "blocks s6' = ?bs"
              proof (rule thenS_blocks [OF t6])
                show "blocks (snd (updateAvailableKeyMaterials e block s6)) = ?bs"
                  using updateAvailableKeyMaterials_blocks [of e block s6] b6
                  by (cases "updateAvailableKeyMaterials e block s6") auto
              next
                fix x7 s7 r7 s7'
                assume "blocks s7 = ?bs" "(Inr block, s7) = (r7, s7')"
                then show "blocks s7' = ?bs" by auto
              qed
            qed
          qed
        qed
      qed
    qed
  qed
qed

section \<open>Rejection changes nothing; a second submission (C7, C8)\<close>

lemma submit_accepted:
  assumes "submitKeyBlock e st block = (Inr b, st')"
  shows "\<exists>newLinks. validateKeyBlock e st block = Inr newLinks
           \<and> saveBlockData e block newLinks st = (Inr b, st')"
  using assms by (auto simp: submitKeyBlock_def split: sum.splits)

lemma validate_chaining:
  "validateKeyBlock e st block = Inr newLinks \<Longrightarrow> checkChaining (current (blocks st)) block = Inr ()"
  by (cases "checkChaining (current (blocks st)) block") (simp_all add: validateKeyBlock_def)

lemma chaining_above:
  assumes "checkChaining (current (blocks st)) block = Inr ()" "b \<in> set (blocks st)"
  shows "number b < number block"
proof (cases "current (blocks st)")
  case None
  with assms(2) show ?thesis by (simp add: current_None_iff)
next
  case (Some t)
  from assms(1) Some have "number t < number block"
    by (auto simp: checkChaining_def split: if_splits)
  moreover have "number b \<le> number t" using Some assms(2) by (rule current_max)
  ultimately show ?thesis by simp
qed

text \<open>
  C7, as the code has it. A keyblock that was accepted and applied is rejected when it is
  submitted again, whatever the clock and the collaborators then are, and the state stays
  as the first submission left it. The error is the one of a block that comes too late:
  the code has no error of its own for a block already seen.
\<close>

theorem resubmission_rejected_unchanged:
  assumes "submitKeyBlock e st block = (Inr b, st')"
  shows "submitKeyBlock e' st' block = (Inl TooLate, st')"
proof -
  from submit_accepted [OF assms] obtain newLinks where
    v: "validateKeyBlock e st block = Inr newLinks" and
    s: "saveBlockData e block newLinks st = (Inr b, st')" by blast
  have bl: "blocks st' = blocks st @ [block]" using s by (rule saveBlockData_blocks)
  have "current (blocks st @ [block]) = Some block"
    by (rule current_snoc) (rule chaining_above [OF validate_chaining [OF v]])
  then have "checkChaining (current (blocks st')) block = Inl TooLate"
    by (simp add: bl checkChaining_def)
  then show ?thesis by (rule submit_chaining_error)
qed

lemma failed_iff: "failed r \<longleftrightarrow> (\<exists>err. r = Inl err)"
  by (cases r) (simp_all add: failed_def)

lemma not_failed_iff: "\<not> failed r \<longleftrightarrow> (\<exists>x. r = Inr x)"
  by (cases r) (simp_all add: failed_def)

lemma validate_fails_iff:
  "someCheckFails e st block \<longleftrightarrow> (\<exists>err. validateKeyBlock e st block = Inl err)"
proof
  assume "someCheckFails e st block"
  then show "\<exists>err. validateKeyBlock e st block = Inl err"
    by (auto simp: someCheckFails_def failed_iff validateKeyBlock_def checkCoherence_def
        andThen_def Let_def split: sum.splits)
next
  assume "\<exists>err. validateKeyBlock e st block = Inl err"
  then obtain err where v: "validateKeyBlock e st block = Inl err" ..
  show "someCheckFails e st block"
  proof (rule ccontr)
    assume n: "\<not> someCheckFails e st block"
    then have c1: "checkChaining (current (blocks st)) block = Inr ()"
      and c2: "checkTimestamp e block = Inr ()"
      and c3: "checkProofOfWork (cfg e) st (current (blocks st)) block = Inr ()"
      and c4: "checkIssuer st block = Inr ()"
      and c7: "checkCommunityChanges e block = Inr ()"
      by (simp_all add: someCheckFails_def not_failed_iff)
    from n obtain newLinks where k: "andThen (checkKeychanges e st block) logLinks = Inr newLinks"
      by (cases "andThen (checkKeychanges e st block) logLinks") (simp_all add: someCheckFails_def)
    with n have c5: "checkWoTStability e st block newLinks = Inr ()"
      and c6: "checkKicked e st block newLinks = Inr ()"
      by (simp_all add: someCheckFails_def not_failed_iff)
    from k obtain raw where r: "checkKeychanges e st block = Inr raw" "logLinks raw = Inr newLinks"
      by (auto simp: andThen_eq_Inr)
    have "validateKeyBlock e st block = Inr newLinks"
      by (simp add: validateKeyBlock_def checkCoherence_def c1 c2 c3 c4 r c5 c6 c7)
    with v show False by simp
  qed
qed


section \<open>Links of newcomers (C4)\<close>

lemma forEachSeries_Inr:
  "forEachSeries f xs = Inr u \<Longrightarrow> x \<in> set xs \<Longrightarrow> f x = Inr ()"
proof (induction xs)
  case Nil
  then show ?case by simp
next
  case (Cons a xs)
  show ?case
  proof (cases "f a")
    case (Inl err)
    with Cons.prems show ?thesis by simp
  next
    case (Inr v)
    with Cons show ?thesis by auto
  qed
qed

lemma forEachSeries_Inl:
  "x \<in> set xs \<Longrightarrow> f x = Inl err \<Longrightarrow> \<exists>err'. forEachSeries f xs = Inl err'"
proof (induction xs)
  case Nil
  then show ?case by simp
next
  case (Cons a xs)
  show ?case
  proof (cases "f a")
    case (Inl err')
    then show ?thesis by simp
  next
    case (Inr v)
    with Cons show ?thesis by auto
  qed
qed

lemma checkHaveEnoughLinks_iff:
  "checkHaveEnoughLinks e st f newLinks = Inr () \<longleftrightarrow> sigQty (cfg e) \<le> linkCount st f newLinks"
  by (auto simp: checkHaveEnoughLinks_def Let_def)

lemma checkNewcomer_links:
  assumes "checkNewcomer e st block newLinks members f = Inr ()" "0 < number block"
  shows "sigQty (cfg e) \<le> linkCount st f newLinks"
proof (cases "checkHaveEnoughLinks e st f newLinks")
  case (Inl err)
  with assms show ?thesis by (simp add: checkNewcomer_def)
next
  case (Inr u)
  then show ?thesis by (simp add: checkHaveEnoughLinks_iff)
qed

lemma validate_coherence:
  assumes "validateKeyBlock e st block = Inr newLinks"
  shows "(\<exists>raw. checkKeychanges e st block = Inr raw \<and> logLinks raw = Inr newLinks)
       \<and> checkWoTStability e st block newLinks = Inr ()
       \<and> checkKicked e st block newLinks = Inr ()
       \<and> checkCommunityChanges e block = Inr ()"
proof -
  from assms have c: "checkCoherence e st block = Inr newLinks"
    by (auto simp: validateKeyBlock_def Let_def andThen_eq_Inr)
  then obtain raw nl where k: "checkKeychanges e st block = Inr raw" "logLinks raw = Inr nl"
    and r: "andThen (checkWoTStability e st block nl)
          (\<lambda>_. andThen (checkKicked e st block nl)
             (\<lambda>_. andThen (checkCommunityChanges e block) (\<lambda>_. Inr nl))) = Inr newLinks"
    by (auto simp: checkCoherence_def andThen_eq_Inr)
  from r have "nl = newLinks" by (auto simp: andThen_eq_Inr)
  with k r show ?thesis by (auto simp: andThen_eq_Inr)
qed

lemma submit_rejected_by:
  "validateKeyBlock e st block = Inl err \<Longrightarrow> submitKeyBlock e st block = (Inl err, st)"
  by (simp add: submitKeyBlock_def)

lemma coherence_error:
  assumes "checkCoherence e st block = Inl err"
  shows "\<exists>err'. submitKeyBlock e st block = (Inl err', st)"
proof (cases "validateKeyBlock e st block")
  case (Inl err')
  then show ?thesis by (auto dest: submit_rejected_by)
next
  case (Inr newLinks)
  then have "checkCoherence e st block = Inr newLinks"
    by (auto simp: validateKeyBlock_def Let_def andThen_eq_Inr)
  with assms show ?thesis by simp
qed

text \<open>
  C4, as the code has it. For every applied block whose number is above 0, every
  fingerprint added by a \<open>+\<close> entry of \<open>membersChanges\<close> has at least \<open>sigQty\<close> links when
  the block is validated: the stored links to it that are not marked obsolete plus the
  links of the keychanges of the block. The links are counted by \<open>checkHaveEnoughLinks\<close>,
  which passes a key with exactly \<open>sigQty\<close> links and fails one with \<open>sigQty - 1\<close>; a block
  above 0 that adds a key with fewer links does not pass \<open>checkWoTStability\<close> and is
  rejected with the state unchanged. The root block is exempt (lines 445 to 448), and the
  links that the block itself makes obsolete when it is applied are counted.
\<close>

theorem newcomers_have_enough_links:
  "(submitKeyBlock e st block = (Inr b, st') \<and> 0 < number block \<longrightarrow>
      (\<exists>newLinks. validateKeyBlock e st block = Inr newLinks
         \<and> (\<forall>f \<in> set (newcomersOf (membersChanges block)).
               sigQty (cfg e) \<le> linkCount st f newLinks)))
   \<and> (linkCount st f newLinks = sigQty (cfg e) \<longrightarrow>
        checkHaveEnoughLinks e st f newLinks = Inr ())
   \<and> (linkCount st f newLinks + 1 = sigQty (cfg e) \<longrightarrow>
        checkHaveEnoughLinks e st f newLinks
          = Inl (NotEnoughLinks f (linkCount st f newLinks) (sigQty (cfg e))))
   \<and> (0 < number block \<and> f \<in> set (newcomersOf (membersChanges block))
        \<and> linkCount st f newLinks < sigQty (cfg e) \<longrightarrow>
        (\<exists>err. checkWoTStability e st block newLinks = Inl err)
        \<and> (andThen (checkKeychanges e st block) logLinks = Inr newLinks \<longrightarrow>
             (\<exists>err. submitKeyBlock e st block = (Inl err, st))))"
proof (intro conjI impI)
  assume a: "submitKeyBlock e st block = (Inr b, st') \<and> 0 < number block"
  then obtain newLinks where v: "validateKeyBlock e st block = Inr newLinks"
    using submit_accepted by blast
  note c = validate_coherence [OF v]
  have "\<forall>f \<in> set (newcomersOf (membersChanges block)). sigQty (cfg e) \<le> linkCount st f newLinks"
  proof
    fix f assume f: "f \<in> set (newcomersOf (membersChanges block))"
    from c have "forEachSeries
        (checkNewcomer e st block newLinks
           (map k_fingerprint (getMembers (keys st)) @ newcomersOf (membersChanges block)))
        (newcomersOf (membersChanges block)) = Inr ()"
      by (simp add: checkWoTStability_def Let_def)
    from forEachSeries_Inr [OF this f] a show "sigQty (cfg e) \<le> linkCount st f newLinks"
      by (auto dest: checkNewcomer_links)
  qed
  with v show "\<exists>newLinks. validateKeyBlock e st block = Inr newLinks
         \<and> (\<forall>f \<in> set (newcomersOf (membersChanges block)).
               sigQty (cfg e) \<le> linkCount st f newLinks)"
    by blast
next
  assume "linkCount st f newLinks = sigQty (cfg e)"
  then show "checkHaveEnoughLinks e st f newLinks = Inr ()"
    by (simp add: checkHaveEnoughLinks_iff)
next
  assume "linkCount st f newLinks + 1 = sigQty (cfg e)"
  then show "checkHaveEnoughLinks e st f newLinks
          = Inl (NotEnoughLinks f (linkCount st f newLinks) (sigQty (cfg e)))"
    by (auto simp: checkHaveEnoughLinks_def Let_def)
next
  assume a: "0 < number block \<and> f \<in> set (newcomersOf (membersChanges block))
        \<and> linkCount st f newLinks < sigQty (cfg e)"
  then have "checkNewcomer e st block newLinks
      (map k_fingerprint (getMembers (keys st)) @ newcomersOf (membersChanges block)) f
      = Inl (NotEnoughLinks f (linkCount st f newLinks) (sigQty (cfg e)))"
    by (simp add: checkNewcomer_def checkHaveEnoughLinks_def Let_def)
  moreover from a have "f \<in> set (newcomersOf (membersChanges block))" by simp
  ultimately have "\<exists>err. forEachSeries
      (checkNewcomer e st block newLinks
         (map k_fingerprint (getMembers (keys st)) @ newcomersOf (membersChanges block)))
      (newcomersOf (membersChanges block)) = Inl err"
    by (rule forEachSeries_Inl [rotated])
  then show "\<exists>err. checkWoTStability e st block newLinks = Inl err"
    by (simp add: checkWoTStability_def Let_def)
next
  assume a: "0 < number block \<and> f \<in> set (newcomersOf (membersChanges block))
        \<and> linkCount st f newLinks < sigQty (cfg e)"
    and k: "andThen (checkKeychanges e st block) logLinks = Inr newLinks"
  from a have "checkNewcomer e st block newLinks
      (map k_fingerprint (getMembers (keys st)) @ newcomersOf (membersChanges block)) f
      = Inl (NotEnoughLinks f (linkCount st f newLinks) (sigQty (cfg e)))"
    by (simp add: checkNewcomer_def checkHaveEnoughLinks_def Let_def)
  moreover from a have "f \<in> set (newcomersOf (membersChanges block))" by simp
  ultimately have "\<exists>err. forEachSeries
      (checkNewcomer e st block newLinks
         (map k_fingerprint (getMembers (keys st)) @ newcomersOf (membersChanges block)))
      (newcomersOf (membersChanges block)) = Inl err"
    by (rule forEachSeries_Inl [rotated])
  then obtain err where "checkWoTStability e st block newLinks = Inl err"
    by (auto simp: checkWoTStability_def Let_def)
  with k have "checkCoherence e st block = Inl err"
    by (auto simp: checkCoherence_def andThen_eq_Inr)
  then show "\<exists>err. submitKeyBlock e st block = (Inl err, st)"
    by (rule coherence_error)
qed

section \<open>Kicked members (C5)\<close>

text \<open>
  Whenever a member is to be kicked, \<open>checkKicked\<close> throws: the second step of its
  waterfall gets the array of distanced keys where it expects the two results of the
  parallel tasks (line 574 gives \<open>next\<close> where \<open>computeObsoleteLinks\<close>, line 775, gives
  \<open>callback\<close>). No block is accepted then, with or without the \<open>-\<close> entry of the member.
\<close>

lemma checkKicked_throws:
  "getToBeKicked (keys st) \<noteq> [] \<Longrightarrow> checkKicked e st block newLinks = Inl TypeError"
  by (cases "getToBeKicked (keys st)")
    (simp_all add: checkKicked_def checkKickedKey_def checkKickedDecision_def Let_def)

lemma checkKicked_passes: "getToBeKicked (keys st) = [] \<Longrightarrow> checkKicked e st block newLinks = Inr ()"
  by (simp add: checkKicked_def)

text \<open>The second step alone, on the results it was written for, also differs from the rule
  of the specification: a member that is reached again but still lacks links, and that the
  block kicks, makes the block fail.\<close>

lemma checkKickedDecision_lacking_links:
  "(CHR ''-'' # k_fingerprint key) \<in> set changes \<Longrightarrow>
     checkKickedDecision changes key (Some []) (Some err)
       = Inl (NoMoreOutdistanced (k_fingerprint key))"
  by (simp add: checkKickedDecision_def)

section \<open>Changes of members (C6, C2)\<close>

lemma certifiers_of_type:
  assumes "checkKeychangesOfType e st block newKeys ty kcs acc = Inr newLinks"
    "kc \<in> set kcs" "kc_type kc = ty"
  shows "\<exists>certifiers. checkKeychange e st block kc newKeys = Inr certifiers"
  using assms
proof (induction kcs arbitrary: acc)
  case Nil
  then show ?case by simp
next
  case (Cons a kcs)
  show ?case
  proof (cases "kc = a")
    case True
    with Cons.prems show ?thesis
      by (cases "checkKeychange e st block a newKeys") (auto split: if_splits)
  next
    case False
    with Cons.prems have m: "kc \<in> set kcs" by simp
    from Cons.prems(1) obtain acc' where
      "checkKeychangesOfType e st block newKeys ty kcs acc' = Inr newLinks"
      by (cases "checkKeychange e st block a newKeys") (auto split: if_splits)
    from Cons.IH [OF this m Cons.prems(3)] show ?thesis .
  qed
qed

lemma checkKeychanges_newcomer:
  assumes "checkKeychanges e st block = Inr raw" "kc \<in> set (keysChanges block)"
    "kc_type kc = ''N''"
  shows "\<exists>m. kc_membership kc = Some m
           \<and> ms_membership (fromInline e (im_membership m) (im_signature m)) = ''IN''"
proof -
  from assms(1) obtain newKeys nl where
    "checkKeychangesOfType e st block newKeys ''N'' (keysChanges block) [] = Inr nl"
    by (auto simp: checkKeychanges_def andThen_eq_Inr)
  from certifiers_of_type [OF this assms(2,3)] obtain certifiers where
    "checkKeychange e st block kc newKeys = Inr certifiers" by blast
  with assms(3) show ?thesis
    by (auto simp: checkKeychange_def Let_def split: option.splits if_splits)
qed

lemma community_changes:
  assumes "checkCommunityChanges e block = Inr ()" "kc \<in> set (keysChanges block)"
    "kc_membership kc = Some m"
  shows "changeOf (ms_membership (fromInline e (im_membership m) (im_signature m)), kc_fingerprint kc)
           \<in> set (membersChanges block)"
proof -
  have "(ms_membership (fromInline e (im_membership m) (im_signature m)), kc_fingerprint kc)
      \<in> set (getMemberships e block)"
    using assms(2,3) by (force simp: getMemberships_def)
  with assms(1) show ?thesis
    by (auto simp: checkCommunityChanges_def split: if_splits)
qed

lemma community_changes_violated:
  assumes "kc \<in> set (keysChanges block)" "kc_membership kc = Some m"
    "changeOf (ms_membership (fromInline e (im_membership m) (im_signature m)), kc_fingerprint kc)
       \<notin> set (membersChanges block)"
  shows "checkCommunityChanges e block = Inl WrongMembersChanges"
proof -
  have "(ms_membership (fromInline e (im_membership m) (im_signature m)), kc_fingerprint kc)
      \<in> set (getMemberships e block)"
    using assms(1,2) by (force simp: getMemberships_def)
  with assms(3) show ?thesis
    by (auto simp: checkCommunityChanges_def)
qed

lemma validate_community_error:
  assumes "checkCommunityChanges e block = Inl err"
  shows "\<exists>err'. validateKeyBlock e st block = Inl err'"
proof -
  have "someCheckFails e st block" using assms by (simp add: someCheckFails_def failed_def)
  then show ?thesis by (simp add: validate_fails_iff)
qed

text \<open>
  C6, as the code has it. In every applied block each membership embedded in a keychange
  has its entry in \<open>membersChanges\<close>, \<open>+\<close> and the fingerprint of the keychange for a
  membership \<open>IN\<close> and \<open>-\<close> and the fingerprint otherwise; in particular every newcomer
  keychange carries a membership \<open>IN\<close> and has its \<open>+\<close> entry. A block with a membership
  that lacks its entry is rejected and the state stays as it was. The converse is not
  checked: no check asks that a \<open>+\<close> entry has a newcomer keychange.
\<close>

theorem memberships_have_their_change:
  "(submitKeyBlock e st block = (Inr b, st') \<longrightarrow>
      (\<forall>kc \<in> set (keysChanges block). \<forall>m. kc_membership kc = Some m \<longrightarrow>
            changeOf (ms_membership (fromInline e (im_membership m) (im_signature m)),
                      kc_fingerprint kc) \<in> set (membersChanges block))
       \<and> (\<forall>kc \<in> set (keysChanges block). kc_type kc = ''N'' \<longrightarrow>
            kc_membership kc \<noteq> None
            \<and> (CHR ''+'' # kc_fingerprint kc) \<in> set (membersChanges block)))
   \<and> ((\<exists>kc \<in> set (keysChanges block). \<exists>m. kc_membership kc = Some m
          \<and> changeOf (ms_membership (fromInline e (im_membership m) (im_signature m)),
                      kc_fingerprint kc) \<notin> set (membersChanges block)) \<longrightarrow>
        (\<exists>err. submitKeyBlock e st block = (Inl err, st)))"
proof (intro conjI impI)
  assume acc: "submitKeyBlock e st block = (Inr b, st')"
  from submit_accepted [OF acc] obtain newLinks where
    v: "validateKeyBlock e st block = Inr newLinks" by blast
  note c = validate_coherence [OF v]
  from c have cc: "checkCommunityChanges e block = Inr ()" by simp
  show "\<forall>kc \<in> set (keysChanges block). \<forall>m. kc_membership kc = Some m \<longrightarrow>
            changeOf (ms_membership (fromInline e (im_membership m) (im_signature m)),
                      kc_fingerprint kc) \<in> set (membersChanges block)"
    using community_changes [OF cc] by blast
  show "\<forall>kc \<in> set (keysChanges block). kc_type kc = ''N'' \<longrightarrow>
            kc_membership kc \<noteq> None
            \<and> (CHR ''+'' # kc_fingerprint kc) \<in> set (membersChanges block)"
  proof (intro ballI impI)
    fix kc assume kc: "kc \<in> set (keysChanges block)" "kc_type kc = ''N''"
    from c obtain raw where k: "checkKeychanges e st block = Inr raw" by blast
    from checkKeychanges_newcomer [OF k kc] obtain m where
      m: "kc_membership kc = Some m"
        "ms_membership (fromInline e (im_membership m) (im_signature m)) = ''IN''" by blast
    from community_changes [OF cc kc(1) m(1)] m(2)
    show "kc_membership kc \<noteq> None \<and> (CHR ''+'' # kc_fingerprint kc) \<in> set (membersChanges block)"
      using m(1) by (simp add: changeOf_def)
  qed
next
  assume "\<exists>kc \<in> set (keysChanges block). \<exists>m. kc_membership kc = Some m
          \<and> changeOf (ms_membership (fromInline e (im_membership m) (im_signature m)),
                      kc_fingerprint kc) \<notin> set (membersChanges block)"
  then have "checkCommunityChanges e block = Inl WrongMembersChanges"
    by (auto dest: community_changes_violated)
  from validate_community_error [OF this] obtain err where
    "validateKeyBlock e st block = Inl err" by blast
  then have "submitKeyBlock e st block = (Inl err, st)" by (rule submit_rejected_by)
  then show "\<exists>err. submitKeyBlock e st block = (Inl err, st)" ..
qed

lemma certifiersOf_cong:
  "(\<And>c. c \<in> set cs \<Longrightarrow> f c = g c) \<Longrightarrow> certifiersOf f cs = certifiersOf g cs"
  by (induction cs) (auto split: sum.splits)

lemma checkKeychange_root_count:
  "checkKeychange e st (block\<lparr>membersRoot := r, membersCount := n\<rparr>) kc newKeys
     = checkKeychange e st block kc newKeys"
  by (simp add: checkKeychange_def)

lemma checkKeychangesOfType_root_count:
  "checkKeychangesOfType e st (block\<lparr>membersRoot := r, membersCount := n\<rparr>) newKeys ty kcs acc
     = checkKeychangesOfType e st block newKeys ty kcs acc"
  by (induction kcs arbitrary: acc) (auto simp: checkKeychange_root_count split: sum.splits)

text \<open>
  No check reads \<open>membersRoot\<close> or \<open>membersCount\<close> of the candidate: a block is accepted
  or rejected whatever the two fields hold, although the comment of line 236 announces
  that root and count are checked.
\<close>

lemma validation_ignores_root_and_count:
  "validateKeyBlock e st (block\<lparr>membersRoot := r, membersCount := n\<rparr>) = validateKeyBlock e st block"
proof -
  let ?b = "block\<lparr>membersRoot := r, membersCount := n\<rparr>"
  have k: "checkKeychanges e st ?b = checkKeychanges e st block"
    by (simp add: checkKeychanges_def checkKeychangesOfType_root_count)
  have n: "checkNewcomer e st ?b = checkNewcomer e st block"
    by (intro ext) (simp add: checkNewcomer_def)
  have w: "checkWoTStability e st ?b = checkWoTStability e st block"
    by (intro ext) (simp add: checkWoTStability_def n)
  have kk: "checkKickedKey e st ?b = checkKickedKey e st block"
    by (intro ext) (simp add: checkKickedKey_def)
  have ki: "checkKicked e st ?b = checkKicked e st block"
    by (intro ext) (simp add: checkKicked_def kk)
  have m: "checkCommunityChanges e ?b = checkCommunityChanges e block"
    by (simp add: checkCommunityChanges_def getMemberships_def)
  have co: "checkCoherence e st ?b = checkCoherence e st block"
    by (simp add: checkCoherence_def k w ki m)
  have ch: "checkChaining (current (blocks st)) ?b = checkChaining (current (blocks st)) block"
    by (cases "current (blocks st)") (simp_all add: checkChaining_def)
  have ts: "checkTimestamp e ?b = checkTimestamp e block"
    by (simp add: checkTimestamp_def)
  have pw: "checkProofOfWork (cfg e) st (current (blocks st)) ?b
      = checkProofOfWork (cfg e) st (current (blocks st)) block"
    by (simp add: checkProofOfWork_def cong: if_cong)
  have iss: "checkIssuer st ?b = checkIssuer st block"
    by (simp add: checkIssuer_def)
  show ?thesis
    by (simp add: validateKeyBlock_def co ch ts pw iss)
qed

section \<open>The proof-of-work search (C9)\<close>

lemma proveIteration_state:
  "p_pow (fst (proveIteration e r i s))
     = hashOf e (getRaw e (p_block (fst (proveIteration e r i s))) @ p_sig (fst (proveIteration e r i s)))"
  by (simp add: proveIteration_def Let_def)

lemma proveIteration_signature:
  "signature (p_block (fst (proveIteration e r i s))) = signature (p_block s)"
  by (simp add: proveIteration_def Let_def)

text \<open>The loop leaves the signature of the block as it is; the block that is handed over is
  the block of the last iteration with the signature set. So the raw text that was hashed
  is the raw text of that block with its former signature.\<close>

lemma proveLoop_proved:
  "matchZeros z (p_pow s) \<longrightarrow> z \<le> leadingZeros (hashOf e (getRaw e (p_block s) @ p_sig s))
     \<Longrightarrow> signature (p_block s) = sig0
     \<Longrightarrow> Proved b \<in> set (proveLoop e r z fuel i s)
     \<Longrightarrow> z \<le> leadingZeros (hashOf e (getRaw e (b\<lparr>signature := sig0\<rparr>) @ signature b))"
proof (induction fuel arbitrary: i s)
  case 0
  then show ?case by simp
next
  case (Suc fuel)
  show ?case
  proof (cases "matchZeros z (p_pow s)")
    case True
    with Suc.prems have b: "b = (p_block s)\<lparr>signature := p_sig s\<rparr>"
      and z: "z \<le> leadingZeros (hashOf e (getRaw e (p_block s) @ p_sig s))" by simp_all
    from b Suc.prems(2) have "b\<lparr>signature := sig0\<rparr> = p_block s" by simp
    with z b show ?thesis by simp
  next
    case False
    obtain s' cancel where it: "proveIteration e r i s = (s', cancel)"
      by (cases "proveIteration e r i s")
    from proveIteration_state [of e r i s] it
    have "p_pow s' = hashOf e (getRaw e (p_block s') @ p_sig s')" by simp
    then have inv: "matchZeros z (p_pow s') \<longrightarrow>
        z \<le> leadingZeros (hashOf e (getRaw e (p_block s') @ p_sig s'))"
      by (simp add: matchZeros_iff)
    from proveIteration_signature [of e r i s] it Suc.prems(2)
    have sg: "signature (p_block s') = sig0" by simp
    from Suc.prems(3) False it have "Proved b \<in> set (proveLoop e r z fuel (Suc i) s')"
      by (auto split: if_splits)
    from Suc.IH [OF inv sg this] show ?thesis .
  qed
qed

text \<open>
  C9. Every block that \<open>prove\<close> hands to its callback carries a signature such that the hash
  of the raw text that was signed, followed by the signature, has at least \<open>nbZeros\<close>
  leading zeros; the raw text that was signed is the raw text of the block before its
  signature was set, and it is the raw text of the block itself where the raw text of a
  block does not depend on its signature. Every iteration of the search sets the timestamp
  of the block to the clock, with the nonce reset to 0 when the clock differs from the
  timestamp of the block and incremented when it does not (a nonce below \<open>2^53\<close> in
  magnitude, which a JavaScript number counts exactly).
\<close>

theorem prove_gives_proof_of_work:
  "(\<forall>b. Proved b \<in> set (prove e r block nbZeros fuel) \<longrightarrow>
       nbZeros \<le> leadingZeros
         (hashOf e (getRaw e (b\<lparr>signature := signature block\<rparr>) @ signature b)))
   \<and> ((\<forall>b s. getRaw e (b\<lparr>signature := s\<rparr>) = getRaw e b) \<longrightarrow>
        (\<forall>b. Proved b \<in> set (prove e r block nbZeros fuel) \<longrightarrow>
           nbZeros \<le> leadingZeros (hashOf e (getRaw e b @ signature b))))
   \<and> timestamp (p_block (fst (proveIteration e r i s))) = clockAt r i
   \<and> (clockAt r i \<noteq> timestamp (p_block s) \<longrightarrow>
        nonce (p_block (fst (proveIteration e r i s))) = 0)
   \<and> (clockAt r i = timestamp (p_block s) \<and> \<bar>nonce (p_block s)\<bar> < 2 ^ 53 \<longrightarrow>
        nonce (p_block (fst (proveIteration e r i s))) = nonce (p_block s) + 1)"
proof -
  have signed: "nbZeros \<le> leadingZeros
         (hashOf e (getRaw e (b\<lparr>signature := signature block\<rparr>) @ signature b))"
    if "Proved b \<in> set (prove e r block nbZeros fuel)" for b
  proof -
    let ?s = "\<lparr>p_block = block, p_pow = [], p_sig = [], p_raw = [], p_testsCount = 0\<rparr>"
    from that have p: "Proved b \<in> set (proveLoop e r nbZeros fuel 0 ?s)"
      by (simp add: prove_def)
    have inv: "matchZeros nbZeros (p_pow ?s) \<longrightarrow>
        nbZeros \<le> leadingZeros (hashOf e (getRaw e (p_block ?s) @ p_sig ?s))"
      by (simp add: matchZeros_iff leadingZeros_def)
    have sg: "signature (p_block ?s) = signature block" by simp
    from proveLoop_proved [OF inv sg p] show ?thesis .
  qed
  have unsigned: "\<forall>b. Proved b \<in> set (prove e r block nbZeros fuel) \<longrightarrow>
           nbZeros \<le> leadingZeros (hashOf e (getRaw e b @ signature b))"
    if raw: "\<forall>b s. getRaw e (b\<lparr>signature := s\<rparr>) = getRaw e b"
  proof (intro allI impI)
    fix b assume "Proved b \<in> set (prove e r block nbZeros fuel)"
    from signed [OF this] raw
    show "nbZeros \<le> leadingZeros (hashOf e (getRaw e b @ signature b))" by simp
  qed
  have ts: "timestamp (p_block (fst (proveIteration e r i s))) = clockAt r i"
    by (simp add: proveIteration_def Let_def)
  have reset: "nonce (p_block (fst (proveIteration e r i s))) = 0"
    if "clockAt r i \<noteq> timestamp (p_block s)"
    using that by (simp add: proveIteration_def Let_def)
  have incr: "nonce (p_block (fst (proveIteration e r i s))) = nonce (p_block s) + 1"
    if a: "clockAt r i = timestamp (p_block s) \<and> \<bar>nonce (p_block s)\<bar> < 2 ^ 53"
  proof -
    from a have "\<bar>nonce (p_block s) + 1\<bar> \<le> 2 ^ 53" by linarith
    then have "fl_int (nonce (p_block s) + 1) = nonce (p_block s) + 1" by (rule fl_int_small)
    with a show ?thesis by (simp add: proveIteration_def Let_def)
  qed
  from signed unsigned ts reset incr show ?thesis by blast
qed

section \<open>Submission of a membership (C10)\<close>


section \<open>The sample blocks, submitted\<close>

lemma saveBlockData_steps:
  assumes "updateMembers block (st\<lparr>blocks := blocks st @ [block]\<rparr>) = (Inr (), s2)"
    and "saveNewPubkeys e block s2 = (Inr (), s3)"
    and "saveKeyUpdates e block s3 = (Inr (), s4)"
    and "computeObsoleteLinks e block (removeMemberships e block (saveLinks block newLinks s4))
           = (Inr (), s6)"
    and "updateAvailableKeyMaterials e block s6 = (Inr (), s7)"
  shows "saveBlockData e block newLinks st = (Inr block, s7)"
  by (simp add: saveBlockData_def assms)

lemma submit_steps:
  assumes "validateKeyBlock e st block = Inr newLinks"
    and "saveBlockData e block newLinks st = (Inr block, st')"
  shows "submitKeyBlock e st block = (Inr block, st')"
  by (simp add: submitKeyBlock_def assms)

lemma submit_rejected:
  assumes "validateKeyBlock e st block = Inl err"
  shows "submitKeyBlock e st block = (Inl err, st)"
  by (simp add: submitKeyBlock_def assms)

subsection \<open>The root block of A and B\<close>

lemma validate_root2:
  "validateKeyBlock sample_env sample_store0 sample_root2 = Inr [(fprA, [fprB]), (fprB, [fprA])]"
  by (simp add: validateKeyBlock_def check_defs sample_fields fpr_facts cong: eval_congs)

lemma save_root2:
  "saveBlockData sample_env sample_root2 [(fprA, [fprB]), (fprB, [fprA])] sample_store0
     = (Inr sample_root2, sample_store_kick)"
  apply (rule saveBlockData_steps)
      apply (simp add: save_defs sample_fields fpr_facts cong: eval_congs)
     apply (simp add: save_defs sample_fields fpr_facts cong: eval_congs)
    apply (simp add: save_defs sample_fields fpr_facts cong: eval_congs)
   apply (simp add: save_defs sample_fields fpr_facts cong: eval_congs)
  apply (simp add: save_defs sample_fields fpr_facts sample_store_kick_def sample_store0_def
      sample_link_def sample_trusted_def cong: eval_congs)
  done

lemma submit_root2:
  "submitKeyBlock sample_env sample_store0 sample_root2 = (Inr sample_root2, sample_store_kick)"
  by (rule submit_steps [OF validate_root2 save_root2])

lemma sample_store_kick_fields:
  "blocks sample_store_kick = [sample_root2]"
  "keys sample_store_kick =
     [\<lparr>k_fingerprint = fprA, k_member = True, k_kick = True, k_distanced = []\<rparr>,
      \<lparr>k_fingerprint = fprB, k_member = True, k_kick = True, k_distanced = []\<rparr>]"
  "links sample_store_kick =
     [sample_link (CHR ''B'') (CHR ''A'') 1400000000, sample_link (CHR ''A'') (CHR ''B'') 1400000000]"
  "trustedKeys sample_store_kick = [sample_trusted (CHR ''A''), sample_trusted (CHR ''B'')]"
  "memberships sample_store_kick = []"
  "pubkeys sample_store_kick =
     [sample_pubkey (CHR ''A''), sample_pubkey (CHR ''B''), sample_pubkey (CHR ''C''),
      sample_pubkey (CHR ''D'')]"
  by (simp_all add: sample_store_kick_def)

lemma sample_link_fields:
  "l_source (sample_link a b ts) = sample_fpr a" "l_target (sample_link a b ts) = sample_fpr b"
  "l_timestamp (sample_link a b ts) = ts" "l_obsolete (sample_link a b ts) = False"
  by (simp_all add: sample_link_def)

lemma sample_trusted_fields:
  "tk_fingerprint (sample_trusted c) = sample_fpr c"
  "tk_keyID (sample_trusted c) = drop 24 (sample_fpr c)"
  "tk_uid (sample_trusted c) = ''udid2;c;'' @ [c]" "tk_packets (sample_trusted c) = ''PKT-'' @ [c]"
  by (simp_all add: sample_trusted_def)

subsection \<open>The block that kicks A and B\<close>

lemma keychanges_kick_block:
  "checkKeychanges sample_env sample_store_kick sample_kick_block = Inr []"
  by (simp add: checkKeychanges_def sample_kick_block_def sample_fields)

lemma validate_kick_block:
  "validateKeyBlock sample_env sample_store_kick sample_kick_block = Inl TypeError"
  by (simp add: validateKeyBlock_def check_defs sample_kick_block_def sample_fields
      sample_store_kick_fields fpr_facts cong: eval_congs)

lemma submit_kick_block:
  "submitKeyBlock sample_env sample_store_kick sample_kick_block = (Inl TypeError, sample_store_kick)"
  by (rule submit_rejected [OF validate_kick_block])

subsection \<open>The root block of A and B with a wrong count\<close>

lemma sample_wrong_root_fields:
  "number sample_wrong_root = 0" "timestamp sample_wrong_root = 1400000000"
  "issuer sample_wrong_root = fprA" "membersCount sample_wrong_root = 7"
  "membersRoot sample_wrong_root = ''WRONG''"
  "membersChanges sample_wrong_root = [CHR ''+'' # fprA, CHR ''+'' # fprB]"
  "keysChanges sample_wrong_root = [sample_newcomer (CHR ''A'') ''B'', sample_newcomer (CHR ''B'') ''A'']"
  by (simp_all add: sample_wrong_root_def sample_root2_fields)

lemma save_wrong_root:
  "saveBlockData sample_env sample_wrong_root [(fprA, [fprB]), (fprB, [fprA])] sample_store0
     = (Inr sample_wrong_root, sample_store_kick\<lparr>blocks := [sample_wrong_root]\<rparr>)"
  apply (rule saveBlockData_steps)
      apply (simp add: save_defs sample_fields sample_wrong_root_fields fpr_facts cong: eval_congs)
     apply (simp add: save_defs sample_fields sample_wrong_root_fields fpr_facts cong: eval_congs)
    apply (simp add: save_defs sample_fields sample_wrong_root_fields fpr_facts cong: eval_congs)
   apply (simp add: save_defs sample_fields sample_wrong_root_fields fpr_facts cong: eval_congs)
  apply (simp add: save_defs sample_fields sample_wrong_root_fields fpr_facts sample_store_kick_def
      sample_store0_def sample_link_def sample_trusted_def cong: eval_congs)
  done

subsection \<open>The root block of A, B and C\<close>

lemma validate_root3:
  "validateKeyBlock sample_env sample_store0 sample_root3
     = Inr [(fprA, [fprB, fprC]), (fprB, [fprA, fprC]), (fprC, [fprA, fprB])]"
  by (simp add: validateKeyBlock_def check_defs sample_fields fpr_facts cong: eval_congs)

lemma save_root3:
  "saveBlockData sample_env sample_root3
     [(fprA, [fprB, fprC]), (fprB, [fprA, fprC]), (fprC, [fprA, fprB])] sample_store0
     = (Inr sample_root3, sample_store_root3)"
  apply (rule saveBlockData_steps)
      apply (simp add: save_defs sample_fields fpr_facts cong: eval_congs)
     apply (simp add: save_defs sample_fields fpr_facts cong: eval_congs)
    apply (simp add: save_defs sample_fields fpr_facts cong: eval_congs)
   apply (simp add: save_defs sample_fields fpr_facts cong: eval_congs)
  apply (simp add: save_defs sample_fields fpr_facts sample_store_root3_def sample_store0_def
      sample_link_def sample_trusted_def cong: eval_congs)
  done

lemma submit_root3:
  "submitKeyBlock sample_env sample_store0 sample_root3 = (Inr sample_root3, sample_store_root3)"
  by (rule submit_steps [OF validate_root3 save_root3])

lemma sample_store_root3_fields:
  "blocks sample_store_root3 = [sample_root3]"
  "keys sample_store_root3 =
     [\<lparr>k_fingerprint = fprA, k_member = True, k_kick = False, k_distanced = []\<rparr>,
      \<lparr>k_fingerprint = fprB, k_member = True, k_kick = False, k_distanced = []\<rparr>,
      \<lparr>k_fingerprint = fprC, k_member = True, k_kick = False, k_distanced = []\<rparr>]"
  "links sample_store_root3 =
     [sample_link (CHR ''B'') (CHR ''A'') 1400000000, sample_link (CHR ''C'') (CHR ''A'') 1400000000,
      sample_link (CHR ''A'') (CHR ''B'') 1400000000, sample_link (CHR ''C'') (CHR ''B'') 1400000000,
      sample_link (CHR ''A'') (CHR ''C'') 1400000000, sample_link (CHR ''B'') (CHR ''C'') 1400000000]"
  "trustedKeys sample_store_root3 =
     [sample_trusted (CHR ''A''), sample_trusted (CHR ''B''), sample_trusted (CHR ''C'')]"
  "memberships sample_store_root3 = []"
  "pubkeys sample_store_root3 =
     [sample_pubkey (CHR ''A''), sample_pubkey (CHR ''B''), sample_pubkey (CHR ''C''),
      sample_pubkey (CHR ''D'')]"
  by (simp_all add: sample_store_root3_def)

lemmas store_fields = sample_store_kick_fields sample_store_root3_fields sample_link_fields
  sample_trusted_fields

subsection \<open>C leaves and comes back\<close>

lemma validate_leave:
  "validateKeyBlock sample_env sample_store_root3 sample_leave = Inr []"
  by (simp add: validateKeyBlock_def check_defs sample_leave_def sample_fields store_fields
      fpr_facts cong: eval_congs)

lemma save_leave:
  "saveBlockData sample_env sample_leave [] sample_store_root3 = (Inr sample_leave, sample_store_exC)"
  apply (rule saveBlockData_steps)
      apply (simp add: save_defs sample_leave_def sample_fields store_fields fpr_facts
      cong: eval_congs)
     apply (simp add: save_defs sample_leave_def sample_fields store_fields fpr_facts
      cong: eval_congs)
    apply (simp add: save_defs sample_leave_def sample_fields store_fields fpr_facts
      cong: eval_congs)
   apply (simp add: save_defs sample_leave_def sample_fields store_fields fpr_facts
      cong: eval_congs)
  apply (simp add: save_defs sample_leave_def sample_fields store_fields fpr_facts
      sample_store_exC_def cong: eval_congs)
  done

lemma submit_leave:
  "submitKeyBlock sample_env sample_store_root3 sample_leave = (Inr sample_leave, sample_store_exC)"
  by (rule submit_steps [OF validate_leave save_leave])

lemma sample_store_exC_fields:
  "blocks sample_store_exC = [sample_root3, sample_leave]"
  "keys sample_store_exC =
     [\<lparr>k_fingerprint = fprA, k_member = True, k_kick = False, k_distanced = []\<rparr>,
      \<lparr>k_fingerprint = fprB, k_member = True, k_kick = False, k_distanced = []\<rparr>,
      \<lparr>k_fingerprint = fprC, k_member = False, k_kick = False, k_distanced = []\<rparr>]"
  "links sample_store_exC = links sample_store_root3"
  "trustedKeys sample_store_exC = trustedKeys sample_store_root3"
  "memberships sample_store_exC = []"
  "pubkeys sample_store_exC = pubkeys sample_store_root3"
  by (simp_all add: sample_store_exC_def sample_store_root3_fields)

lemma sample_leave_fields:
  "number sample_leave = 1" "hash sample_leave = ''0D77F1''" "issuer sample_leave = fprA"
  by (simp_all add: sample_leave_def sample_fields)

lemma validate_rejoin:
  "validateKeyBlock sample_env sample_store_exC sample_rejoin = Inr []"
  by (simp add: validateKeyBlock_def check_defs sample_rejoin_def sample_leave_fields
      sample_fields sample_store_exC_fields store_fields fpr_facts cong: eval_congs)

lemma save_rejoin:
  "\<exists>st'. saveBlockData sample_env sample_rejoin [] sample_store_exC = (Inr sample_rejoin, st')"
  apply (rule exI)
  apply (rule saveBlockData_steps)
      apply (simp add: save_defs sample_rejoin_def sample_fields sample_store_exC_fields
      store_fields fpr_facts cong: eval_congs)
     apply (simp add: save_defs sample_rejoin_def sample_fields sample_store_exC_fields
      store_fields fpr_facts cong: eval_congs)
    apply (simp add: save_defs sample_rejoin_def sample_fields sample_store_exC_fields
      store_fields fpr_facts cong: eval_congs)
   apply (simp add: save_defs sample_rejoin_def sample_fields sample_store_exC_fields
      store_fields fpr_facts cong: eval_congs)
  apply (simp add: save_defs sample_rejoin_def sample_fields sample_store_exC_fields
      store_fields fpr_facts cong: eval_congs)
  done

lemma submit_rejoin:
  "fst (submitKeyBlock sample_env sample_store_exC sample_rejoin) = Inr sample_rejoin"
  using save_rejoin by (auto simp: submitKeyBlock_def validate_rejoin)

subsection \<open>D joins\<close>

lemma validate_join:
  "validateKeyBlock sample_env sample_store_root3 sample_join
     = Inr [(fprD, [fprA, fprB]), (fprA, [fprD])]"
  by (simp add: validateKeyBlock_def check_defs sample_join_def sample_fields store_fields
      fpr_facts cong: eval_congs)

lemma save_join:
  "\<exists>st'. saveBlockData sample_env sample_join [(fprD, [fprA, fprB]), (fprA, [fprD])]
      sample_store_root3 = (Inr sample_join, st')"
  apply (rule exI)
  apply (rule saveBlockData_steps)
      apply (simp add: save_defs sample_join_def sample_fields store_fields fpr_facts
      cong: eval_congs)
     apply (simp add: save_defs sample_join_def sample_fields store_fields fpr_facts
      cong: eval_congs)
    apply (simp add: save_defs sample_join_def sample_fields store_fields fpr_facts
      cong: eval_congs)
   apply (simp add: save_defs sample_join_def sample_fields store_fields fpr_facts
      cong: eval_congs)
  apply (simp add: save_defs sample_join_def sample_fields store_fields fpr_facts
      cong: eval_congs)
  done

lemma submit_join:
  "fst (submitKeyBlock sample_env sample_store_root3 sample_join) = Inr sample_join"
  using save_join by (auto simp: submitKeyBlock_def validate_join)

lemma keychanges_join_short:
  "checkKeychanges sample_env sample_store_root3 sample_join_short
     = Inr [(fprD, Some [fprA]), (fprA, Some [fprD])]"
  by (simp add: check_defs sample_join_short_def sample_fields store_fields fpr_facts
      cong: eval_congs)


subsection \<open>C comes back late\<close>

lemma sample_late_env_fields:
  "cfg sample_late_env = sample_conf"
  "checkWithLocalTimestamp sample_late_env = True"
  "now sample_late_env = 1402629810"
  "isOver3StepsOfAMember sample_late_env ls f ks = unreached (linkPairs ls []) f ks"
  "isStillOver3Steps sample_late_env ls f ks newLinks = unreached (linkPairs ls newLinks) f ks"
  "getNewPubkeys sample_late_env b = getNewPubkeys sample_env b"
  "getKeyUpdates sample_late_env b = getKeyUpdates sample_env b"
  "fromInline sample_late_env = fromInline sample_env"
  "updateAvailableKeyMaterial sample_late_env pks f = Inr pks"
  by (simp_all add: sample_late_env_def sample_env_def)

lemma sample_late_rejoin_fields:
  "number sample_late_rejoin = 2" "previousHash sample_late_rejoin = ''0D77F1''"
  "previousIssuer sample_late_rejoin = fprA" "timestamp sample_late_rejoin = 1402629805"
  "issuer sample_late_rejoin = fprA" "hash sample_late_rejoin = ''0D77F1''"
  "membersChanges sample_late_rejoin = [CHR ''+'' # fprC]" "keysChanges sample_late_rejoin = []"
  by (simp_all add: sample_late_rejoin_def sample_rejoin_def sample_leave_fields sample_next_fields)

lemma validate_late_rejoin:
  "validateKeyBlock sample_late_env sample_store_exC sample_late_rejoin = Inr []"
  by (simp add: validateKeyBlock_def check_defs sample_late_rejoin_fields sample_late_env_fields
      sample_leave_fields sample_fields sample_store_exC_fields store_fields fpr_facts
      cong: eval_congs)

lemma save_late_rejoin:
  "saveBlockData sample_late_env sample_late_rejoin [] sample_store_exC
     = (Inr sample_late_rejoin, sample_store_late)"
  apply (rule saveBlockData_steps)
      apply (simp add: save_defs sample_late_rejoin_fields sample_late_env_fields sample_fields
      sample_store_exC_fields store_fields fpr_facts cong: eval_congs)
     apply (simp add: save_defs sample_late_rejoin_fields sample_late_env_fields sample_fields
      sample_store_exC_fields store_fields fpr_facts cong: eval_congs)
    apply (simp add: save_defs sample_late_rejoin_fields sample_late_env_fields sample_fields
      sample_store_exC_fields store_fields fpr_facts cong: eval_congs)
   apply (simp add: save_defs sample_late_rejoin_fields sample_late_env_fields sample_fields
      sample_store_exC_fields store_fields fpr_facts cong: eval_congs)
  apply (simp add: save_defs sample_late_rejoin_fields sample_late_env_fields sample_fields
      sample_store_exC_fields store_fields fpr_facts sample_store_late_def sample_store_exC_def
      sample_store_root3_def sample_link_def cong: eval_congs)
  done

lemma submit_late_rejoin:
  "submitKeyBlock sample_late_env sample_store_exC sample_late_rejoin
     = (Inr sample_late_rejoin, sample_store_late)"
  by (rule submit_steps [OF validate_late_rejoin save_late_rejoin])

lemma late_links_obsolete: "currentValidLinks (links sample_store_late) fprC = []"
  by (simp add: currentValidLinks_def sample_store_late_def sample_store_root3_def)

section \<open>The rules on the sample blocks\<close>

subsection \<open>Root and count of the members (C2)\<close>

lemma validate_wrong_root:
  "validateKeyBlock sample_env sample_store0 sample_wrong_root
     = Inr [(fprA, [fprB]), (fprB, [fprA])]"
  by (simp add: sample_wrong_root_def validation_ignores_root_and_count validate_root2)

text \<open>
  C2 fails on the code, at this input: on the empty store, the root block of A and B with
  \<open>membersCount = 7\<close> and \<open>membersRoot = WRONG\<close>, which is no SHA-1 digest. The block is
  accepted and applied; its changes of members give the two members A and B, and these are
  the members of the store after it. The comment of line 236 announces a check of root and
  count that \<open>checkCommunityChanges\<close> does not make.
\<close>

theorem membersCount_not_checked:
  "submitKeyBlock sample_env sample_store0 sample_wrong_root
     = (Inr sample_wrong_root, sample_store_kick\<lparr>blocks := [sample_wrong_root]\<rparr>)
   \<and> membersRoot sample_wrong_root = ''WRONG''
   \<and> membersCount sample_wrong_root = 7
   \<and> membersChanges sample_wrong_root = [CHR ''+'' # fprA, CHR ''+'' # fprB]
   \<and> map k_fingerprint (getMembers (keys (sample_store_kick\<lparr>blocks := [sample_wrong_root]\<rparr>)))
       = [fprA, fprB]"
proof -
  have "submitKeyBlock sample_env sample_store0 sample_wrong_root
     = (Inr sample_wrong_root, sample_store_kick\<lparr>blocks := [sample_wrong_root]\<rparr>)"
    by (rule submit_steps [OF validate_wrong_root save_wrong_root])
  then show ?thesis
    by (simp add: sample_wrong_root_fields getMembers_def sample_store_kick_fields)
qed

subsection \<open>Members to be kicked (C5)\<close>

lemma kick_block_fields:
  "number sample_kick_block = 1" "previousHash sample_kick_block = ''0C5A9E''"
  "previousIssuer sample_kick_block = fprA" "timestamp sample_kick_block = 1400000005"
  "issuer sample_kick_block = fprA" "hash sample_kick_block = ''0D77F1''"
  "membersChanges sample_kick_block = [CHR ''-'' # fprA, CHR ''-'' # fprB]"
  "keysChanges sample_kick_block = []"
  by (simp_all add: sample_kick_block_def sample_fields)

lemma kick_current: "current (blocks sample_store_kick) = Some sample_root2"
  by (simp add: sample_store_kick_fields)

text \<open>
  C5 fails on the code, at this input: the store after the root block of A and B, in which
  both founders have one link where two are required and are flagged to be kicked, and the
  block on top of it that removes both and changes no key. Each founder still fails, and
  has its \<open>-\<close> entry: by the rule the block passes the test of the kicked members. All
  the other checks pass. \<open>checkKicked\<close> throws, and the block is never accepted.
\<close>

theorem checkKicked_divergence:
  "submitKeyBlock sample_env sample_store0 sample_root2 = (Inr sample_root2, sample_store_kick)
   \<and> map k_fingerprint (getToBeKicked (keys sample_store_kick)) = [fprA, fprB]
   \<and> membersChanges sample_kick_block = [CHR ''-'' # fprA, CHR ''-'' # fprB]
   \<and> spec_checkKicked sample_env sample_store_kick sample_kick_block []
   \<and> checkChaining (current (blocks sample_store_kick)) sample_kick_block = Inr ()
   \<and> checkTimestamp sample_env sample_kick_block = Inr ()
   \<and> checkProofOfWork (cfg sample_env) sample_store_kick (current (blocks sample_store_kick))
        sample_kick_block = Inr ()
   \<and> checkIssuer sample_store_kick sample_kick_block = Inr ()
   \<and> andThen (checkKeychanges sample_env sample_store_kick sample_kick_block) logLinks = Inr []
   \<and> checkWoTStability sample_env sample_store_kick sample_kick_block [] = Inr ()
   \<and> checkCommunityChanges sample_env sample_kick_block = Inr ()
   \<and> checkKicked sample_env sample_store_kick sample_kick_block [] = Inl TypeError
   \<and> thrown TypeError
   \<and> submitKeyBlock sample_env sample_store_kick sample_kick_block
       = (Inl TypeError, sample_store_kick)"
proof -
  have k: "map k_fingerprint (getToBeKicked (keys sample_store_kick)) = [fprA, fprB]"
    by (simp add: getToBeKicked_def sample_store_kick_fields)
  have sp: "spec_checkKicked sample_env sample_store_kick sample_kick_block []"
    by (simp add: spec_checkKicked_def spec_stillFailing_def getToBeKicked_def linkCount_def
        currentValidLinks_def sample_store_kick_fields sample_link_fields kick_block_fields
        sample_env_fields sample_conf_fields fpr_facts)
  have c1: "checkChaining (current (blocks sample_store_kick)) sample_kick_block = Inr ()"
    by (simp add: kick_current checkChaining_def kick_block_fields sample_root2_fields
        fl_nat_small)
  have c2: "checkTimestamp sample_env sample_kick_block = Inr ()"
    by (simp add: checkTimestamp_def kick_block_fields sample_env_fields sample_conf_fields
        fl_int_small)
  have c3: "checkProofOfWork (cfg sample_env) sample_store_kick (current (blocks sample_store_kick))
        sample_kick_block = Inr ()"
    by (simp add: kick_current check_defs kick_block_fields sample_fields
        sample_store_kick_fields cong: eval_congs)
  have c4: "checkIssuer sample_store_kick sample_kick_block = Inr ()"
    by (simp add: checkIssuer_def isMember_def kick_block_fields sample_store_kick_fields)
  have c5: "andThen (checkKeychanges sample_env sample_store_kick sample_kick_block) logLinks
      = Inr []"
    by (simp add: keychanges_kick_block)
  have c6: "checkWoTStability sample_env sample_store_kick sample_kick_block [] = Inr ()"
    by (simp add: checkWoTStability_def newcomersOf_def kick_block_fields)
  have c7: "checkCommunityChanges sample_env sample_kick_block = Inr ()"
    by (simp add: checkCommunityChanges_def getMemberships_def kick_block_fields)
  have c8: "checkKicked sample_env sample_store_kick sample_kick_block [] = Inl TypeError"
    by (simp add: checkKicked_def checkKickedKey_def checkKickedDecision_def getToBeKicked_def
        sample_store_kick_fields)
  from submit_root2 k sp c1 c2 c3 c4 c5 c6 c7 c8 submit_kick_block show ?thesis
    by (simp add: kick_block_fields)
qed

subsection \<open>Links of newcomers (C4)\<close>

lemma submit_join_accepted:
  "\<exists>st'. submitKeyBlock sample_env sample_store_root3 sample_join = (Inr sample_join, st')"
  using save_join by (auto simp: submitKeyBlock_def validate_join)

lemma join_fields:
  "number sample_join = 1" "membersChanges sample_join = [CHR ''+'' # fprD]"
  "number sample_join_short = 1" "membersChanges sample_join_short = [CHR ''+'' # fprD]"
  by (simp_all add: sample_join_def sample_join_short_def sample_fields)

lemma join_link_counts:
  "linkCount sample_store_root3 fprD [(fprD, [fprA, fprB]), (fprA, [fprD])] = 2"
  "linkCount sample_store_root3 fprD [(fprD, [fprA]), (fprA, [fprD])] = 1"
  by (simp_all add: linkCount_def currentValidLinks_def sample_store_root3_fields
      sample_link_fields fpr_facts)

theorem newcomers_have_enough_links_witness:
  "(\<exists>st'. submitKeyBlock sample_env sample_store_root3 sample_join = (Inr sample_join, st'))
   \<and> 0 < number sample_join
   \<and> fprD \<in> set (newcomersOf (membersChanges sample_join))
   \<and> (\<exists>newLinks. validateKeyBlock sample_env sample_store_root3 sample_join = Inr newLinks
         \<and> sigQty (cfg sample_env) \<le> linkCount sample_store_root3 fprD newLinks)
   \<and> linkCount sample_store_root3 fprD [(fprD, [fprA, fprB]), (fprA, [fprD])]
       = sigQty (cfg sample_env)
   \<and> checkHaveEnoughLinks sample_env sample_store_root3 fprD
        [(fprD, [fprA, fprB]), (fprA, [fprD])] = Inr ()
   \<and> linkCount sample_store_root3 fprD [(fprD, [fprA]), (fprA, [fprD])] + 1
       = sigQty (cfg sample_env)
   \<and> checkHaveEnoughLinks sample_env sample_store_root3 fprD [(fprD, [fprA]), (fprA, [fprD])]
       = Inl (NotEnoughLinks fprD 1 2)
   \<and> (\<exists>err. submitKeyBlock sample_env sample_store_root3 sample_join_short
               = (Inl err, sample_store_root3))"
proof -
  obtain st' where acc: "submitKeyBlock sample_env sample_store_root3 sample_join
      = (Inr sample_join, st')"
    using submit_join_accepted by blast
  have pos: "0 < number sample_join" by (simp add: join_fields)
  have new: "fprD \<in> set (newcomersOf (membersChanges sample_join))"
    by (simp add: newcomersOf_def join_fields)
  have qty: "sigQty (cfg sample_env) = 2" by (simp add: sample_env_fields sample_conf_fields)
  note full = newcomers_have_enough_links [where e = sample_env and st = sample_store_root3
      and block = sample_join and b = sample_join and st' = st' and f = fprD
      and newLinks = "[(fprD, [fprA, fprB]), (fprA, [fprD])]"]
  note short = newcomers_have_enough_links [where e = sample_env and st = sample_store_root3
      and block = sample_join_short and f = fprD
      and newLinks = "[(fprD, [fprA]), (fprA, [fprD])]"]
  from full [THEN conjunct1] acc pos
  obtain newLinks where v: "validateKeyBlock sample_env sample_store_root3 sample_join = Inr newLinks"
    and all: "\<forall>f \<in> set (newcomersOf (membersChanges sample_join)).
        sigQty (cfg sample_env) \<le> linkCount sample_store_root3 f newLinks"
    by blast
  from all new have enough: "sigQty (cfg sample_env) \<le> linkCount sample_store_root3 fprD newLinks"
    by blast
  have exact: "linkCount sample_store_root3 fprD [(fprD, [fprA, fprB]), (fprA, [fprD])]
      = sigQty (cfg sample_env)"
    by (simp add: join_link_counts qty)
  from full [THEN conjunct2, THEN conjunct1] exact
  have passes: "checkHaveEnoughLinks sample_env sample_store_root3 fprD
      [(fprD, [fprA, fprB]), (fprA, [fprD])] = Inr ()" by blast
  have below: "linkCount sample_store_root3 fprD [(fprD, [fprA]), (fprA, [fprD])] + 1
      = sigQty (cfg sample_env)"
    by (simp add: join_link_counts qty)
  from short [THEN conjunct2, THEN conjunct2, THEN conjunct1] below
  have fails: "checkHaveEnoughLinks sample_env sample_store_root3 fprD
      [(fprD, [fprA]), (fprA, [fprD])] = Inl (NotEnoughLinks fprD 1 2)"
    by (simp add: join_link_counts qty)
  have pre: "0 < number sample_join_short
      \<and> fprD \<in> set (newcomersOf (membersChanges sample_join_short))
      \<and> linkCount sample_store_root3 fprD [(fprD, [fprA]), (fprA, [fprD])] < sigQty (cfg sample_env)"
    by (simp add: join_fields newcomersOf_def join_link_counts qty)
  have raw: "andThen (checkKeychanges sample_env sample_store_root3 sample_join_short) logLinks
      = Inr [(fprD, [fprA]), (fprA, [fprD])]"
    by (simp add: keychanges_join_short)
  from short [THEN conjunct2, THEN conjunct2, THEN conjunct2] pre raw
  have rej: "\<exists>err. submitKeyBlock sample_env sample_store_root3 sample_join_short
               = (Inl err, sample_store_root3)"
    by blast
  from acc pos new v enough exact passes below fails rej show ?thesis by blast
qed

text \<open>
  C4 as the specification states it fails, on the root block and on the links that a block
  makes obsolete. The root block of A and B is accepted although each founder has one link
  where two are required, before and after the block. And on a store where C has left, the
  block that adds C again one validity later is accepted on the two stored links to C,
  which are obsolete once the block is applied: C has no valid link then.
\<close>

theorem newcomers_links_counterexample:
  "submitKeyBlock sample_env sample_store0 sample_root2 = (Inr sample_root2, sample_store_kick)
   \<and> number sample_root2 = 0
   \<and> (CHR ''+'' # fprA) \<in> set (membersChanges sample_root2)
   \<and> sigQty (cfg sample_env) = 2
   \<and> linkCount sample_store0 fprA [(fprA, [fprB]), (fprB, [fprA])] = 1
   \<and> length (currentValidLinks (links sample_store_kick) fprA) = 1
   \<and> submitKeyBlock sample_late_env sample_store_exC sample_late_rejoin
       = (Inr sample_late_rejoin, sample_store_late)
   \<and> number sample_late_rejoin = 2
   \<and> (CHR ''+'' # fprC) \<in> set (membersChanges sample_late_rejoin)
   \<and> sigQty (cfg sample_late_env) = 2
   \<and> linkCount sample_store_exC fprC [] = 2
   \<and> currentValidLinks (links sample_store_late) fprC = []"
proof -
  have a: "linkCount sample_store0 fprA [(fprA, [fprB]), (fprB, [fprA])] = 1"
    by (simp add: linkCount_def currentValidLinks_def sample_store0_fields)
  have b: "length (currentValidLinks (links sample_store_kick) fprA) = 1"
    by (simp add: currentValidLinks_def sample_store_kick_fields sample_link_fields fpr_facts)
  have c: "linkCount sample_store_exC fprC [] = 2"
    by (simp add: linkCount_def currentValidLinks_def sample_store_exC_fields
        sample_store_root3_fields sample_link_fields fpr_facts)
  from submit_root2 a b submit_late_rejoin c late_links_obsolete show ?thesis
    by (simp add: sample_root2_fields sample_late_rejoin_fields sample_env_fields
        sample_late_env_fields sample_conf_fields)
qed

subsection \<open>Changes of members (C6)\<close>

theorem memberships_have_their_change_witness:
  "submitKeyBlock sample_env sample_store0 sample_root3 = (Inr sample_root3, sample_store_root3)
   \<and> sample_newcomer (CHR ''C'') ''AB'' \<in> set (keysChanges sample_root3)
   \<and> kc_membership (sample_newcomer (CHR ''C'') ''AB'') \<noteq> None
   \<and> (CHR ''+'' # kc_fingerprint (sample_newcomer (CHR ''C'') ''AB''))
        \<in> set (membersChanges sample_root3)
   \<and> (\<exists>err. submitKeyBlock sample_env sample_store0
               (sample_root3\<lparr>membersChanges := [CHR ''+'' # fprA, CHR ''+'' # fprB]\<rparr>)
             = (Inl err, sample_store0))"
proof -
  have kc: "sample_newcomer (CHR ''C'') ''AB'' \<in> set (keysChanges sample_root3)"
    by (simp add: sample_root3_fields)
  have ty: "kc_type (sample_newcomer (CHR ''C'') ''AB'') = ''N''"
    by (simp add: sample_newcomer_fields)
  from memberships_have_their_change [where e = sample_env and st = sample_store0
      and block = sample_root3 and b = sample_root3 and st' = sample_store_root3,
      THEN conjunct1] submit_root3
  have "\<forall>kc \<in> set (keysChanges sample_root3). kc_type kc = ''N'' \<longrightarrow>
            kc_membership kc \<noteq> None
            \<and> (CHR ''+'' # kc_fingerprint kc) \<in> set (membersChanges sample_root3)"
    by blast
  with kc ty have one: "kc_membership (sample_newcomer (CHR ''C'') ''AB'') \<noteq> None
      \<and> (CHR ''+'' # kc_fingerprint (sample_newcomer (CHR ''C'') ''AB''))
           \<in> set (membersChanges sample_root3)"
    by blast
  let ?b = "sample_root3\<lparr>membersChanges := [CHR ''+'' # fprA, CHR ''+'' # fprB]\<rparr>"
  have lacking: "\<exists>kc \<in> set (keysChanges ?b). \<exists>m. kc_membership kc = Some m
          \<and> changeOf (ms_membership (fromInline sample_env (im_membership m) (im_signature m)),
                      kc_fingerprint kc) \<notin> set (membersChanges ?b)"
    by (rule bexI [of _ "sample_newcomer (CHR ''C'') ''AB''"])
      (simp_all add: sample_root3_fields sample_newcomer_fields sample_env_fields changeOf_def
        fpr_facts)
  from memberships_have_their_change [where e = sample_env and st = sample_store0
      and block = ?b, THEN conjunct2] lacking
  have two: "\<exists>err. submitKeyBlock sample_env sample_store0 ?b = (Inl err, sample_store0)"
    by blast
  from submit_root3 kc one two show ?thesis by blast
qed

text \<open>
  C6 as the specification states it fails in its converse direction. The root block of A,
  B and C is applied, then a block that removes C, then a block whose only content is the
  entry \<open>+\<close> of C: it has no keychange at all, and it is accepted.
\<close>

theorem plus_entry_without_keychange:
  "submitKeyBlock sample_env sample_store0 sample_root3 = (Inr sample_root3, sample_store_root3)
   \<and> submitKeyBlock sample_env sample_store_root3 sample_leave = (Inr sample_leave, sample_store_exC)
   \<and> fst (submitKeyBlock sample_env sample_store_exC sample_rejoin) = Inr sample_rejoin
   \<and> membersChanges sample_rejoin = [CHR ''+'' # fprC]
   \<and> keysChanges sample_rejoin = []"
  using submit_root3 submit_leave submit_rejoin
  by (simp add: sample_rejoin_def sample_next_fields)

subsection \<open>A second submission (C7)\<close>

lemma resubmit_root2:
  "submitKeyBlock e sample_store_kick sample_root2 = (Inl TooLate, sample_store_kick)"
proof -
  have "checkChaining (current (blocks sample_store_kick)) sample_root2 = Inl TooLate"
    by (simp add: kick_current checkChaining_def)
  then show ?thesis by (rule submit_chaining_error)
qed

theorem resubmission_rejected_unchanged_witness:
  "submitKeyBlock sample_env sample_store0 sample_root2 = (Inr sample_root2, sample_store_kick)
   \<and> submitKeyBlock sample_late_env sample_store_kick sample_root2
       = (Inl TooLate, sample_store_kick)"
  using submit_root2 resubmission_rejected_unchanged [OF submit_root2, of sample_late_env]
  by simp

text \<open>
  C7 as the specification states it fails: the root block of A and B is accepted, and its
  second submission gives the error of a block that comes too late, which the
  specification counts among the chaining errors and not as \<open>AlreadySeen\<close>. The state is
  unchanged, as the specification says.
\<close>

theorem resubmission_is_too_late:
  "submitKeyBlock sample_env sample_store0 sample_root2 = (Inr sample_root2, sample_store_kick)
   \<and> submitKeyBlock sample_env sample_store_kick sample_root2 = (Inl TooLate, sample_store_kick)
   \<and> errorKind TooLate = Some BadChaining
   \<and> errorKind TooLate \<noteq> Some AlreadySeen"
  using submit_root2 resubmit_root2 [of sample_env] by simp

subsection \<open>A rejection changes nothing (C8)\<close>



subsection \<open>The proof-of-work search (C9)\<close>

lemma sample_run_fields:
  "clockAt sample_run i = 1400000020" "newKeyblockAt sample_run i = False"
  "sigFunc sample_run raw = ''SIG''"
  by (simp_all add: sample_run_def)

lemma sample_raw_unsigned:
  "getRaw sample_env (b\<lparr>signature := s\<rparr>) = getRaw sample_env b"
  by (simp add: sample_env_fields)

lemma fprA_length: "length fprA = 40"
  by (simp add: fprA_def)

lemma sample_prove:
  "prove sample_env sample_run (sample_next sample_root3 [] []) 2 (Suc (Suc (Suc 0)))
     = [Proved ((sample_next sample_root3 [] [])
                 \<lparr>nonce := 1, timestamp := 1400000020, signature := ''SIG''\<rparr>)]"
  by (simp add: prove_def proveIteration_def matchZeros_iff leadingZeros_def sample_run_fields
      sample_env_fields sample_next_fields fl_int_small fl_nat_small fprA_length Let_def)

theorem prove_gives_proof_of_work_witness:
  "(\<forall>b s. getRaw sample_env (b\<lparr>signature := s\<rparr>) = getRaw sample_env b)
   \<and> prove sample_env sample_run (sample_next sample_root3 [] []) 2 (Suc (Suc (Suc 0)))
       = [Proved ((sample_next sample_root3 [] [])
                   \<lparr>nonce := 1, timestamp := 1400000020, signature := ''SIG''\<rparr>)]
   \<and> 2 \<le> leadingZeros (hashOf sample_env
         (getRaw sample_env ((sample_next sample_root3 [] [])
                   \<lparr>nonce := 1, timestamp := 1400000020, signature := ''SIG''\<rparr>)
          @ signature ((sample_next sample_root3 [] [])
                   \<lparr>nonce := 1, timestamp := 1400000020, signature := ''SIG''\<rparr>)))
   \<and> timestamp (p_block (fst (proveIteration sample_env sample_run 0
         \<lparr>p_block = sample_next sample_root3 [] [], p_pow = [], p_sig = [], p_raw = [],
          p_testsCount = 0\<rparr>))) = 1400000020
   \<and> nonce (p_block (fst (proveIteration sample_env sample_run 0
         \<lparr>p_block = sample_next sample_root3 [] [], p_pow = [], p_sig = [], p_raw = [],
          p_testsCount = 0\<rparr>))) = 0
   \<and> nonce (p_block (fst (proveIteration sample_env sample_run 1
         \<lparr>p_block = (sample_next sample_root3 [] [])\<lparr>nonce := 0, timestamp := 1400000020\<rparr>,
          p_pow = ''F0B2'', p_sig = ''SIG'', p_raw = [], p_testsCount = 1\<rparr>))) = 1"
proof -
  let ?b = "sample_next sample_root3 [] []"
  let ?p = "?b\<lparr>nonce := 1, timestamp := 1400000020, signature := ''SIG''\<rparr>"
  let ?s0 = "\<lparr>p_block = ?b, p_pow = [], p_sig = [], p_raw = [], p_testsCount = 0\<rparr>"
  let ?s1 = "\<lparr>p_block = ?b\<lparr>nonce := 0, timestamp := 1400000020\<rparr>,
          p_pow = ''F0B2'', p_sig = ''SIG'', p_raw = [], p_testsCount = 1\<rparr>"
  have raw: "\<forall>b s. getRaw sample_env (b\<lparr>signature := s\<rparr>) = getRaw sample_env b"
    by (simp add: sample_raw_unsigned)
  note first = prove_gives_proof_of_work [where e = sample_env and r = sample_run
      and block = ?b and nbZeros = 2 and fuel = "Suc (Suc (Suc 0))" and i = 0 and s = ?s0]
  note second = prove_gives_proof_of_work [where e = sample_env and r = sample_run
      and block = ?b and nbZeros = 2 and fuel = "Suc (Suc (Suc 0))" and i = 1 and s = ?s1]
  have "Proved ?p \<in> set (prove sample_env sample_run ?b 2 (Suc (Suc (Suc 0))))"
    by (simp add: sample_prove)
  with first [THEN conjunct2, THEN conjunct1] raw
  have zeros: "2 \<le> leadingZeros (hashOf sample_env (getRaw sample_env ?p @ signature ?p))"
    by blast
  from first [THEN conjunct2, THEN conjunct2, THEN conjunct1]
  have ts: "timestamp (p_block (fst (proveIteration sample_env sample_run 0 ?s0))) = 1400000020"
    by (simp add: sample_run_fields)
  have differs: "clockAt sample_run 0 \<noteq> timestamp (p_block ?s0)"
    by (simp add: sample_run_fields sample_next_fields)
  with first [THEN conjunct2, THEN conjunct2, THEN conjunct2, THEN conjunct1]
  have reset: "nonce (p_block (fst (proveIteration sample_env sample_run 0 ?s0))) = 0"
    by blast
  have same: "clockAt sample_run 1 = timestamp (p_block ?s1) \<and> \<bar>nonce (p_block ?s1)\<bar> < 2 ^ 53"
    by (simp add: sample_run_fields)
  with second [THEN conjunct2, THEN conjunct2, THEN conjunct2, THEN conjunct2]
  have "nonce (p_block (fst (proveIteration sample_env sample_run 1 ?s1))) = nonce (p_block ?s1) + 1"
    by blast
  then have incr: "nonce (p_block (fst (proveIteration sample_env sample_run 1 ?s1))) = 1"
    by simp
  from raw sample_prove zeros ts reset incr show ?thesis by (intro conjI)
qed

subsection \<open>Submission of a membership (C10)\<close>




end
